theory Spec2Isabelle
  imports Main "HOL-Library.Word"
begin

unbundle bit_operations_syntax

section \<open>The sync client of adb (file\_sync\_client.cpp)\<close>

text \<open>
  A shallow embedding of the sync client: the methods of \<open>SyncConnection\<close> and the static
  functions \<open>sync_ls\<close>, \<open>sync_finish_stat\<close>, \<open>sync_stat\<close>, \<open>SendLargeFile\<close>, \<open>sync_send\<close>,
  \<open>sync_recv\<close>, \<open>do_sync_ls\<close> and the timestamp phase of \<open>copy_local_dir_remote\<close>.
  The operating system and the peer are an explicit \<open>world\<close> that every function takes and
  returns; what the program does to it is recorded, in order, in the world's trace.
\<close>

subsection \<open>Machine integers and the wire format\<close>

type_synonym byte = "8 word"
type_synonym u32 = "32 word"
type_synonym u64 = "64 word"

text \<open>A 32-bit field as it lies in memory and on the wire (little-endian).\<close>

definition le32 :: "u32 \<Rightarrow> byte list" where
  "le32 x = [ucast x, ucast (drop_bit 8 x), ucast (drop_bit 16 x), ucast (drop_bit 24 x)]"

definition rd32 :: "byte list \<Rightarrow> u32" where
  "rd32 bs = (case bs of
      [b0, b1, b2, b3] \<Rightarrow>
        ucast b0 OR push_bit 8 (ucast b1) OR push_bit 16 (ucast b2) OR push_bit 24 (ucast b3)
    | _ \<Rightarrow> 0)"

text \<open>The \<open>n\<close>-th 32-bit field of a struct read from the stream.\<close>

definition field :: "nat \<Rightarrow> byte list \<Rightarrow> u32" where
  "field n bs = rd32 (take 4 (drop (4 * n) bs))"

text \<open>
  Modelled from the spec: the message identifiers and \<open>SYNC_DATA_MAX\<close> are macros of
  file\_sync\_service.h, which is not among the sources. The spec names the identifiers
  (section 3) and gives the chunk ceiling as 64 KiB; an identifier is its four ASCII letters
  packed little-endian, so that it reads as its name on the wire.
\<close>

definition ID_STAT :: u32 where "ID_STAT = 0x54415453"
definition ID_LIST :: u32 where "ID_LIST = 0x5453494C"
definition ID_SEND :: u32 where "ID_SEND = 0x444E4553"
definition ID_RECV :: u32 where "ID_RECV = 0x56434552"
definition ID_DENT :: u32 where "ID_DENT = 0x544E4544"
definition ID_DONE :: u32 where "ID_DONE = 0x454E4F44"
definition ID_DATA :: u32 where "ID_DATA = 0x41544144"
definition ID_OKAY :: u32 where "ID_OKAY = 0x59414B4F"
definition ID_FAIL :: u32 where "ID_FAIL = 0x4C494146"
definition ID_QUIT :: u32 where "ID_QUIT = 0x54495551"

definition SYNC_DATA_MAX :: nat where "SYNC_DATA_MAX = 64 * 1024"

text \<open>
  The file-type bits of a mode, from the platform's sys/stat.h: octal 170000 (the mask),
  100000 (regular file), 120000 (symlink) and 040000 (directory), written in hexadecimal.
  The spec's examples use them: octal 40755 a directory, 100644 a regular file, 120777 a
  symlink.
\<close>

definition S_IFMT :: u32 where "S_IFMT = 0xF000"
definition S_IFREG :: u32 where "S_IFREG = 0x8000"
definition S_IFLNK :: u32 where "S_IFLNK = 0xA000"
definition S_IFDIR :: u32 where "S_IFDIR = 0x4000"

definition S_ISREG :: "u32 \<Rightarrow> bool" where "S_ISREG m = (m AND S_IFMT = S_IFREG)"
definition S_ISLNK :: "u32 \<Rightarrow> bool" where "S_ISLNK m = (m AND S_IFMT = S_IFLNK)"
definition S_ISDIR :: "u32 \<Rightarrow> bool" where "S_ISDIR m = (m AND S_IFMT = S_IFDIR)"

definition PATH_MAX :: nat where "PATH_MAX = 4096"

text \<open>A C string handed over as a buffer: the bytes before the first NUL.\<close>

definition c_str :: "byte list \<Rightarrow> byte list" where
  "c_str buf = takeWhile (\<lambda>b. b \<noteq> 0) buf"

text \<open>\<open>%d\<close> of \<open>StringPrintf\<close>.\<close>

fun dec_nat :: "nat \<Rightarrow> string" where
  "dec_nat n = (if n < 10 then [char_of (48 + n)] else dec_nat (n div 10) @ [char_of (48 + n mod 10)])"

definition dec_int :: "int \<Rightarrow> string" where
  "dec_int i = (if i < 0 then CHR ''-'' # dec_nat (nat (- i)) else dec_nat (nat i))"

subsection \<open>The world: the sync stream, the local file system, the terminal\<close>

text \<open>
  A local file: the size \<open>stat\<close> reports (an \<open>off_t\<close>), the bytes reading it yields, whether
  it can be opened, and the offset from which reading fails, if any.
\<close>

record lfile =
  st_size :: u64
  contents :: "byte list"
  readable :: bool
  read_fail :: "nat option"

text \<open>
  What the program does to the world, one event per call. A write or read that moves all
  its bytes is \<open>SockWrite\<close>, \<open>SockRead\<close>, \<open>FileWrite\<close>; one that is cut short carries
  the bytes that were still moved. \<open>Print\<close>, \<open>Progress\<close> and \<open>Error\<close> are the connection's
  \<open>Print\<close>, \<open>Printf("%s: %d%%")\<close> and \<open>Error\<close>; an error is recorded with the format
  string of its call site (its arguments are not rendered, but for the message of the peer).
\<close>

datatype event =
    SockWrite "byte list"
  | SockWriteShort "byte list"
  | SockRead "byte list"
  | SockReadShort "byte list"
  | OrderlyShutdown "byte list"
  | SockClose int
  | FileUnlink string
  | Mkdirs string
  | FileCreat string int
  | FileCreatFail string
  | FileOpen string int
  | FileOpenFail string
  | FileWrite int "byte list"
  | FileWriteShort int "byte list"
  | FileClose int
  | Print string
  | Progress string int
  | Error string

text \<open>
  \<open>sock_in\<close>: the bytes the peer delivers before its end of the stream closes;
  \<open>sock_room\<close>: the bytes the stream accepts before it breaks;
  \<open>files\<close>, \<open>symlinks\<close>: the local files by path, and what \<open>readlink\<close> answers;
  \<open>creat_ok\<close>: the paths \<open>adb_creat\<close> can create; \<open>disk_room\<close>: the bytes local writes
  accept before they fail; \<open>open_fds\<close>: the open local descriptors and their paths;
  \<open>connect_fd\<close>: what \<open>adb_connect\<close> returns; \<open>trace\<close>: the events so far, oldest first.
\<close>

record world =
  sock_in :: "byte list"
  sock_room :: nat
  files :: "string \<Rightarrow> lfile option"
  symlinks :: "string \<Rightarrow> byte list option"
  creat_ok :: "string \<Rightarrow> bool"
  disk_room :: nat
  open_fds :: "(int \<times> string) list"
  next_fd :: nat
  connect_fd :: int
  trace :: "event list"

definition emit :: "event \<Rightarrow> world \<Rightarrow> world" where
  "emit e w = w\<lparr>trace := trace w @ [e]\<rparr>"

lemma trace_emit [simp]: "trace (emit e w) = trace w @ [e]"
  by (simp add: emit_def)

lemma emit_fields [simp]:
  "sock_in (emit e w) = sock_in w"
  "sock_room (emit e w) = sock_room w"
  "files (emit e w) = files w"
  "open_fds (emit e w) = open_fds w"
  "disk_room (emit e w) = disk_room w"
  "next_fd (emit e w) = next_fd w"
  "creat_ok (emit e w) = creat_ok w"
  "symlinks (emit e w) = symlinks w"
  "connect_fd (emit e w) = connect_fd w"
  by (simp_all add: emit_def)

text \<open>The events a run added to the trace.\<close>

definition new_events :: "world \<Rightarrow> world \<Rightarrow> event list" where
  "new_events w w' = drop (length (trace w)) (trace w')"

text \<open>
  Modelled from the spec: \<open>ReadFdExactly\<close>, \<open>WriteFdExactly\<close> and \<open>ReadOrderlyShutdown\<close>
  are functions of adb\_io.cpp, which is not among the sources. Section 4.A: both "fail
  with IoError if the stream closes before the requested number of bytes has been moved";
  section 4.C: the shutdown "drain[s] the stream until EOF".
\<close>

definition ReadFdExactly :: "nat \<Rightarrow> world \<Rightarrow> byte list option \<times> world" where
  "ReadFdExactly n w =
     (if n \<le> length (sock_in w)
      then (Some (take n (sock_in w)),
            emit (SockRead (take n (sock_in w))) (w\<lparr>sock_in := drop n (sock_in w)\<rparr>))
      else (None, emit (SockReadShort (sock_in w)) (w\<lparr>sock_in := []\<rparr>)))"

definition WriteFdExactly :: "byte list \<Rightarrow> world \<Rightarrow> bool \<times> world" where
  "WriteFdExactly buf w =
     (if length buf \<le> sock_room w
      then (True, emit (SockWrite buf) (w\<lparr>sock_room := sock_room w - length buf\<rparr>))
      else (False, emit (SockWriteShort (take (sock_room w) buf)) (w\<lparr>sock_room := 0\<rparr>)))"

definition ReadOrderlyShutdown :: "world \<Rightarrow> world" where
  "ReadOrderlyShutdown w = emit (OrderlyShutdown (sock_in w)) (w\<lparr>sock_in := []\<rparr>)"

text \<open>
  Modelled from the spec: the wrappers of sysdeps.h and adb\_utils.h (\<open>adb_unlink\<close>,
  \<open>mkdirs\<close>, \<open>adb_creat\<close>, \<open>adb_open\<close>, \<open>adb_close\<close>, \<open>adb_read\<close>) are not among the
  sources. Section 6 lists them as the capabilities \<open>unlink\<close>, \<open>mkdir_p\<close>,
  \<open>open_create_trunc\<close>, \<open>open_read\<close>; here they act on the world's files. Directories are
  not modelled: \<open>mkdirs\<close> is an event only, and whether a path can be created is the world's
  \<open>creat_ok\<close>.
\<close>

definition adb_unlink :: "string \<Rightarrow> world \<Rightarrow> world" where
  "adb_unlink path w = emit (FileUnlink path) (w\<lparr>files := (files w)(path := None)\<rparr>)"

definition mkdirs :: "string \<Rightarrow> world \<Rightarrow> world" where
  "mkdirs path w = emit (Mkdirs path) w"

definition adb_creat :: "string \<Rightarrow> world \<Rightarrow> int \<times> world" where
  "adb_creat path w =
     (if creat_ok w path
      then (int (next_fd w),
            emit (FileCreat path (int (next_fd w)))
              (w\<lparr>files := (files w)(path \<mapsto>
                    \<lparr>st_size = 0, contents = [], readable = True, read_fail = None\<rparr>),
                 open_fds := (int (next_fd w), path) # open_fds w,
                 next_fd := Suc (next_fd w)\<rparr>))
      else (- 1, emit (FileCreatFail path) w))"

definition adb_open :: "string \<Rightarrow> world \<Rightarrow> int \<times> world" where
  "adb_open path w =
     (case files w path of
        None \<Rightarrow> (- 1, emit (FileOpenFail path) w)
      | Some f \<Rightarrow>
          if readable f
          then (int (next_fd w),
                emit (FileOpen path (int (next_fd w)))
                  (w\<lparr>open_fds := (int (next_fd w), path) # open_fds w,
                     next_fd := Suc (next_fd w)\<rparr>))
          else (- 1, emit (FileOpenFail path) w))"

definition adb_close :: "int \<Rightarrow> world \<Rightarrow> world" where
  "adb_close fd w = emit (FileClose fd) (w\<lparr>open_fds := filter (\<lambda>p. fst p \<noteq> fd) (open_fds w)\<rparr>)"

text \<open>
  \<open>adb_read\<close> of at most \<open>n\<close> bytes at offset \<open>off\<close> of an open file: \<open>None\<close> is the
  return value -1, the empty chunk is end of file.
\<close>

definition adb_read :: "lfile \<Rightarrow> nat \<Rightarrow> nat \<Rightarrow> byte list option" where
  "adb_read f off n =
     (case read_fail f of
        None \<Rightarrow> Some (take n (drop off (contents f)))
      | Some k \<Rightarrow>
          if k \<le> off then None
          else Some (take (min n (k - off)) (drop off (contents f))))"

text \<open>
  Modelled from the spec: \<open>android::base::ReadFileToString\<close> (libbase, not among the
  sources), which section 4.E describes as "read entire file into memory": the whole file,
  or failure.
\<close>

definition ReadFileToString :: "lfile \<Rightarrow> byte list option" where
  "ReadFileToString f =
     (if \<not> readable f then None
      else case read_fail f of
        None \<Rightarrow> Some (contents f)
      | Some k \<Rightarrow> if k \<le> length (contents f) then None else Some (contents f))"

definition append_file :: "byte list \<Rightarrow> lfile \<Rightarrow> lfile" where
  "append_file buf f =
     f\<lparr>contents := contents f @ buf, st_size := of_nat (length (contents f @ buf))\<rparr>"

text \<open>\<open>WriteFdExactly\<close> on a local descriptor.\<close>

definition WriteFdExactly_lfd :: "int \<Rightarrow> byte list \<Rightarrow> world \<Rightarrow> bool \<times> world" where
  "WriteFdExactly_lfd lfd buf w =
     (case map_of (open_fds w) lfd of
        None \<Rightarrow> (False, emit (FileWriteShort lfd []) w)
      | Some path \<Rightarrow>
          if length buf \<le> disk_room w
          then (True, emit (FileWrite lfd buf)
                  (w\<lparr>files := (files w)(path := map_option (append_file buf) (files w path)),
                     disk_room := disk_room w - length buf\<rparr>))
          else (False, emit (FileWriteShort lfd (take (disk_room w) buf))
                  (w\<lparr>files := (files w)(path :=
                        map_option (append_file (take (disk_room w) buf)) (files w path)),
                     disk_room := 0\<rparr>)))"

subsection \<open>class SyncConnection\<close>

text \<open>
  The fields \<open>total_bytes\<close>, \<open>fd\<close> and \<open>max\<close> (here \<open>max_chunk\<close>). The world has one sync
  stream, the one \<open>fd\<close> names when it is valid; the functions that only read and write it
  take the world. A function that assigns a field of the connection returns the connection;
  the others (\<open>SendRequest\<close>, \<open>CopyDone\<close>, \<open>ReportCopyFailure\<close>, \<open>sync_ls\<close>,
  \<open>sync_finish_stat\<close>, \<open>sync_stat\<close>) do not.
\<close>

record SyncConnection =
  total_bytes :: u64
  fd :: int
  max_chunk :: nat

text \<open>The constructor: \<open>max = SYNC_DATA_MAX\<close>, \<open>fd = adb_connect("sync:")\<close>.\<close>

definition SyncConnection_new :: "world \<Rightarrow> SyncConnection \<times> world" where
  "SyncConnection_new w =
     (\<lparr>total_bytes = 0, fd = connect_fd w, max_chunk = SYNC_DATA_MAX\<rparr>,
      if connect_fd w < 0 then emit (Error ''connect failed: %s'') w else w)"

definition IsValid :: "SyncConnection \<Rightarrow> bool" where
  "IsValid sc = (fd sc \<ge> 0)"

definition SendRequest :: "u32 \<Rightarrow> string \<Rightarrow> world \<Rightarrow> bool \<times> world" where
  "SendRequest id' path_and_mode w =
     (let path_length = length path_and_mode in
      if path_length > 1024
      then (False, emit (Error ''SendRequest failed: path too long: %zu'') w)
      else WriteFdExactly (le32 id' @ le32 (of_nat path_length) @ map of_char path_and_mode) w)"

definition SendSmallFile ::
  "SyncConnection \<Rightarrow> string \<Rightarrow> string \<Rightarrow> byte list \<Rightarrow> u32 \<Rightarrow> world
    \<Rightarrow> bool \<times> SyncConnection \<times> world" where
  "SendSmallFile sc path_and_mode rpath data mtime w =
     (let w1 = emit (Print rpath) w;
          path_length = length path_and_mode in
      if path_length > 1024
      then (False, sc, emit (Error ''SendSmallFile failed: path too long: %zu'') w1)
      else
        case WriteFdExactly
               (le32 ID_SEND @ le32 (of_nat path_length) @ map of_char path_and_mode @
                le32 ID_DATA @ le32 (of_nat (length data)) @ data @
                le32 ID_DONE @ le32 mtime) w1 of
          (False, w2) \<Rightarrow> (False, sc, w2)
        | (True, w2) \<Rightarrow>
            (True, sc\<lparr>total_bytes := total_bytes sc + of_nat (length data)\<rparr>, w2))"

text \<open>
  \<open>ReportCopyFailure\<close> reads \<open>msglen\<close> bytes into a buffer of \<open>msglen + 1\<close> bytes and
  prints them as a C string; it always returns false. The size of the buffer is computed in
  \<open>unsigned\<close> arithmetic: at \<open>msglen = 0xFFFFFFFF\<close> it is 0, and the read into the empty
  buffer fails before a byte is taken from the stream (undefined behaviour in C++; the
  \<open>read\<close> of the usual platforms refuses the address).
\<close>

definition ReportCopyFailure :: "string \<Rightarrow> string \<Rightarrow> u32 \<Rightarrow> world \<Rightarrow> bool \<times> world" where
  "ReportCopyFailure from to msglen w =
     (case (if msglen + 1 = 0 then (None, emit (SockReadShort []) w)
            else ReadFdExactly (unat msglen) w) of
        (None, w1) \<Rightarrow>
          (False, emit (Error ''failed to copy '%s' to '%s'; failed to read reason (!): %s'') w1)
      | (Some buf, w1) \<Rightarrow>
          (False, emit (Error (''failed to copy '%s' to '%s': '' @ map (\<lambda>b. char_of (unat b)) (c_str buf))) w1))"

definition CopyDone :: "string \<Rightarrow> string \<Rightarrow> world \<Rightarrow> bool \<times> world" where
  "CopyDone from to w =
     (case ReadFdExactly 8 w of
        (None, w1) \<Rightarrow> (False, emit (Error ''failed to copy '%s' to '%s': no ID_DONE: %s'') w1)
      | (Some msg, w1) \<Rightarrow>
          if field 0 msg = ID_OKAY then (True, w1)
          else if field 0 msg \<noteq> ID_FAIL
          then (False, emit (Error ''failed to copy '%s' to '%s': unknown reason %d'') w1)
          else ReportCopyFailure from to (field 1 msg) w1)"

definition SendQuit :: "world \<Rightarrow> bool \<times> world" where
  "SendQuit w = SendRequest ID_QUIT [] w"

text \<open>The destructor.\<close>

definition SyncConnection_delete :: "SyncConnection \<Rightarrow> world \<Rightarrow> world" where
  "SyncConnection_delete sc w =
     (if \<not> IsValid sc then w
      else
        case SendQuit w of
          (True, w1) \<Rightarrow> emit (SockClose (fd sc)) (ReadOrderlyShutdown w1)
        | (False, w1) \<Rightarrow> emit (SockClose (fd sc)) w1)"

subsection \<open>LIST and STAT\<close>

text \<open>
  \<open>sync_finish_stat\<close> reads one STAT reply \<open>(id, mode, size, time)\<close> and hands back
  \<open>(timestamp, mode, size)\<close>; the callers pick what they need (the null pointers of
  the source).
\<close>

definition sync_finish_stat :: "SyncConnection \<Rightarrow> world \<Rightarrow> (u32 \<times> u32 \<times> u32) option \<times> world" where
  "sync_finish_stat sc w =
     (case ReadFdExactly 16 w of
        (None, w1) \<Rightarrow> (None, w1)
      | (Some msg, w1) \<Rightarrow>
          if field 0 msg \<noteq> ID_STAT then (None, w1)
          else (Some (field 3 msg, field 1 msg, field 2 msg), w1))"

definition sync_stat :: "SyncConnection \<Rightarrow> string \<Rightarrow> world \<Rightarrow> (u32 \<times> u32 \<times> u32) option \<times> world" where
  "sync_stat sc path w =
     (case SendRequest ID_STAT path w of
        (False, w1) \<Rightarrow> (None, w1)
      | (True, w1) \<Rightarrow> sync_finish_stat sc w1)"

text \<open>
  The \<open>while (true)\<close> loop of \<open>sync_ls\<close>. Every round reads a 20-byte
  \<open>(id, mode, size, time, namelen)\<close> header, so the loop ends when the peer's bytes do.
  The callback \<open>func\<close> acts on a state \<open>acc\<close> of the caller's; it gets the name as
  the C string in \<open>buf\<close>.
\<close>

lemma ReadFdExactly_Some_length:
  "ReadFdExactly n w = (Some b, w1) \<Longrightarrow> length (sock_in w1) + n = length (sock_in w) \<and> length b = n"
  by (auto simp: ReadFdExactly_def split: if_splits)

function sync_ls_loop ::
  "(u32 \<Rightarrow> u32 \<Rightarrow> u32 \<Rightarrow> byte list \<Rightarrow> 'a \<Rightarrow> 'a) \<Rightarrow> 'a \<Rightarrow> world \<Rightarrow> bool \<times> 'a \<times> world" where
  "sync_ls_loop func acc w =
     (case ReadFdExactly 20 w of
        (None, w1) \<Rightarrow> (False, acc, w1)
      | (Some msg, w1) \<Rightarrow>
          if field 0 msg = ID_DONE then (True, acc, w1)
          else if field 0 msg \<noteq> ID_DENT then (False, acc, w1)
          else if unat (field 4 msg) > 256 then (False, acc, w1)
          else
            case ReadFdExactly (unat (field 4 msg)) w1 of
              (None, w2) \<Rightarrow> (False, acc, w2)
            | (Some buf, w2) \<Rightarrow>
                sync_ls_loop func
                  (func (field 1 msg) (field 2 msg) (field 3 msg) (c_str buf) acc) w2)"
  by pat_completeness auto
termination
  apply (relation "measure (\<lambda>(func, acc, w). length (sock_in w))")
   apply simp
  apply (auto dest!: ReadFdExactly_Some_length [OF sym])
  done

declare sync_ls_loop.simps [simp del]

definition sync_ls ::
  "SyncConnection \<Rightarrow> string \<Rightarrow> (u32 \<Rightarrow> u32 \<Rightarrow> u32 \<Rightarrow> byte list \<Rightarrow> 'a \<Rightarrow> 'a) \<Rightarrow> 'a \<Rightarrow> world
    \<Rightarrow> bool \<times> 'a \<times> world" where
  "sync_ls sc path func acc w =
     (case SendRequest ID_LIST path w of
        (False, w1) \<Rightarrow> (False, acc, w1)
      | (True, w1) \<Rightarrow> sync_ls_loop func acc w1)"

subsection \<open>Pull: \<open>sync_recv\<close>\<close>

text \<open>
  What a call does: it returns a value, or it divides by zero in the progress computation
  (undefined behaviour in C++; a trap on the usual platforms). The loop of \<open>sync_recv\<close>
  reads an 8-byte \<open>(id, size)\<close> header per round, so it ends when the peer's bytes do; the
  division comes after the chunk was written and counted.
\<close>

datatype outcome = Returns bool | DivideByZero

text \<open>\<open>static_cast<int>(bytes_copied * 100 / total)\<close>, in 64-bit unsigned arithmetic.\<close>

definition percentage :: "u64 \<Rightarrow> u64 \<Rightarrow> int" where
  "percentage bytes_copied total_size = sint (ucast (bytes_copied * 100 div total_size) :: 32 word)"

lemma WriteFdExactly_lfd_sock_in:
  "WriteFdExactly_lfd lfd buf w = (r, w1) \<Longrightarrow> sock_in w1 = sock_in w"
  by (auto simp: WriteFdExactly_lfd_def split: option.splits if_splits)

function sync_recv_loop ::
  "SyncConnection \<Rightarrow> string \<Rightarrow> string \<Rightarrow> int \<Rightarrow> u32 \<Rightarrow> u64 \<Rightarrow> world
    \<Rightarrow> outcome \<times> SyncConnection \<times> world" where
  "sync_recv_loop sc rpath lpath lfd size' bytes_copied w =
     (case ReadFdExactly 8 w of
        (None, w1) \<Rightarrow> (Returns False, sc, adb_unlink lpath (adb_close lfd w1))
      | (Some msg, w1) \<Rightarrow>
          if field 0 msg = ID_DONE then (Returns True, sc, adb_close lfd w1)
          else if field 0 msg \<noteq> ID_DATA
          then (Returns False, sc,
                snd (ReportCopyFailure rpath lpath (field 1 msg)
                       (adb_unlink lpath (adb_close lfd w1))))
          else if unat (field 1 msg) > max_chunk sc
          then (Returns False, sc,
                adb_unlink lpath (adb_close lfd
                  (emit (Error ''msg.data.size too large: %u (max %zu)'') w1)))
          else
            case ReadFdExactly (unat (field 1 msg)) w1 of
              (None, w2) \<Rightarrow> (Returns False, sc, adb_unlink lpath (adb_close lfd w2))
            | (Some buffer, w2) \<Rightarrow>
                (case WriteFdExactly_lfd lfd buffer w2 of
                   (False, w3) \<Rightarrow>
                     (Returns False, sc,
                      adb_unlink lpath (adb_close lfd (emit (Error ''cannot write '%s': %s'') w3)))
                 | (True, w3) \<Rightarrow>
                     if size' = 0
                     then (DivideByZero,
                           sc\<lparr>total_bytes := total_bytes sc + ucast (field 1 msg)\<rparr>, w3)
                     else
                       sync_recv_loop
                         (sc\<lparr>total_bytes := total_bytes sc + ucast (field 1 msg)\<rparr>)
                         rpath lpath lfd size' (bytes_copied + ucast (field 1 msg))
                         (emit (Progress rpath
                                  (percentage (bytes_copied + ucast (field 1 msg)) (ucast size')))
                            w3)))"
  by pat_completeness auto
termination
  apply (relation "measure (\<lambda>(sc, rpath, lpath, lfd, size', bytes_copied, w). length (sock_in w))")
   apply simp
  apply (auto dest!: ReadFdExactly_Some_length [OF sym] WriteFdExactly_lfd_sock_in [OF sym])
  done

declare sync_recv_loop.simps [simp del]

definition sync_recv ::
  "SyncConnection \<Rightarrow> string \<Rightarrow> string \<Rightarrow> world \<Rightarrow> outcome \<times> SyncConnection \<times> world" where
  "sync_recv sc rpath lpath w =
     (case sync_stat sc rpath (emit (Print rpath) w) of
        (None, w1) \<Rightarrow> (Returns False, sc, w1)
      | (Some (timestamp, mode, size'), w1) \<Rightarrow>
          (case SendRequest ID_RECV rpath w1 of
             (False, w2) \<Rightarrow> (Returns False, sc, w2)
           | (True, w2) \<Rightarrow>
               (case adb_creat lpath (mkdirs lpath (adb_unlink lpath w2)) of
                  (lfd, w3) \<Rightarrow>
                    if lfd < 0
                    then (Returns False, sc, emit (Error ''cannot create '%s': %s'') w3)
                    else sync_recv_loop sc rpath lpath lfd size' 0 w3)))"

subsection \<open>Push: \<open>SendLargeFile\<close> and \<open>sync_send\<close>\<close>

text \<open>
  The read loop of \<open>SendLargeFile\<close>; \<open>f\<close> is the file behind \<open>lfd\<close> and \<open>off\<close>
  its read offset. \<open>Returns True\<close> is the \<open>break\<close> at end of file.
\<close>

lemma adb_read_nonempty:
  "adb_read f off n = Some chunk \<Longrightarrow> chunk \<noteq> [] \<Longrightarrow> off + length chunk \<le> length (contents f)"
  by (auto simp: adb_read_def split: option.splits if_splits)

lemma adb_read_decreases:
  assumes "adb_read f off n = Some chunk" and "chunk \<noteq> []"
  shows "length (contents f) - (off + length chunk) < length (contents f) - off"
proof -
  have "off + length chunk \<le> length (contents f)"
    using assms by (rule adb_read_nonempty)
  moreover have "0 < length chunk"
    using assms(2) by simp
  ultimately show ?thesis by arith
qed

function SendLargeFile_loop ::
  "SyncConnection \<Rightarrow> string \<Rightarrow> string \<Rightarrow> int \<Rightarrow> lfile \<Rightarrow> nat \<Rightarrow> u64 \<Rightarrow> u64 \<Rightarrow> world
    \<Rightarrow> outcome \<times> SyncConnection \<times> world" where
  "SendLargeFile_loop sc lpath rpath lfd f off total_size bytes_copied w =
     (case adb_read f off (max_chunk sc) of
        None \<Rightarrow> (Returns False, sc, adb_close lfd (emit (Error ''cannot read '%s': %s'') w))
      | Some chunk \<Rightarrow>
          if chunk = [] then (Returns True, sc, w)
          else
            case WriteFdExactly (le32 ID_DATA @ le32 (of_nat (length chunk)) @ chunk) w of
              (False, w1) \<Rightarrow> (Returns False, sc, adb_close lfd w1)
            | (True, w1) \<Rightarrow>
                if total_size = 0
                then (DivideByZero,
                      sc\<lparr>total_bytes := total_bytes sc + of_nat (length chunk)\<rparr>, w1)
                else
                  SendLargeFile_loop
                    (sc\<lparr>total_bytes := total_bytes sc + of_nat (length chunk)\<rparr>)
                    lpath rpath lfd f (off + length chunk) total_size
                    (bytes_copied + of_nat (length chunk))
                    (emit (Progress rpath
                             (percentage (bytes_copied + of_nat (length chunk)) total_size))
                       w1))"
  by pat_completeness auto
termination
  apply (relation "measure (\<lambda>(sc, lpath, rpath, lfd, f, off, total_size, bytes_copied, w).
                      length (contents f) - off)")
   apply simp
  apply (auto intro: adb_read_decreases)
  done

declare SendLargeFile_loop.simps [simp del]

definition SendLargeFile ::
  "SyncConnection \<Rightarrow> string \<Rightarrow> string \<Rightarrow> string \<Rightarrow> u32 \<Rightarrow> world
    \<Rightarrow> outcome \<times> SyncConnection \<times> world" where
  "SendLargeFile sc path_and_mode lpath rpath mtime w =
     (case SendRequest ID_SEND path_and_mode w of
        (False, w1) \<Rightarrow>
          (Returns False, sc, emit (Error ''failed to send ID_SEND message '%s': %s'') w1)
      | (True, w1) \<Rightarrow>
          (case files w1 lpath of
             None \<Rightarrow> (Returns False, sc, emit (Error ''cannot stat '%s': %s'') w1)
           | Some f \<Rightarrow>
               (case adb_open lpath w1 of
                  (lfd, w2) \<Rightarrow>
                    if lfd < 0
                    then (Returns False, sc, emit (Error ''cannot open '%s': %s'') w2)
                    else
                      (case SendLargeFile_loop sc lpath rpath lfd f 0 (st_size f) 0 w2 of
                         (Returns True, sc1, w3) \<Rightarrow>
                           (case WriteFdExactly (le32 ID_DONE @ le32 mtime) (adb_close lfd w3) of
                              (False, w4) \<Rightarrow>
                                (Returns False, sc1,
                                 emit (Error ''failed to send ID_DONE message for '%s': %s'') w4)
                            | (True, w4) \<Rightarrow> (Returns True, sc1, w4))
                       | (r, sc1, w3) \<Rightarrow> (r, sc1, w3)))))"

definition sync_send ::
  "SyncConnection \<Rightarrow> string \<Rightarrow> string \<Rightarrow> u32 \<Rightarrow> u32 \<Rightarrow> world
    \<Rightarrow> outcome \<times> SyncConnection \<times> world" where
  "sync_send sc lpath rpath mtime mode w =
     (let path_and_mode = rpath @ '','' @ dec_int (sint mode) in
      if S_ISLNK mode
      then
        (case symlinks w lpath of
           None \<Rightarrow> (Returns False, sc, emit (Error ''readlink '%s' failed: %s'') w)
         | Some target \<Rightarrow>
             (case SendSmallFile sc path_and_mode rpath
                     (take (PATH_MAX - 1) target @ [0]) mtime w of
                (False, sc1, w1) \<Rightarrow> (Returns False, sc1, w1)
              | (True, sc1, w1) \<Rightarrow>
                  (case CopyDone lpath rpath w1 of (ok, w2) \<Rightarrow> (Returns ok, sc1, w2))))
      else if \<not> S_ISREG mode
      then (Returns False, sc, emit (Error ''local file '%s' has unsupported mode: 0o%o'') w)
      else
        (case files w lpath of
           None \<Rightarrow> (Returns False, sc, emit (Error ''failed to stat local file '%s': %s'') w)
         | Some f \<Rightarrow>
             if sint (st_size f) < int SYNC_DATA_MAX
             then
               (case ReadFileToString f of
                  None \<Rightarrow> (Returns False, sc, emit (Error ''failed to read all of '%s': %s'') w)
                | Some data \<Rightarrow>
                    (case SendSmallFile sc path_and_mode rpath data mtime w of
                       (False, sc1, w1) \<Rightarrow> (Returns False, sc1, w1)
                     | (True, sc1, w1) \<Rightarrow>
                         (case CopyDone lpath rpath w1 of (ok, w2) \<Rightarrow> (Returns ok, sc1, w2))))
             else
               (case SendLargeFile sc path_and_mode lpath rpath mtime w of
                  (Returns True, sc1, w1) \<Rightarrow>
                    (case CopyDone lpath rpath w1 of (ok, w2) \<Rightarrow> (Returns ok, sc1, w2))
                | (r, sc1, w1) \<Rightarrow> (r, sc1, w1))))"

subsection \<open>\<open>do_sync_ls\<close>\<close>

text \<open>\<open>%08x\<close>; the second component of the result is what was printed to stdout.\<close>

definition hex8 :: "u32 \<Rightarrow> string" where
  "hex8 x = map (\<lambda>i. ''0123456789abcdef'' ! unat (drop_bit (4 * i) x AND 0xF)) [7, 6, 5, 4, 3, 2, 1, 0]"

definition do_sync_ls :: "string \<Rightarrow> world \<Rightarrow> bool \<times> string list \<times> world" where
  "do_sync_ls path w =
     (case SyncConnection_new w of
        (sc, w1) \<Rightarrow>
          if \<not> IsValid sc then (False, [], SyncConnection_delete sc w1)
          else
            (case sync_ls sc path
                    (\<lambda>mode size' time name out.
                        out @ [hex8 mode @ '' '' @ hex8 size' @ '' '' @ hex8 time @ '' '' @
                               map (\<lambda>b. char_of (unat b)) name @ [CHR 0x0A]])
                    [] w1 of
               (ok, out, w2) \<Rightarrow> (ok, out, SyncConnection_delete sc w2)))"

subsection \<open>The timestamp phase of \<open>copy_local_dir_remote\<close>\<close>

text \<open>
  The block under \<open>if (check_timestamps)\<close>: the first loop sends a STAT request per item
  of the file list, the second reads the replies and sets \<open>flag\<close> (skip) on the items;
  \<open>check_timestamp\<close> is the body of the second loop after its \<open>sync_finish_stat\<close>.
\<close>

record copyinfo =
  src :: string
  dst :: string
  time :: u32
  mode :: u32
  size' :: u64
  flag :: int

fun send_stat_requests :: "SyncConnection \<Rightarrow> copyinfo list \<Rightarrow> world \<Rightarrow> bool \<times> world" where
  "send_stat_requests sc [] w = (True, w)"
| "send_stat_requests sc (ci # filelist) w =
     (case SendRequest ID_STAT (dst ci) w of
        (False, w1) \<Rightarrow> (False, w1)
      | (True, w1) \<Rightarrow> send_stat_requests sc filelist w1)"

definition check_timestamp :: "copyinfo \<Rightarrow> u32 \<Rightarrow> u32 \<Rightarrow> u32 \<Rightarrow> copyinfo" where
  "check_timestamp ci timestamp rmode rsize =
     (if ucast rsize = size' ci
      then
        if (S_ISREG (mode ci AND rmode) \<and> timestamp = time ci) \<or>
           (S_ISLNK (mode ci AND rmode) \<and> timestamp \<ge> time ci)
        then ci\<lparr>flag := 1\<rparr>
        else ci
      else ci)"

fun finish_stats ::
  "SyncConnection \<Rightarrow> copyinfo list \<Rightarrow> world \<Rightarrow> bool \<times> copyinfo list \<times> world" where
  "finish_stats sc [] w = (True, [], w)"
| "finish_stats sc (ci # filelist) w =
     (case sync_finish_stat sc w of
        (None, w1) \<Rightarrow> (False, ci # filelist, w1)
      | (Some (timestamp, rmode, rsize), w1) \<Rightarrow>
          (case finish_stats sc filelist w1 of
             (ok, filelist', w2) \<Rightarrow> (ok, check_timestamp ci timestamp rmode rsize # filelist', w2)))"

definition check_timestamps_phase ::
  "SyncConnection \<Rightarrow> copyinfo list \<Rightarrow> world \<Rightarrow> bool \<times> copyinfo list \<times> world" where
  "check_timestamps_phase sc filelist w =
     (case send_stat_requests sc filelist w of
        (False, w1) \<Rightarrow> (False, filelist, w1)
      | (True, w1) \<Rightarrow> finish_stats sc filelist w1)"

subsection \<open>Frames and observations on traces\<close>

text \<open>The frames of the peer, as bytes.\<close>

definition stat_reply :: "u32 \<Rightarrow> u32 \<Rightarrow> u32 \<Rightarrow> byte list" where
  "stat_reply rmode rsize rtime = le32 ID_STAT @ le32 rmode @ le32 rsize @ le32 rtime"

definition data_frame :: "byte list \<Rightarrow> byte list" where
  "data_frame payload = le32 ID_DATA @ le32 (of_nat (length payload)) @ payload"

definition fail_frame :: "string \<Rightarrow> byte list" where
  "fail_frame msg = le32 ID_FAIL @ le32 (of_nat (length msg)) @ map of_char msg"

text \<open>
  \<open>closed_then_unlinked lfd lpath evs\<close>: somewhere in \<open>evs\<close> the descriptor \<open>lfd\<close> is
  closed and, as the very next event, \<open>lpath\<close> is unlinked.
\<close>

fun closed_then_unlinked :: "int \<Rightarrow> string \<Rightarrow> event list \<Rightarrow> bool" where
  "closed_then_unlinked lfd lpath (e1 # e2 # evs) =
     ((e1 = FileClose lfd \<and> e2 = FileUnlink lpath) \<or> closed_then_unlinked lfd lpath (e2 # evs))"
| "closed_then_unlinked lfd lpath evs = False"

fun is_creat :: "event \<Rightarrow> bool" where
  "is_creat (FileCreat p d) = True"
| "is_creat e = False"

text \<open>
  How a failed receive leaves the world: the destination is not on disk, its descriptor is
  closed, and the events since \<open>w\<close> close and unlink it and create no file.
\<close>

definition cleaned_up :: "int \<Rightarrow> string \<Rightarrow> world \<Rightarrow> world \<Rightarrow> bool" where
  "cleaned_up lfd lpath w w' =
     (files w' lpath = None \<and> lfd \<notin> fst ` set (open_fds w') \<and>
      (\<exists>evs. trace w' = trace w @ evs \<and> closed_then_unlinked lfd lpath evs \<and>
             \<not> list_ex is_creat evs))"

text \<open>
  The STAT request for a path; the \<open>n\<close>-th 16-byte block of the peer's bytes; what the
  second loop of the timestamp phase does to an item with the STAT reply in \<open>msg\<close>.
\<close>

definition stat_request :: "string \<Rightarrow> byte list" where
  "stat_request path = le32 ID_STAT @ le32 (of_nat (length path)) @ map of_char path"

definition stat_block :: "nat \<Rightarrow> byte list \<Rightarrow> byte list" where
  "stat_block n input = take 16 (drop (16 * n) input)"

definition apply_stat :: "copyinfo \<Rightarrow> byte list \<Rightarrow> copyinfo" where
  "apply_stat ci msg = check_timestamp ci (field 3 msg) (field 1 msg) (field 2 msg)"

fun is_sock_read :: "event \<Rightarrow> bool" where
  "is_sock_read (SockRead bs) = True"
| "is_sock_read (SockReadShort bs) = True"
| "is_sock_read e = False"

text \<open>
  A directory entry \<open>(mode, size, time, name)\<close>, its DENT frame, and the callback of
  \<open>sync_ls\<close> applied to it.
\<close>

type_synonym dent = "u32 \<times> u32 \<times> u32 \<times> byte list"

definition dent_frame :: "dent \<Rightarrow> byte list" where
  "dent_frame e = (case e of (dmode, dsize, dtime, name) \<Rightarrow>
     le32 ID_DENT @ le32 dmode @ le32 dsize @ le32 dtime @ le32 (of_nat (length name)) @ name)"

definition deliver :: "(u32 \<Rightarrow> u32 \<Rightarrow> u32 \<Rightarrow> byte list \<Rightarrow> 'a \<Rightarrow> 'a) \<Rightarrow> dent \<Rightarrow> 'a \<Rightarrow> 'a" where
  "deliver func e acc = (case e of (dmode, dsize, dtime, name) \<Rightarrow> func dmode dsize dtime (c_str name) acc)"

definition name_of :: "dent \<Rightarrow> byte list" where
  "name_of e = snd (snd (snd e))"

text \<open>
  The DATA payload an event moved: the payload of a DATA frame written whole to the stream,
  the bytes of a chunk written whole to a local file.
\<close>

fun data_bytes :: "event \<Rightarrow> nat" where
  "data_bytes (SockWrite bs) = (if field 0 bs = ID_DATA then length bs - 8 else 0)"
| "data_bytes (FileWrite d bs) = length bs"
| "data_bytes e = 0"

definition moved :: "world \<Rightarrow> world \<Rightarrow> nat" where
  "moved w w' = sum_list (map data_bytes (new_events w w'))"

text \<open>
  \<open>then_CopyDone\<close>: the \<open>return sc.CopyDone(lpath, rpath)\<close> that ends \<open>sync_send\<close> when the
  body was sent. \<open>small_file_burst\<close> and \<open>send_request\<close>: the bytes of the single write of
  \<open>SendSmallFile\<close>, and of the SEND request that opens \<open>SendLargeFile\<close>.
\<close>

definition then_CopyDone ::
  "string \<Rightarrow> string \<Rightarrow> outcome \<times> SyncConnection \<times> world \<Rightarrow> outcome \<times> SyncConnection \<times> world" where
  "then_CopyDone lpath rpath r =
     (case r of
        (Returns True, sc1, w1) \<Rightarrow> (case CopyDone lpath rpath w1 of (ok, w2) \<Rightarrow> (Returns ok, sc1, w2))
      | (r', sc1, w1) \<Rightarrow> (r', sc1, w1))"

definition small_file_burst :: "string \<Rightarrow> byte list \<Rightarrow> u32 \<Rightarrow> byte list" where
  "small_file_burst path_and_mode data mtime =
     le32 ID_SEND @ le32 (of_nat (length path_and_mode)) @ map of_char path_and_mode @
     le32 ID_DATA @ le32 (of_nat (length data)) @ data @
     le32 ID_DONE @ le32 mtime"

definition send_request :: "string \<Rightarrow> byte list" where
  "send_request path_and_mode =
     le32 ID_SEND @ le32 (of_nat (length path_and_mode)) @ map of_char path_and_mode"

text \<open>
  What a successful \<open>SendLargeFile\<close> puts on the stream. \<open>chunks n bs\<close>: the bytes \<open>bs\<close> cut
  into pieces of \<open>n\<close> bytes, the last one shorter when \<open>n\<close> does not divide the length (no
  piece at all when \<open>n = 0\<close>). \<open>stream_events\<close>: for each chunk the write of its DATA frame,
  then the progress print with the percentage of the bytes copied so far. \<open>stream_room\<close>: the
  number of bytes of the DATA frames of the chunks.
\<close>

function chunks :: "nat \<Rightarrow> byte list \<Rightarrow> byte list list" where
  "chunks n bs = (if n = 0 \<or> bs = [] then [] else take n bs # chunks n (drop n bs))"
  by pat_completeness auto
termination
  by (relation "measure (\<lambda>(n, bs). length bs)") auto

declare chunks.simps [simp del]

fun stream_events :: "string \<Rightarrow> u64 \<Rightarrow> u64 \<Rightarrow> byte list list \<Rightarrow> event list" where
  "stream_events rpath total_size bytes_copied [] = []"
| "stream_events rpath total_size bytes_copied (c # cs) =
     SockWrite (data_frame c) #
     Progress rpath (percentage (bytes_copied + of_nat (length c)) total_size) #
     stream_events rpath total_size (bytes_copied + of_nat (length c)) cs"

definition stream_room :: "byte list list \<Rightarrow> nat" where
  "stream_room cs = sum_list (map (\<lambda>c. length (data_frame c)) cs)"

text \<open>
  \<open>grows sc w sc' w'\<close>: from \<open>(sc, w)\<close> to \<open>(sc', w')\<close> the trace was extended, and the byte
  counter by the payload the new events moved (modulo \<open>2 ^ 64\<close>).
\<close>

definition grows :: "SyncConnection \<Rightarrow> world \<Rightarrow> SyncConnection \<Rightarrow> world \<Rightarrow> bool" where
  "grows sc w sc' w' =
     (\<exists>evs. trace w' = trace w @ evs \<and>
            total_bytes sc' = total_bytes sc + of_nat (sum_list (map data_bytes evs)))"

subsection \<open>Concrete scenarios\<close>

text \<open>
  A world in which the peer delivers \<open>input\<close> and accepts a megabyte, the local disk is
  empty and accepts a megabyte, and the connection succeeds with descriptor 3.
\<close>

definition peer_sends :: "byte list \<Rightarrow> world" where
  "peer_sends input =
     \<lparr>sock_in = input, sock_room = 1000000, files = (\<lambda>p. None), symlinks = (\<lambda>p. None),
      creat_ok = (\<lambda>p. True), disk_room = 1000000, open_fds = [], next_fd = 4,
      connect_fd = 3, trace = []\<rparr>"

text \<open>A fresh, valid connection, as the constructor leaves it.\<close>

definition fresh_sc :: SyncConnection where
  "fresh_sc = \<lparr>total_bytes = 0, fd = 3, max_chunk = SYNC_DATA_MAX\<rparr>"

text \<open>
  A pull whose first frame is a DATA header announcing 65537 bytes; and the world in which
  \<open>sync_recv\<close> enters its receive loop: after the STAT exchange, the RECV request and the
  creation of the destination.
\<close>

definition oversized_input :: "byte list" where
  "oversized_input = stat_reply 0x81A4 70000 5 @ le32 ID_DATA @ le32 65537 @ [1, 2, 3]"

definition before_frames :: "string \<Rightarrow> string \<Rightarrow> world \<Rightarrow> world" where
  "before_frames rpath lpath w =
     snd (adb_creat lpath (mkdirs lpath (adb_unlink lpath
       (snd (SendRequest ID_RECV rpath
          (snd (sync_stat fresh_sc rpath (emit (Print rpath) w))))))))"

text \<open>Scenario 5 of the spec: a DATA frame, then FAIL "disk full".\<close>

definition pull_fail_input :: "byte list" where
  "pull_fail_input = stat_reply 0x81A4 3 5 @ data_frame [1, 2, 3] @ fail_frame ''disk full''"

text \<open>
  A remote file whose STAT reply gives size 0 and whose content is one byte (as the files
  of procfs answer), then DONE.
\<close>

definition zero_size_input :: "byte list" where
  "zero_size_input = stat_reply 0x8124 0 0 @ data_frame [76] @ le32 ID_DONE @ le32 0"

text \<open>A LIST answered by a frame that is neither DENT nor DONE.\<close>

definition list_fail_input :: "byte list" where
  "list_fail_input = le32 ID_FAIL @ le32 0 @ le32 0 @ le32 0 @ le32 0"

text \<open>A world with the three-byte local file \<open>/l/a\<close>.\<close>

definition push_world :: "byte list \<Rightarrow> world" where
  "push_world input =
     (peer_sends input)\<lparr>files := (\<lambda>p. if p = ''/l/a''
        then Some \<lparr>st_size = 3, contents = [1, 2, 3], readable = True, read_fail = None\<rparr>
        else None)\<rparr>"

text \<open>
  Scenario 6 of the spec: the local files \<open>a\<close> and \<open>b\<close> (size 10, mtime 5); the remote
  answers size 10, mtime 5 for \<open>a\<close> and size 11, mtime 5 for \<open>b\<close>. And a local symlink.
\<close>

definition file_a :: copyinfo where
  "file_a = \<lparr>src = ''/l/a'', dst = ''/r/a'', time = 5, mode = 0x81A4, size' = 10, flag = 0\<rparr>"

definition file_b :: copyinfo where
  "file_b = \<lparr>src = ''/l/b'', dst = ''/r/b'', time = 5, mode = 0x81A4, size' = 10, flag = 0\<rparr>"

definition link_l :: copyinfo where
  "link_l = \<lparr>src = ''/l/l'', dst = ''/r/l'', time = 300, mode = 0xA1FF, size' = 9, flag = 0\<rparr>"

definition sync_replies :: "byte list" where
  "sync_replies = stat_reply 0x81A4 10 5 @ stat_reply 0x81A4 11 5"

text \<open>
  Scenario 2 of the spec: three directory entries, then DONE; and a callback that collects
  the entries it is given.
\<close>

definition ls_entries :: "dent list" where
  "ls_entries = [(0x41ED, 0, 100, map of_char ''a''),
                 (0x81A4, 7, 200, map of_char ''b.txt''),
                 (0xA1FF, 9, 300, map of_char ''l'')]"

definition done20 :: "byte list" where
  "done20 = le32 ID_DONE @ le32 0 @ le32 0 @ le32 0 @ le32 0"

definition collect :: "u32 \<Rightarrow> u32 \<Rightarrow> u32 \<Rightarrow> byte list \<Rightarrow> dent list \<Rightarrow> dent list" where
  "collect dmode dsize dtime name acc = acc @ [(dmode, dsize, dtime, name)]"

text \<open>A pull that succeeds: three bytes in one DATA frame, then DONE.\<close>

definition pull_ok_input :: "byte list" where
  "pull_ok_input = stat_reply 0x81A4 3 5 @ data_frame [1, 2, 3] @ le32 ID_DONE @ le32 0"

text \<open>
  Pulls that fail in the first round of the receive loop: the stream ends three bytes into
  the header; the first frame is FAIL "gone"; the DATA frame announces three bytes and two
  arrive. And a world whose local disk accepts two bytes only.
\<close>

definition short_header_input :: "byte list" where
  "short_header_input = stat_reply 0x81A4 3 5 @ [1, 2, 3]"

definition fail_first_input :: "byte list" where
  "fail_first_input = stat_reply 0x81A4 3 5 @ fail_frame ''gone''"

definition short_payload_input :: "byte list" where
  "short_payload_input = stat_reply 0x81A4 3 5 @ le32 ID_DATA @ le32 3 @ [1, 2]"

definition full_disk :: "byte list \<Rightarrow> world" where
  "full_disk input = (peer_sends input)\<lparr>disk_room := 2\<rparr>"

text \<open>
  A world whose local file \<open>/l/big\<close> has \<open>n\<close> bytes; the peer answers OKAY.
\<close>

definition boundary_world :: "nat \<Rightarrow> world" where
  "boundary_world n =
     (peer_sends (le32 ID_OKAY @ le32 0))\<lparr>files := (\<lambda>p. if p = ''/l/big''
        then Some \<lparr>st_size = of_nat n, contents = replicate n 7, readable = True, read_fail = None\<rparr>
        else None)\<rparr>"

section \<open>Properties\<close>

subsection \<open>Helper facts\<close>

lemma rd32_le32 [simp]: "rd32 (le32 x) = x"
proof -
  have "ucast (ucast x :: byte) OR push_bit 8 (ucast (ucast (drop_bit 8 x) :: byte))
        OR push_bit 16 (ucast (ucast (drop_bit 16 x) :: byte))
        OR push_bit 24 (ucast (ucast (drop_bit 24 x) :: byte)) = x"
  proof (rule bit_word_eqI)
    fix n :: nat
    assume n: "n < LENGTH(32)"
    have "n < 8 \<or> (8 \<le> n \<and> n < 16) \<or> (16 \<le> n \<and> n < 24) \<or> (24 \<le> n \<and> n < 32)"
      using n by auto
    then show "bit (ucast (ucast x :: byte) OR push_bit 8 (ucast (ucast (drop_bit 8 x) :: byte))
        OR push_bit 16 (ucast (ucast (drop_bit 16 x) :: byte))
        OR push_bit 24 (ucast (ucast (drop_bit 24 x) :: byte)) :: u32) n = bit x n"
      by (auto simp: bit_simps)
  qed
  then show ?thesis by (simp add: rd32_def le32_def)
qed

lemma length_le32 [simp]: "length (le32 x) = 4"
  by (simp add: le32_def)

lemma field_simps [simp]:
  "field 0 (le32 a @ rest) = a"
  "field 1 (le32 a @ le32 b @ rest) = b"
  "field (Suc 0) (le32 a @ le32 b @ rest) = b"
  "field 2 (le32 a @ le32 b @ le32 c @ rest) = c"
  "field 3 (le32 a @ le32 b @ le32 c @ le32 d @ rest) = d"
  "field 4 (le32 a @ le32 b @ le32 c @ le32 d @ le32 e @ rest) = e"
  by (simp_all add: field_def)

lemma field_simps_end [simp]:
  "field 0 (le32 a) = a"
  "field 1 (le32 a @ le32 b) = b"
  "field (Suc 0) (le32 a @ le32 b) = b"
  "field 2 (le32 a @ le32 b @ le32 c) = c"
  "field 3 (le32 a @ le32 b @ le32 c @ le32 d) = d"
  "field 4 (le32 a @ le32 b @ le32 c @ le32 d @ le32 e) = e"
  by (simp_all add: field_def)

text \<open>The definitions a concrete run unfolds.\<close>

lemmas run_defs = sync_recv_def sync_stat_def sync_finish_stat_def SendRequest_def
  WriteFdExactly_def ReadFdExactly_def WriteFdExactly_lfd_def ReportCopyFailure_def
  adb_creat_def adb_unlink_def adb_close_def mkdirs_def emit_def new_events_def
  peer_sends_def fresh_sc_def stat_reply_def data_frame_def fail_frame_def
  le32_def field_def rd32_def append_file_def percentage_def c_str_def
  ID_STAT_def ID_RECV_def ID_DATA_def ID_DONE_def ID_FAIL_def SYNC_DATA_MAX_def

lemma closed_then_unlinked_here [simp]:
  "closed_then_unlinked lfd lpath (FileClose lfd # FileUnlink lpath # post)"
  by simp

lemma closed_then_unlinked_append:
  "closed_then_unlinked lfd lpath evs \<Longrightarrow> closed_then_unlinked lfd lpath (pre @ evs)"
proof (induction pre)
  case Nil
  then show ?case by simp
next
  case (Cons e pre)
  then show ?case by (cases "pre @ evs") auto
qed

lemma cleanup_files [simp]: "files (adb_unlink lpath w) lpath = None"
  by (simp add: adb_unlink_def)

lemma cleanup_fds [simp]: "open_fds (adb_unlink lpath w) = open_fds w"
  by (simp add: adb_unlink_def)

lemma close_fds [simp]: "lfd \<notin> fst ` set (open_fds (adb_close lfd w))"
  by (auto simp: adb_close_def)

lemma trace_unlink [simp]: "trace (adb_unlink lpath w) = trace w @ [FileUnlink lpath]"
  by (simp add: adb_unlink_def)

lemma trace_close [simp]: "trace (adb_close lfd w) = trace w @ [FileClose lfd]"
  by (simp add: adb_close_def)

lemma sock_in_unlink_close [simp]:
  "sock_in (adb_unlink lpath w) = sock_in w"
  "sock_in (adb_close lfd w) = sock_in w"
  by (simp_all add: adb_unlink_def adb_close_def)

lemma ReadFdExactly_frame:
  assumes "ReadFdExactly n w = (r, w1)"
  shows "files w1 = files w" and "open_fds w1 = open_fds w"
    and "\<exists>e. trace w1 = trace w @ [e] \<and> \<not> is_creat e"
  using assms by (auto simp: ReadFdExactly_def split: if_splits)

lemma WriteFdExactly_lfd_trace:
  "WriteFdExactly_lfd lfd buf w = (r, w1) \<Longrightarrow> \<exists>e. trace w1 = trace w @ [e] \<and> \<not> is_creat e"
  by (auto simp: WriteFdExactly_lfd_def split: option.splits if_splits)

text \<open>At \<open>msglen = 0xFFFFFFFF\<close> the report takes nothing from the stream.\<close>

lemma ReportCopyFailure_empty_buffer:
  "ReportCopyFailure from to 0xFFFFFFFF w =
     (False, emit (Error ''failed to copy '%s' to '%s'; failed to read reason (!): %s'')
               (emit (SockReadShort []) w))"
  "sock_in (snd (ReportCopyFailure from to 0xFFFFFFFF w)) = sock_in w"
  by (simp_all add: ReportCopyFailure_def)

lemma ReportCopyFailure_frame:
  "files (snd (ReportCopyFailure a b n w)) = files w"
  "open_fds (snd (ReportCopyFailure a b n w)) = open_fds w"
  "\<exists>evs. trace (snd (ReportCopyFailure a b n w)) = trace w @ evs \<and> \<not> list_ex is_creat evs"
  by (auto simp: ReportCopyFailure_def ReadFdExactly_def split: if_splits)

lemma cleaned_up_now:
  "cleaned_up lfd lpath w (adb_unlink lpath (adb_close lfd w))"
  by (simp add: cleaned_up_def)

lemma cleaned_up_later:
  assumes "cleaned_up lfd lpath w1 w'" and "trace w1 = trace w @ evs" and "\<not> list_ex is_creat evs"
  shows "cleaned_up lfd lpath w w'"
  using assms by (auto simp: cleaned_up_def intro: closed_then_unlinked_append)

lemma cleaned_up_report:
  "cleaned_up lfd lpath w (snd (ReportCopyFailure a b n (adb_unlink lpath (adb_close lfd w))))"
proof -
  obtain evs where "trace (snd (ReportCopyFailure a b n (adb_unlink lpath (adb_close lfd w))))
      = trace (adb_unlink lpath (adb_close lfd w)) @ evs" and "\<not> list_ex is_creat evs"
    using ReportCopyFailure_frame(3) by blast
  then have "trace (snd (ReportCopyFailure a b n (adb_unlink lpath (adb_close lfd w))))
      = trace w @ (FileClose lfd # FileUnlink lpath # evs) \<and> \<not> list_ex is_creat evs"
    by simp
  then show ?thesis
    unfolding cleaned_up_def
    by (simp add: ReportCopyFailure_frame del: closed_then_unlinked.simps)
qed

lemma sync_recv_loop_cleanup:
  "sync_recv_loop sc rpath lpath lfd rsize bc w = (Returns False, sc', w')
     \<Longrightarrow> cleaned_up lfd lpath w w'"
proof (induction sc rpath lpath lfd rsize bc w arbitrary: sc' w' rule: sync_recv_loop.induct)
  case (1 sc rpath lpath lfd rsize bc w)
  obtain r w1 where rd: "ReadFdExactly 8 w = (r, w1)"
    by (cases "ReadFdExactly 8 w")
  from ReadFdExactly_frame(3) [OF rd] obtain e1 where t1: "trace w1 = trace w @ [e1]" "\<not> is_creat e1" by blast
  show ?case
  proof (cases r)
    case None
    with rd "1.prems" have "w' = adb_unlink lpath (adb_close lfd w1)"
      by (subst (asm) sync_recv_loop.simps) simp
    then show ?thesis
      using cleaned_up_later [OF cleaned_up_now t1(1)] t1 by simp
  next
    case (Some msg)
    note hdr = rd [unfolded Some]
    show ?thesis
    proof (cases "field 0 msg = ID_DONE")
      case True
      with hdr "1.prems" show ?thesis
        by (subst (asm) sync_recv_loop.simps) simp
    next
      case notdone: False
      show ?thesis
      proof (cases "field 0 msg \<noteq> ID_DATA")
        case True
        with hdr notdone "1.prems"
        have "w' = snd (ReportCopyFailure rpath lpath (field 1 msg)
                       (adb_unlink lpath (adb_close lfd w1)))"
          by (subst (asm) sync_recv_loop.simps) simp
        then show ?thesis
          using cleaned_up_later [OF cleaned_up_report t1(1)] t1 by simp
      next
        case False
        then have isdata: "field 0 msg = ID_DATA" by simp
        show ?thesis
        proof (cases "unat (field 1 msg) > max_chunk sc")
          case True
          with hdr notdone isdata "1.prems"
          have "w' = adb_unlink lpath (adb_close lfd
                  (emit (Error ''msg.data.size too large: %u (max %zu)'') w1))"
            by (subst (asm) sync_recv_loop.simps) simp
          then show ?thesis
            using cleaned_up_later [OF cleaned_up_now, of _ w "[e1, Error ''msg.data.size too large: %u (max %zu)'']"] t1
            by simp
        next
          case small: False
          obtain r2 w2 where rd2: "ReadFdExactly (unat (field 1 msg)) w1 = (r2, w2)"
            by (cases "ReadFdExactly (unat (field 1 msg)) w1")
          from ReadFdExactly_frame(3) [OF rd2] obtain e2 where t2: "trace w2 = trace w1 @ [e2]" "\<not> is_creat e2" by blast
          show ?thesis
          proof (cases r2)
            case None
            with hdr notdone isdata small rd2 "1.prems"
            have "w' = adb_unlink lpath (adb_close lfd w2)"
              by (subst (asm) sync_recv_loop.simps) simp
            then show ?thesis
              using cleaned_up_later [OF cleaned_up_now, of _ w "[e1, e2]"] t1 t2 by simp
          next
            case (Some buffer)
            note pay = rd2 [unfolded Some]
            obtain ok w3 where wr: "WriteFdExactly_lfd lfd buffer w2 = (ok, w3)"
              by (cases "WriteFdExactly_lfd lfd buffer w2")
            from WriteFdExactly_lfd_trace [OF wr] obtain e3 where t3: "trace w3 = trace w2 @ [e3]" "\<not> is_creat e3" by blast
            show ?thesis
            proof (cases ok)
              case False
              with hdr notdone isdata small pay wr "1.prems"
              have "w' = adb_unlink lpath (adb_close lfd (emit (Error ''cannot write '%s': %s'') w3))"
                by (subst (asm) sync_recv_loop.simps) simp
              then show ?thesis
                using cleaned_up_later [OF cleaned_up_now, of _ w "[e1, e2, e3, Error ''cannot write '%s': %s'']"] t1 t2 t3
                by simp
            next
              case True
              have wrT: "WriteFdExactly_lfd lfd buffer w2 = (True, w3)"
                using wr True by simp
              show ?thesis
              proof (cases "rsize = 0")
                case True
                with hdr notdone isdata small pay wrT "1.prems" show ?thesis
                  by (subst (asm) sync_recv_loop.simps) simp
              next
                case False
                let ?sc = "sc\<lparr>total_bytes := total_bytes sc + ucast (field 1 msg)\<rparr>"
                let ?w = "emit (Progress rpath (percentage (bc + ucast (field 1 msg)) (ucast rsize))) w3"
                from hdr notdone isdata small pay wrT False "1.prems"
                have rec: "sync_recv_loop ?sc rpath lpath lfd rsize (bc + ucast (field 1 msg)) ?w
                             = (Returns False, sc', w')"
                  by (subst (asm) sync_recv_loop.simps) simp
                have "cleaned_up lfd lpath ?w w'"
                  using "1.IH" [OF hdr [symmetric] refl notdone _ _ pay [symmetric] refl wrT [symmetric] _ False rec]
                    isdata small by simp
                then show ?thesis
                  using cleaned_up_later [of lfd lpath ?w w' w] t1 t2 t3 by simp
              qed
            qed
          qed
        qed
      qed
    qed
  qed
qed

lemma SendRequest_frame:
  assumes "SendRequest i p w = (r, w1)"
  shows "files w1 = files w" and "open_fds w1 = open_fds w" and "next_fd w1 = next_fd w"
    and "creat_ok w1 = creat_ok w"
    and "\<exists>e. trace w1 = trace w @ [e] \<and> \<not> is_creat e"
  using assms
  by (auto simp: SendRequest_def WriteFdExactly_def Let_def split: if_splits)

lemma sync_finish_stat_frame:
  assumes "sync_finish_stat sc w = (r, w1)"
  shows "\<exists>e. trace w1 = trace w @ [e] \<and> \<not> is_creat e"
  using assms
  by (auto simp: sync_finish_stat_def ReadFdExactly_def split: if_splits)

lemma sync_stat_frame:
  assumes "sync_stat sc p w = (r, w1)"
  shows "\<exists>evs. trace w1 = trace w @ evs \<and> \<not> list_ex is_creat evs"
proof -
  obtain ok w0 where sr: "SendRequest ID_STAT p w = (ok, w0)"
    by (cases "SendRequest ID_STAT p w")
  from SendRequest_frame(5) [OF sr] obtain e where e: "trace w0 = trace w @ [e]" "\<not> is_creat e"
    by blast
  show ?thesis
  proof (cases ok)
    case False
    with sr assms have "w1 = w0" by (simp add: sync_stat_def)
    with e show ?thesis by (intro exI [of _ "[e]"]) simp
  next
    case True
    with sr assms have fs: "sync_finish_stat sc w0 = (r, w1)" by (simp add: sync_stat_def)
    from sync_finish_stat_frame [OF fs] obtain e' where "trace w1 = trace w0 @ [e']" "\<not> is_creat e'"
      by blast
    with e show ?thesis by (intro exI [of _ "[e, e']"]) simp
  qed
qed

lemmas run_defs2 = do_sync_ls_def SyncConnection_new_def SyncConnection_delete_def IsValid_def
  SendQuit_def ReadOrderlyShutdown_def sync_ls_def sync_send_def SendSmallFile_def CopyDone_def
  ReadFileToString_def S_ISREG_def S_ISLNK_def S_IFMT_def S_IFREG_def S_IFLNK_def
  ID_LIST_def ID_DENT_def ID_QUIT_def ID_SEND_def ID_OKAY_def dec_int_def

lemmas phase_defs = check_timestamps_phase_def check_timestamp_def stat_block_def apply_stat_def
  stat_request_def file_a_def file_b_def link_l_def sync_replies_def
  S_ISREG_def S_ISLNK_def S_IFMT_def S_IFREG_def S_IFLNK_def

lemma send_stat_requests_True:
  "send_stat_requests sc filelist w = (True, w1) \<Longrightarrow>
     sock_in w1 = sock_in w \<and>
     trace w1 = trace w @ map (\<lambda>ci. SockWrite (stat_request (dst ci))) filelist"
proof (induction filelist arbitrary: w)
  case Nil
  then show ?case by simp
next
  case (Cons ci filelist)
  obtain ok w0 where sr: "SendRequest ID_STAT (dst ci) w = (ok, w0)"
    by (cases "SendRequest ID_STAT (dst ci) w")
  with Cons.prems have ok: "ok" and rest: "send_stat_requests sc filelist w0 = (True, w1)"
    by (auto split: bool.splits)
  from sr ok have "sock_in w0 = sock_in w"
    and "trace w0 = trace w @ [SockWrite (stat_request (dst ci))]"
    by (auto simp: SendRequest_def WriteFdExactly_def Let_def stat_request_def split: if_splits)
  with Cons.IH [OF rest] show ?case by simp
qed

lemma send_stat_requests_any:
  "send_stat_requests sc filelist w = (ok, w1) \<Longrightarrow>
     sock_in w1 = sock_in w \<and>
     (\<exists>evs. trace w1 = trace w @ evs \<and> \<not> list_ex is_sock_read evs)"
proof (induction filelist arbitrary: w)
  case Nil
  then show ?case by simp
next
  case (Cons ci filelist)
  obtain ok0 w0 where sr: "SendRequest ID_STAT (dst ci) w = (ok0, w0)"
    by (cases "SendRequest ID_STAT (dst ci) w")
  from sr obtain e where e: "sock_in w0 = sock_in w" "trace w0 = trace w @ [e]" "\<not> is_sock_read e"
    by (auto simp: SendRequest_def WriteFdExactly_def Let_def split: if_splits)
  show ?case
  proof (cases ok0)
    case False
    with sr Cons.prems have "w1 = w0" by simp
    with e show ?thesis by (intro conjI exI [of _ "[e]"]) simp_all
  next
    case True
    with sr Cons.prems have "send_stat_requests sc filelist w0 = (ok, w1)" by simp
    from Cons.IH [OF this] obtain evs where
      "sock_in w1 = sock_in w0" "trace w1 = trace w0 @ evs" "\<not> list_ex is_sock_read evs"
      by blast
    with e show ?thesis by (intro conjI exI [of _ "e # evs"]) simp_all
  qed
qed

lemma sync_finish_stat_Some:
  "sync_finish_stat sc w = (Some (timestamp, rmode, rsize), w1) \<Longrightarrow>
     16 \<le> length (sock_in w) \<and> sock_in w1 = drop 16 (sock_in w) \<and>
     trace w1 = trace w @ [SockRead (take 16 (sock_in w))] \<and>
     timestamp = field 3 (take 16 (sock_in w)) \<and> rmode = field 1 (take 16 (sock_in w)) \<and>
     rsize = field 2 (take 16 (sock_in w))"
  by (auto simp: sync_finish_stat_def ReadFdExactly_def split: if_splits)

lemma sync_finish_stat_reads:
  "sync_finish_stat sc w = (r, w1) \<Longrightarrow> \<exists>e. trace w1 = trace w @ [e] \<and> is_sock_read e"
  by (auto simp: sync_finish_stat_def ReadFdExactly_def split: if_splits)

lemma finish_stats_reads:
  "finish_stats sc filelist w = (ok, filelist', w') \<Longrightarrow>
     \<exists>evs. trace w' = trace w @ evs \<and> list_all is_sock_read evs"
proof (induction filelist arbitrary: w ok filelist' w')
  case Nil
  then show ?case by simp
next
  case (Cons ci filelist)
  obtain r w1 where fs: "sync_finish_stat sc w = (r, w1)"
    by (cases "sync_finish_stat sc w")
  from sync_finish_stat_reads [OF fs] obtain e where e: "trace w1 = trace w @ [e]" "is_sock_read e"
    by blast
  show ?case
  proof (cases r)
    case None
    with fs Cons.prems have "w' = w1" by simp
    with e show ?thesis by (intro exI [of _ "[e]"]) simp
  next
    case (Some reply)
    obtain ok2 fl2 w2 where rec: "finish_stats sc filelist w1 = (ok2, fl2, w2)"
      by (cases "finish_stats sc filelist w1")
    with fs Some Cons.prems have "w' = w2"
      by (auto split: prod.splits)
    moreover from Cons.IH [OF rec] obtain evs where "trace w2 = trace w1 @ evs" "list_all is_sock_read evs"
      by blast
    ultimately show ?thesis using e by (intro exI [of _ "e # evs"]) simp
  qed
qed

lemma stat_block_Suc: "stat_block (Suc n) input = stat_block n (drop 16 input)"
  by (simp add: stat_block_def add.commute)

lemma finish_stats_True:
  "finish_stats sc filelist w = (True, filelist', w') \<Longrightarrow>
     length filelist' = length filelist \<and>
     (\<forall>n < length filelist. filelist' ! n = apply_stat (filelist ! n) (stat_block n (sock_in w))) \<and>
     trace w' = trace w @ map (\<lambda>n. SockRead (stat_block n (sock_in w))) [0..<length filelist]"
proof (induction filelist arbitrary: w filelist' w')
  case Nil
  then show ?case by simp
next
  case (Cons ci filelist)
  obtain r w1 where fs: "sync_finish_stat sc w = (r, w1)"
    by (cases "sync_finish_stat sc w")
  with Cons.prems obtain timestamp rmode rsize where r: "r = Some (timestamp, rmode, rsize)"
    by (cases r) auto
  obtain ok2 fl2 w2 where rec: "finish_stats sc filelist w1 = (ok2, fl2, w2)"
    by (cases "finish_stats sc filelist w1")
  with fs r Cons.prems have res: "ok2" "filelist' = check_timestamp ci timestamp rmode rsize # fl2" "w' = w2"
    by auto
  from sync_finish_stat_Some [OF fs [unfolded r]]
  have st: "sock_in w1 = drop 16 (sock_in w)"
    "trace w1 = trace w @ [SockRead (take 16 (sock_in w))]"
    "check_timestamp ci timestamp rmode rsize = apply_stat ci (stat_block 0 (sock_in w))"
    by (simp_all add: apply_stat_def stat_block_def)
  from rec res(1) have "finish_stats sc filelist w1 = (True, fl2, w2)" by simp
  from Cons.IH [OF this]
  have ih: "length fl2 = length filelist"
    "\<forall>n < length filelist. fl2 ! n = apply_stat (filelist ! n) (stat_block n (sock_in w1))"
    "trace w2 = trace w1 @ map (\<lambda>n. SockRead (stat_block n (sock_in w1))) [0..<length filelist]"
    by simp_all
  have len: "length filelist' = length (ci # filelist)"
    using res ih by simp
  have nth: "\<forall>n < length (ci # filelist).
      filelist' ! n = apply_stat ((ci # filelist) ! n) (stat_block n (sock_in w))"
  proof (intro allI impI)
    fix n assume "n < length (ci # filelist)"
    then show "filelist' ! n = apply_stat ((ci # filelist) ! n) (stat_block n (sock_in w))"
      using res(2) st ih(2) by (cases n) (simp_all add: stat_block_Suc)
  qed
  have "map (\<lambda>n. SockRead (stat_block n (sock_in w))) [0..<length (ci # filelist)]
      = SockRead (stat_block 0 (sock_in w)) #
        map (\<lambda>n. SockRead (stat_block n (sock_in w1))) [0..<length filelist]"
    by (simp add: upt_conv_Cons map_Suc_upt [symmetric] stat_block_Suc st(1) del: upt_Suc)
  then have tr: "trace w' = trace w @ map (\<lambda>n. SockRead (stat_block n (sock_in w))) [0..<length (ci # filelist)]"
    using res(3) ih(3) st(2) by (simp add: stat_block_def)
  from len nth tr show ?case by blast
qed

lemma and_type_bits: "(a AND b) AND S_IFMT = (a AND S_IFMT) AND (b AND S_IFMT)" for a b :: u32
  by (simp add: and.assoc and.left_commute)

lemma both_regular: "S_ISREG a \<Longrightarrow> S_ISREG b \<Longrightarrow> S_ISREG (a AND b) \<and> \<not> S_ISLNK (a AND b)"
  by (simp add: S_ISREG_def S_ISLNK_def and_type_bits) (simp add: S_IFREG_def S_IFLNK_def)

lemma both_symlinks: "S_ISLNK a \<Longrightarrow> S_ISLNK b \<Longrightarrow> S_ISLNK (a AND b) \<and> \<not> S_ISREG (a AND b)"
  by (simp add: S_ISREG_def S_ISLNK_def and_type_bits) (simp add: S_IFREG_def S_IFLNK_def)

lemma unat_of_nat_small: "n \<le> 256 \<Longrightarrow> unat (of_nat n :: u32) = n"
  by (simp add: unat_of_nat)

lemma ids_distinct [simp]:
  "ID_DENT \<noteq> ID_DONE" "ID_DATA \<noteq> ID_DONE" "ID_SEND \<noteq> ID_DATA" "ID_DONE \<noteq> ID_DATA"
  "ID_STAT \<noteq> ID_DATA" "ID_RECV \<noteq> ID_DATA" "ID_QUIT \<noteq> ID_DATA" "ID_LIST \<noteq> ID_DATA"
  by (simp_all add: ID_DENT_def ID_DONE_def ID_DATA_def ID_SEND_def ID_STAT_def ID_RECV_def
        ID_QUIT_def ID_LIST_def)

lemma sync_ls_loop_dent:
  assumes "sock_in w = dent_frame e @ rest" and "length (name_of e) \<le> 256"
  shows "\<exists>w'. sync_ls_loop func acc w = sync_ls_loop func (deliver func e acc) w'
            \<and> sock_in w' = rest
            \<and> (\<exists>evs. trace w' = trace w @ evs)"
proof -
  obtain dmode dsize dtime name where e: "e = (dmode, dsize, dtime, name)"
    by (cases e)
  let ?hdr = "le32 ID_DENT @ le32 dmode @ le32 dsize @ le32 dtime @ le32 (of_nat (length name))"
  let ?w1 = "emit (SockRead ?hdr) (w\<lparr>sock_in := name @ rest\<rparr>)"
  let ?w2 = "emit (SockRead name) (?w1\<lparr>sock_in := rest\<rparr>)"
  have len: "unat (of_nat (length name) :: u32) = length name"
    using assms(2) by (simp add: e name_of_def unat_of_nat_small)
  have r1: "ReadFdExactly 20 w = (Some ?hdr, ?w1)"
    using assms(1) by (simp add: ReadFdExactly_def e dent_frame_def)
  have r2: "ReadFdExactly (length name) ?w1 = (Some name, ?w2)"
    by (simp add: ReadFdExactly_def)
  have "sync_ls_loop func acc w = sync_ls_loop func (deliver func e acc) ?w2"
    using assms(2)
    by (subst sync_ls_loop.simps) (simp add: r1 r2 len e deliver_def name_of_def)
  moreover have "sock_in ?w2 = rest" by simp
  moreover have "trace ?w2 = trace w @ [SockRead ?hdr, SockRead name]" by simp
  ultimately show ?thesis by blast
qed

lemma sync_ls_loop_dents:
  assumes "sock_in w = concat (map dent_frame es) @ tail"
      and "\<forall>e \<in> set es. length (name_of e) \<le> 256"
  shows "\<exists>w'. sync_ls_loop func acc w = sync_ls_loop func (fold (deliver func) es acc) w'
            \<and> sock_in w' = tail
            \<and> (\<exists>evs. trace w' = trace w @ evs)"
  using assms
proof (induction es arbitrary: w acc)
  case Nil
  then show ?case by (intro exI [of _ w]) simp
next
  case (Cons e es)
  from Cons.prems have "sock_in w = dent_frame e @ (concat (map dent_frame es) @ tail)"
    and "length (name_of e) \<le> 256"
    by simp_all
  from sync_ls_loop_dent [OF this, of func acc] obtain w1 evs1 where
    w1: "sync_ls_loop func acc w = sync_ls_loop func (deliver func e acc) w1"
      "sock_in w1 = concat (map dent_frame es) @ tail" "trace w1 = trace w @ evs1"
    by blast
  from Cons.prems have "\<forall>e \<in> set es. length (name_of e) \<le> 256" by simp
  from Cons.IH [OF w1(2) this, of "deliver func e acc"] obtain w' evs where
    "sync_ls_loop func (deliver func e acc) w1 = sync_ls_loop func (fold (deliver func) es (deliver func e acc)) w'"
    "sock_in w' = tail" "trace w' = trace w1 @ evs"
    by blast
  with w1 have "sync_ls_loop func acc w = sync_ls_loop func (fold (deliver func) (e # es) acc) w'
      \<and> sock_in w' = tail \<and> trace w' = trace w @ (evs1 @ evs)"
    by simp
  then show ?case by blast
qed

lemma sync_ls_loop_done:
  assumes "sock_in w = le32 ID_DONE @ pad @ rest" and "length pad = 16"
  shows "\<exists>w'. sync_ls_loop func acc w = (True, acc, w') \<and> sock_in w' = rest"
proof -
  have "ReadFdExactly 20 w = (Some (le32 ID_DONE @ pad),
          emit (SockRead (le32 ID_DONE @ pad)) (w\<lparr>sock_in := rest\<rparr>))"
    using assms by (simp add: ReadFdExactly_def)
  then have "sync_ls_loop func acc w =
      (True, acc, emit (SockRead (le32 ID_DONE @ pad)) (w\<lparr>sock_in := rest\<rparr>))"
    by (subst sync_ls_loop.simps) simp
  then show ?thesis by simp
qed

lemma sync_ls_loop_bad_id:
  assumes "sock_in w = le32 i @ pad @ rest" and "length pad = 16"
      and "i \<noteq> ID_DONE" and "i \<noteq> ID_DENT"
  shows "\<exists>w'. sync_ls_loop func acc w = (False, acc, w') \<and> sock_in w' = rest"
proof -
  have "ReadFdExactly 20 w = (Some (le32 i @ pad),
          emit (SockRead (le32 i @ pad)) (w\<lparr>sock_in := rest\<rparr>))"
    using assms by (simp add: ReadFdExactly_def)
  then have "sync_ls_loop func acc w =
      (False, acc, emit (SockRead (le32 i @ pad)) (w\<lparr>sock_in := rest\<rparr>))"
    using assms(3,4) by (subst sync_ls_loop.simps) simp
  then show ?thesis by simp
qed

lemma sync_ls_loop_long_name:
  assumes "sock_in w = le32 ID_DENT @ le32 dmode @ le32 dsize @ le32 dtime @ le32 namelen @ rest"
      and "unat namelen > 256"
  shows "\<exists>w'. sync_ls_loop func acc w = (False, acc, w') \<and> sock_in w' = rest"
proof -
  let ?hdr = "le32 ID_DENT @ le32 dmode @ le32 dsize @ le32 dtime @ le32 namelen"
  have "ReadFdExactly 20 w = (Some ?hdr, emit (SockRead ?hdr) (w\<lparr>sock_in := rest\<rparr>))"
    using assms by (simp add: ReadFdExactly_def)
  then have "sync_ls_loop func acc w = (False, acc, emit (SockRead ?hdr) (w\<lparr>sock_in := rest\<rparr>))"
    using assms(2) by (subst sync_ls_loop.simps) simp
  then show ?thesis by simp
qed

lemma sync_ls_loop_True:
  "sync_ls_loop func acc w = (True, acc', w') \<Longrightarrow>
     \<exists>pre blk. trace w' = trace w @ pre @ [SockRead blk] \<and> length blk = 20 \<and> field 0 blk = ID_DONE"
proof (induction func acc w rule: sync_ls_loop.induct)
  case (1 func acc w)
  obtain r w1 where rd: "ReadFdExactly 20 w = (r, w1)"
    by (cases "ReadFdExactly 20 w")
  show ?case
  proof (cases r)
    case None
    with rd "1.prems" show ?thesis
      by (subst (asm) sync_ls_loop.simps) simp
  next
    case (Some msg)
    with rd have hdr: "ReadFdExactly 20 w = (Some msg, w1)" by simp
    then have t1: "trace w1 = trace w @ [SockRead msg]" "length msg = 20"
      by (auto simp: ReadFdExactly_def split: if_splits)
    show ?thesis
    proof (cases "field 0 msg = ID_DONE")
      case True
      with hdr "1.prems" have "w' = w1"
        by (subst (asm) sync_ls_loop.simps) simp
      with t1 True have "trace w' = trace w @ [] @ [SockRead msg] \<and> length msg = 20 \<and> field 0 msg = ID_DONE"
        by simp
      then show ?thesis by blast
    next
      case notdone: False
      show ?thesis
      proof (cases "field 0 msg \<noteq> ID_DENT \<or> unat (field 4 msg) > 256")
        case True
        with hdr notdone "1.prems" show ?thesis
          by (subst (asm) sync_ls_loop.simps) (auto split: if_splits)
      next
        case False
        then have dent: "field 0 msg = ID_DENT" and short: "\<not> unat (field 4 msg) > 256"
          by simp_all
        obtain r2 w2 where rd2: "ReadFdExactly (unat (field 4 msg)) w1 = (r2, w2)"
          by (cases "ReadFdExactly (unat (field 4 msg)) w1")
        show ?thesis
        proof (cases r2)
          case None
          with hdr notdone dent short rd2 "1.prems" show ?thesis
            by (subst (asm) sync_ls_loop.simps) simp
        next
          case (Some buf)
          with rd2 have nm: "ReadFdExactly (unat (field 4 msg)) w1 = (Some buf, w2)" by simp
          then have t2: "trace w2 = trace w1 @ [SockRead buf]"
            by (auto simp: ReadFdExactly_def split: if_splits)
          let ?acc = "func (field 1 msg) (field 2 msg) (field 3 msg) (c_str buf) acc"
          from hdr notdone dent short nm "1.prems"
          have rec: "sync_ls_loop func ?acc w2 = (True, acc', w')"
            by (subst (asm) sync_ls_loop.simps) simp
          have "\<exists>pre blk. trace w' = trace w2 @ pre @ [SockRead blk] \<and> length blk = 20 \<and> field 0 blk = ID_DONE"
            using "1.IH" [OF hdr [symmetric] refl notdone _ _ nm [symmetric] refl rec] dent short
            by simp
          then obtain pre blk where
            "trace w' = trace w2 @ pre @ [SockRead blk]" "length blk = 20" "field 0 blk = ID_DONE"
            by blast
          with t1 t2 have "trace w' = trace w @ (SockRead msg # SockRead buf # pre) @ [SockRead blk]
              \<and> length blk = 20 \<and> field 0 blk = ID_DONE"
            by simp
          then show ?thesis by blast
        qed
      qed
    qed
  qed
qed

lemma grows_refl:
  assumes "trace w' = trace w @ evs" and "sum_list (map data_bytes evs) = 0"
  shows "grows sc w sc w'"
proof -
  have "total_bytes sc = total_bytes sc + of_nat (sum_list (map data_bytes evs))"
    by (simp only: assms(2)) simp
  with assms(1) show ?thesis
    unfolding grows_def by blast
qed

lemma grows_trans:
  "grows sc w sc1 w1 \<Longrightarrow> grows sc1 w1 sc' w' \<Longrightarrow> grows sc w sc' w'"
  by (auto simp: grows_def)

lemma grows_moved: "grows sc w sc' w' \<Longrightarrow> total_bytes sc' = total_bytes sc + of_nat (moved w w')"
  by (auto simp: grows_def moved_def new_events_def)

lemma SendLargeFile_loop_grows:
  "SendLargeFile_loop sc lpath rpath lfd f off total_size bc w = (r, sc', w') \<Longrightarrow>
     grows sc w sc' w' \<and> (total_size \<noteq> 0 \<longrightarrow> r \<noteq> DivideByZero)"
proof (induction sc lpath rpath lfd f off total_size bc w arbitrary: r sc' w'
        rule: SendLargeFile_loop.induct)
  case (1 sc lpath rpath lfd f off total_size bc w)
  show ?case
  proof (cases "adb_read f off (max_chunk sc)")
    case None
    with "1.prems" have "sc' = sc" "r = Returns False"
      "w' = adb_close lfd (emit (Error ''cannot read '%s': %s'') w)"
      by (subst (asm) SendLargeFile_loop.simps, simp)+
    then show ?thesis
      by (auto intro!: grows_refl [where evs = "[Error ''cannot read '%s': %s'', FileClose lfd]"]
          simp: adb_close_def)
  next
    case (Some chunk)
    show ?thesis
    proof (cases "chunk = []")
      case True
      with Some "1.prems" have "sc' = sc" "r = Returns True" "w' = w"
        by (subst (asm) SendLargeFile_loop.simps, simp)+
      then show ?thesis
        by (auto intro!: grows_refl [where evs = "[]"])
    next
      case ne: False
      let ?frame = "le32 ID_DATA @ le32 (of_nat (length chunk)) @ chunk"
      obtain ok w1 where wr: "WriteFdExactly ?frame w = (ok, w1)"
        by (cases "WriteFdExactly ?frame w")
      show ?thesis
      proof (cases ok)
        case False
        with wr have w1: "trace w1 = trace w @ [SockWriteShort (take (sock_room w) ?frame)]"
          by (auto simp: WriteFdExactly_def split: if_splits)
        from Some ne wr False "1.prems" have "sc' = sc" "r = Returns False" "w' = adb_close lfd w1"
          by (subst (asm) SendLargeFile_loop.simps, simp)+
        with w1 show ?thesis
          by (auto intro!: grows_refl [where evs = "[SockWriteShort (take (sock_room w) ?frame), FileClose lfd]"]
              simp: adb_close_def)
      next
        case True
        with wr have wrT: "WriteFdExactly ?frame w = (True, w1)" by simp
        then have w1: "trace w1 = trace w @ [SockWrite ?frame]"
          by (auto simp: WriteFdExactly_def split: if_splits)
        let ?sc = "sc\<lparr>total_bytes := total_bytes sc + of_nat (length chunk)\<rparr>"
        have step: "grows sc w ?sc w1"
          unfolding grows_def using w1 by (intro exI [of _ "[SockWrite ?frame]"]) simp
        show ?thesis
        proof (cases "total_size = 0")
          case True
          with Some ne wrT "1.prems" have "sc' = ?sc" "w' = w1"
            by (subst (asm) SendLargeFile_loop.simps, simp)+
          with step True show ?thesis by simp
        next
          case False
          let ?w = "emit (Progress rpath (percentage (bc + of_nat (length chunk)) total_size)) w1"
          from Some ne wrT False "1.prems"
          have rec: "SendLargeFile_loop ?sc lpath rpath lfd f (off + length chunk) total_size
                       (bc + of_nat (length chunk)) ?w = (r, sc', w')"
            by (subst (asm) SendLargeFile_loop.simps) simp
          have ih: "grows ?sc ?w sc' w' \<and> (total_size \<noteq> 0 \<longrightarrow> r \<noteq> DivideByZero)"
            using "1.IH" [OF Some ne wrT [symmetric] _ False rec] by simp
          have "grows ?sc w1 ?sc ?w"
            by (rule grows_refl [where evs = "[Progress rpath (percentage (bc + of_nat (length chunk)) total_size)]"]) simp_all
          with step ih show ?thesis
            by (blast intro: grows_trans)
        qed
      qed
    qed
  qed
qed

lemma ReadFdExactly_grows:
  assumes "ReadFdExactly n w = (r, w1)"
  shows "grows sc w sc w1"
proof -
  from assms have "\<exists>e. trace w1 = trace w @ [e] \<and> data_bytes e = 0"
    by (auto simp: ReadFdExactly_def split: if_splits)
  then obtain e where "trace w1 = trace w @ [e]" "data_bytes e = 0" by blast
  then show ?thesis
    by (intro grows_refl [where evs = "[e]"]) simp_all
qed

lemma ReportCopyFailure_grows:
  "grows sc w sc (snd (ReportCopyFailure a b n w))"
proof (cases "n + 1 = 0")
  case True
  then have "snd (ReportCopyFailure a b n w) =
      emit (Error ''failed to copy '%s' to '%s'; failed to read reason (!): %s'')
        (emit (SockReadShort []) w)"
    by (simp add: ReportCopyFailure_def)
  then show ?thesis
    by (intro grows_refl [where evs = "[SockReadShort [],
          Error ''failed to copy '%s' to '%s'; failed to read reason (!): %s'']"]) simp_all
next
  case False
  obtain r w1 where rd: "ReadFdExactly (unat n) w = (r, w1)"
    by (cases "ReadFdExactly (unat n) w")
  have g1: "grows sc w sc w1" using rd by (rule ReadFdExactly_grows)
  have "\<exists>e. snd (ReportCopyFailure a b n w) = emit (Error e) w1"
    using rd False by (cases r) (auto simp: ReportCopyFailure_def)
  then obtain e where "snd (ReportCopyFailure a b n w) = emit (Error e) w1" ..
  then have "grows sc w1 sc (snd (ReportCopyFailure a b n w))"
    by (intro grows_refl [where evs = "[Error e]"]) simp_all
  with g1 show ?thesis by (rule grows_trans)
qed

lemma cleanup_grows: "grows sc w sc (adb_unlink lpath (adb_close lfd w))"
  by (rule grows_refl [where evs = "[FileClose lfd, FileUnlink lpath]"])
     (simp_all add: adb_close_def adb_unlink_def)

lemma emit_grows: "data_bytes e = 0 \<Longrightarrow> grows sc w sc (emit e w)"
  by (rule grows_refl [where evs = "[e]"]) simp_all

lemma close_grows: "grows sc w sc (adb_close lfd w)"
  by (rule grows_refl [where evs = "[FileClose lfd]"]) (simp_all add: adb_close_def)

lemma WriteFdExactly_lfd_grows:
  assumes "WriteFdExactly_lfd lfd buf w = (ok, w1)"
  shows "grows sc w (if ok then sc\<lparr>total_bytes := total_bytes sc + of_nat (length buf)\<rparr> else sc) w1"
proof (cases ok)
  case True
  with assms have "trace w1 = trace w @ [FileWrite lfd buf]"
    by (auto simp: WriteFdExactly_lfd_def split: option.splits if_splits)
  with True show ?thesis
    unfolding grows_def by (intro exI [of _ "[FileWrite lfd buf]"]) simp
next
  case False
  with assms have "\<exists>bs. trace w1 = trace w @ [FileWriteShort lfd bs]"
    by (auto simp: WriteFdExactly_lfd_def split: option.splits if_splits)
  then obtain bs where "trace w1 = trace w @ [FileWriteShort lfd bs]" ..
  with False show ?thesis
    by (auto intro!: grows_refl [where evs = "[FileWriteShort lfd bs]"])
qed

lemma sync_recv_loop_grows:
  "sync_recv_loop sc rpath lpath lfd rsize bc w = (r, sc', w') \<Longrightarrow> grows sc w sc' w'"
proof (induction sc rpath lpath lfd rsize bc w arbitrary: r sc' w' rule: sync_recv_loop.induct)
  case (1 sc rpath lpath lfd rsize bc w)
  obtain r1 w1 where rd: "ReadFdExactly 8 w = (r1, w1)"
    by (cases "ReadFdExactly 8 w")
  have g1: "grows sc w sc w1" using rd by (rule ReadFdExactly_grows)
  show ?case
  proof (cases r1)
    case None
    with rd "1.prems" have "sc' = sc" "w' = adb_unlink lpath (adb_close lfd w1)"
      by (subst (asm) sync_recv_loop.simps, simp)+
    with g1 cleanup_grows show ?thesis by (blast intro: grows_trans)
  next
    case (Some msg)
    with rd have hdr: "ReadFdExactly 8 w = (Some msg, w1)" by simp
    show ?thesis
    proof (cases "field 0 msg = ID_DONE")
      case True
      with hdr "1.prems" have "sc' = sc" "w' = adb_close lfd w1"
        by (subst (asm) sync_recv_loop.simps, simp)+
      with g1 close_grows show ?thesis by (blast intro: grows_trans)
    next
      case notdone: False
      show ?thesis
      proof (cases "field 0 msg \<noteq> ID_DATA")
        case True
        with hdr notdone "1.prems"
        have "sc' = sc" "w' = snd (ReportCopyFailure rpath lpath (field 1 msg)
                       (adb_unlink lpath (adb_close lfd w1)))"
          by (subst (asm) sync_recv_loop.simps, simp)+
        with g1 cleanup_grows ReportCopyFailure_grows show ?thesis
          by (blast intro: grows_trans)
      next
        case False
        then have isdata: "field 0 msg = ID_DATA" by simp
        show ?thesis
        proof (cases "unat (field 1 msg) > max_chunk sc")
          case True
          with hdr notdone isdata "1.prems"
          have "sc' = sc" "w' = adb_unlink lpath (adb_close lfd
                  (emit (Error ''msg.data.size too large: %u (max %zu)'') w1))"
            by (subst (asm) sync_recv_loop.simps, simp)+
          moreover have "grows sc w1 sc (emit (Error ''msg.data.size too large: %u (max %zu)'') w1)"
            by (rule emit_grows) simp
          ultimately show ?thesis using g1 cleanup_grows by (blast intro: grows_trans)
        next
          case small: False
          obtain r2 w2 where rd2: "ReadFdExactly (unat (field 1 msg)) w1 = (r2, w2)"
            by (cases "ReadFdExactly (unat (field 1 msg)) w1")
          have g2: "grows sc w1 sc w2" using rd2 by (rule ReadFdExactly_grows)
          show ?thesis
          proof (cases r2)
            case None
            with hdr notdone isdata small rd2 "1.prems"
            have "sc' = sc" "w' = adb_unlink lpath (adb_close lfd w2)"
              by (subst (asm) sync_recv_loop.simps, simp)+
            with g1 g2 cleanup_grows show ?thesis by (blast intro: grows_trans)
          next
            case (Some buffer)
            with rd2 have pay: "ReadFdExactly (unat (field 1 msg)) w1 = (Some buffer, w2)" by simp
            then have lenb: "length buffer = unat (field 1 msg)"
              by (auto simp: ReadFdExactly_def split: if_splits)
            obtain ok w3 where wr: "WriteFdExactly_lfd lfd buffer w2 = (ok, w3)"
              by (cases "WriteFdExactly_lfd lfd buffer w2")
            let ?sc = "sc\<lparr>total_bytes := total_bytes sc + ucast (field 1 msg)\<rparr>"
            have sceq: "?sc = sc\<lparr>total_bytes := total_bytes sc + of_nat (length buffer)\<rparr>"
              by (simp add: lenb)
            show ?thesis
            proof (cases ok)
              case False
              with hdr notdone isdata small pay wr "1.prems"
              have "sc' = sc" "w' = adb_unlink lpath (adb_close lfd (emit (Error ''cannot write '%s': %s'') w3))"
                by (subst (asm) sync_recv_loop.simps, simp)+
              moreover have "grows sc w2 sc w3"
                using WriteFdExactly_lfd_grows [OF wr, of sc] False by simp
              moreover have "grows sc w3 sc (emit (Error ''cannot write '%s': %s'') w3)"
                by (rule emit_grows) simp
              ultimately show ?thesis using g1 g2 cleanup_grows by (blast intro: grows_trans)
            next
              case True
              with wr have wrT: "WriteFdExactly_lfd lfd buffer w2 = (True, w3)" by simp
              have g3: "grows sc w2 ?sc w3"
                using WriteFdExactly_lfd_grows [OF wr, of sc] True sceq by simp
              show ?thesis
              proof (cases "rsize = 0")
                case True
                with hdr notdone isdata small pay wrT "1.prems" have "sc' = ?sc" "w' = w3"
                  by (subst (asm) sync_recv_loop.simps, simp)+
                with g1 g2 g3 show ?thesis by (blast intro: grows_trans)
              next
                case False
                let ?w = "emit (Progress rpath (percentage (bc + ucast (field 1 msg)) (ucast rsize))) w3"
                from hdr notdone isdata small pay wrT False "1.prems"
                have rec: "sync_recv_loop ?sc rpath lpath lfd rsize (bc + ucast (field 1 msg)) ?w
                             = (r, sc', w')"
                  by (subst (asm) sync_recv_loop.simps) simp
                have "grows ?sc ?w sc' w'"
                  using "1.IH" [OF hdr [symmetric] refl notdone _ _ pay [symmetric] refl wrT [symmetric] _ False rec]
                    isdata small by simp
                moreover have "grows ?sc w3 ?sc ?w"
                  by (rule emit_grows) simp
                ultimately show ?thesis using g1 g2 g3 by (blast intro: grows_trans)
              qed
            qed
          qed
        qed
      qed
    qed
  qed
qed


lemma WriteFdExactly_grows:
  assumes "WriteFdExactly bs w = (ok, w1)" and "field 0 bs \<noteq> ID_DATA"
  shows "grows sc w sc w1"
proof -
  from assms have "\<exists>e. trace w1 = trace w @ [e] \<and> data_bytes e = 0"
    by (auto simp: WriteFdExactly_def split: if_splits)
  then obtain e where "trace w1 = trace w @ [e]" "data_bytes e = 0" by blast
  then show ?thesis
    by (intro grows_refl [where evs = "[e]"]) simp_all
qed

lemma SendRequest_grows:
  assumes "SendRequest i p w = (ok, w1)" and "i \<noteq> ID_DATA"
  shows "grows sc w sc w1"
proof (cases "length p > 1024")
  case True
  with assms(1) have "w1 = emit (Error ''SendRequest failed: path too long: %zu'') w"
    by (simp add: SendRequest_def)
  then show ?thesis by (simp add: emit_grows)
next
  case False
  with assms(1) have "WriteFdExactly (le32 i @ le32 (of_nat (length p)) @ map of_char p) w = (ok, w1)"
    by (simp add: SendRequest_def)
  then show ?thesis
    by (rule WriteFdExactly_grows) (simp add: assms(2))
qed

lemma SendLargeFile_grows:
  assumes "SendLargeFile sc pm lpath rpath mtime w = (r, sc', w')"
  shows "grows sc w sc' w'"
proof -
  obtain ok w1 where sr: "SendRequest ID_SEND pm w = (ok, w1)"
    by (cases "SendRequest ID_SEND pm w")
  have g1: "grows sc w sc w1"
    using sr by (rule SendRequest_grows) simp
  show ?thesis
  proof (cases ok)
    case False
    with sr assms have "sc' = sc"
      "w' = emit (Error ''failed to send ID_SEND message '%s': %s'') w1"
      by (simp_all add: SendLargeFile_def)
    then show ?thesis
      using grows_trans [OF g1 emit_grows [of "Error ''failed to send ID_SEND message '%s': %s''" sc w1]]
      by simp
  next
    case True
    with sr have srT: "SendRequest ID_SEND pm w = (True, w1)" by simp
    show ?thesis
    proof (cases "files w1 lpath")
      case None
      with srT assms have "sc' = sc" "w' = emit (Error ''cannot stat '%s': %s'') w1"
        by (simp_all add: SendLargeFile_def)
      then show ?thesis
        using grows_trans [OF g1 emit_grows [of "Error ''cannot stat '%s': %s''" sc w1]]
        by simp
    next
      case (Some f)
      obtain lfd w2 where op: "adb_open lpath w1 = (lfd, w2)"
        by (cases "adb_open lpath w1")
      then have "\<exists>e. trace w2 = trace w1 @ [e] \<and> data_bytes e = 0"
        using Some by (auto simp: adb_open_def split: if_splits)
      then obtain e where "trace w2 = trace w1 @ [e]" "data_bytes e = 0" by blast
      then have g2: "grows sc w1 sc w2"
        by (intro grows_refl [where evs = "[e]"]) simp_all
      show ?thesis
      proof (cases "lfd < 0")
        case True
        with srT Some op assms have "sc' = sc" "w' = emit (Error ''cannot open '%s': %s'') w2"
          by (simp_all add: SendLargeFile_def)
        then show ?thesis
          using grows_trans [OF g1 grows_trans [OF g2 emit_grows [of "Error ''cannot open '%s': %s''" sc w2]]]
          by simp
      next
        case False
        obtain r3 sc3 w3 where lp: "SendLargeFile_loop sc lpath rpath lfd f 0 (st_size f) 0 w2 = (r3, sc3, w3)"
          by (cases "SendLargeFile_loop sc lpath rpath lfd f 0 (st_size f) 0 w2")
        from SendLargeFile_loop_grows [OF lp] have g3: "grows sc w2 sc3 w3" by simp
        show ?thesis
        proof (cases "r3 = Returns True")
          case notdone: False
          with srT Some op False lp assms have "sc' = sc3" "w' = w3"
            by (auto simp: SendLargeFile_def split: outcome.splits bool.splits)
          with g1 g2 g3 show ?thesis by (blast intro: grows_trans)
        next
          case True
          obtain ok4 w4 where wr: "WriteFdExactly (le32 ID_DONE @ le32 mtime) (adb_close lfd w3) = (ok4, w4)"
            by (cases "WriteFdExactly (le32 ID_DONE @ le32 mtime) (adb_close lfd w3)")
          have g4: "grows sc3 w3 sc3 w4"
            using grows_trans [OF close_grows WriteFdExactly_grows [OF wr]] by simp
          from srT Some op False lp True wr assms have "sc' = sc3 \<and>
            (w' = w4 \<or> w' = emit (Error ''failed to send ID_DONE message for '%s': %s'') w4)"
            by (auto simp: SendLargeFile_def split: bool.splits)
          moreover have "grows sc3 w4 sc3 (emit (Error ''failed to send ID_DONE message for '%s': %s'') w4)"
            by (rule emit_grows) simp
          ultimately show ?thesis using g1 g2 g3 g4 by (blast intro: grows_trans)
        qed
      qed
    qed
  qed
qed

lemma sync_recv_grows:
  assumes "sync_recv sc rpath lpath w = (r, sc', w')"
  shows "grows sc w sc' w'"
proof -
  let ?w0 = "emit (Print rpath) w"
  have g0: "grows sc w sc ?w0" by (rule emit_grows) simp
  obtain ok1 wa where sr: "SendRequest ID_STAT rpath ?w0 = (ok1, wa)"
    by (cases "SendRequest ID_STAT rpath ?w0")
  have ga: "grows sc ?w0 sc wa" using sr by (rule SendRequest_grows) simp
  obtain st w1 where ss: "sync_stat sc rpath ?w0 = (st, w1)"
    by (cases "sync_stat sc rpath ?w0")
  have g1: "grows sc ?w0 sc w1"
  proof (cases ok1)
    case False
    with sr ss have "w1 = wa" by (simp add: sync_stat_def)
    with ga show ?thesis by simp
  next
    case True
    with sr ss have fs: "sync_finish_stat sc wa = (st, w1)" by (simp add: sync_stat_def)
    obtain rr wb where rd: "ReadFdExactly 16 wa = (rr, wb)"
      by (cases "ReadFdExactly 16 wa")
    with fs have "w1 = wb"
      by (cases rr) (auto simp: sync_finish_stat_def split: if_splits)
    with ReadFdExactly_grows [OF rd, of sc] ga show ?thesis
      by (blast intro: grows_trans)
  qed
  show ?thesis
  proof (cases st)
    case None
    with ss assms have "sc' = sc" "w' = w1" by (simp_all add: sync_recv_def)
    with g0 g1 show ?thesis by (blast intro: grows_trans)
  next
    case (Some reply)
    obtain timestamp rmode rsize where reply: "reply = (timestamp, rmode, rsize)"
      by (cases reply)
    obtain ok2 w2 where sr2: "SendRequest ID_RECV rpath w1 = (ok2, w2)"
      by (cases "SendRequest ID_RECV rpath w1")
    have g2: "grows sc w1 sc w2" using sr2 by (rule SendRequest_grows) simp
    show ?thesis
    proof (cases ok2)
      case False
      with ss Some reply sr2 assms have "sc' = sc" "w' = w2" by (simp_all add: sync_recv_def)
      with g0 g1 g2 show ?thesis by (blast intro: grows_trans)
    next
      case True
      obtain lfd w3 where cr: "adb_creat lpath (mkdirs lpath (adb_unlink lpath w2)) = (lfd, w3)"
        by (cases "adb_creat lpath (mkdirs lpath (adb_unlink lpath w2))")
      then have "\<exists>e. trace w3 = trace w2 @ [FileUnlink lpath, Mkdirs lpath, e] \<and> data_bytes e = 0"
        by (auto simp: adb_creat_def mkdirs_def split: if_splits)
      then obtain e where "trace w3 = trace w2 @ [FileUnlink lpath, Mkdirs lpath, e]" "data_bytes e = 0"
        by blast
      then have g3: "grows sc w2 sc w3"
        by (intro grows_refl [where evs = "[FileUnlink lpath, Mkdirs lpath, e]"]) simp_all
      show ?thesis
      proof (cases "lfd < 0")
        case neg: True
        with ss Some reply sr2 True cr assms have "sc' = sc" "w' = emit (Error ''cannot create '%s': %s'') w3"
          by (simp_all add: sync_recv_def)
        moreover have "grows sc w3 sc (emit (Error ''cannot create '%s': %s'') w3)"
          by (rule emit_grows) simp
        ultimately show ?thesis using g0 g1 g2 g3 by (blast intro: grows_trans)
      next
        case False
        with ss Some reply sr2 True cr assms
        have "sync_recv_loop sc rpath lpath lfd rsize 0 w3 = (r, sc', w')"
          by (simp add: sync_recv_def)
        from sync_recv_loop_grows [OF this] g0 g1 g2 g3 show ?thesis
          by (blast intro: grows_trans)
      qed
    qed
  qed
qed

lemma no_overflow_le:
  fixes x :: u64
  assumes "unat x + n < 2 ^ 64"
  shows "x \<le> x + of_nat n"
proof -
  have n: "n < 2 ^ 64" using assms by simp
  then have "unat (of_nat n :: u64) = n"
    by (simp add: unat_of_nat)
  with assms have "unat (x + of_nat n) = unat x + n"
    by (simp add: unat_word_ariths)
  then show ?thesis
    by (simp add: word_le_nat_alt)
qed

lemmas run_defs3 = SendLargeFile_def adb_open_def adb_read_def moved_def SendSmallFile_def
  push_world_def pull_ok_input_def

lemma SendLargeFile_after_request:
  assumes "SendRequest ID_SEND pm w = (True, w1)"
      and "SendLargeFile sc pm lpath rpath mtime w = (r, sc', w')"
  shows "\<exists>evs. trace w' = trace w1 @ evs"
proof -
  have "grows sc w1 sc w1" by (rule grows_refl [where evs = "[]"]) simp_all
  show ?thesis
  proof (cases "files w1 lpath")
    case None
    with assms have "w' = emit (Error ''cannot stat '%s': %s'') w1"
      by (simp_all add: SendLargeFile_def)
    then show ?thesis by simp
  next
    case (Some f)
    obtain lfd w2 where op: "adb_open lpath w1 = (lfd, w2)"
      by (cases "adb_open lpath w1")
    then have "\<exists>e. trace w2 = trace w1 @ [e]"
      using Some by (auto simp: adb_open_def split: if_splits)
    then obtain e where t2: "trace w2 = trace w1 @ [e]" by blast
    show ?thesis
    proof (cases "lfd < 0")
      case True
      with assms Some op have "w' = emit (Error ''cannot open '%s': %s'') w2"
        by (simp_all add: SendLargeFile_def)
      with t2 show ?thesis by simp
    next
      case False
      obtain r3 sc3 w3 where lp: "SendLargeFile_loop sc lpath rpath lfd f 0 (st_size f) 0 w2 = (r3, sc3, w3)"
        by (cases "SendLargeFile_loop sc lpath rpath lfd f 0 (st_size f) 0 w2")
      from SendLargeFile_loop_grows [OF lp] obtain evs3 where t3: "trace w3 = trace w2 @ evs3"
        by (auto simp: grows_def)
      show ?thesis
      proof (cases "r3 = Returns True")
        case notdone: False
        with assms Some op False lp have "w' = w3"
          by (auto simp: SendLargeFile_def split: outcome.splits bool.splits)
        with t2 t3 show ?thesis by simp
      next
        case True
        obtain ok4 w4 where wr: "WriteFdExactly (le32 ID_DONE @ le32 mtime) (adb_close lfd w3) = (ok4, w4)"
          by (cases "WriteFdExactly (le32 ID_DONE @ le32 mtime) (adb_close lfd w3)")
        then have "\<exists>e. trace w4 = trace w3 @ [FileClose lfd, e]"
          by (auto simp: WriteFdExactly_def split: if_splits)
        then obtain e4 where t4: "trace w4 = trace w3 @ [FileClose lfd, e4]" by blast
        from assms Some op False lp True wr have
          "w' = w4 \<or> w' = emit (Error ''failed to send ID_DONE message for '%s': %s'') w4"
          by (auto simp: SendLargeFile_def split: bool.splits)
        with t2 t3 t4 show ?thesis by auto
      qed
    qed
  qed
qed

lemma CopyDone_extends: "\<exists>evs. trace (snd (CopyDone a b w)) = trace w @ evs"
proof -
  obtain r w1 where rd: "ReadFdExactly 8 w = (r, w1)"
    by (cases "ReadFdExactly 8 w")
  then have "\<exists>e. trace w1 = trace w @ [e]"
    by (auto simp: ReadFdExactly_def split: if_splits)
  then obtain e where t1: "trace w1 = trace w @ [e]" ..
  have "snd (CopyDone a b w) = w1 \<or> (\<exists>s. snd (CopyDone a b w) = emit (Error s) w1)
        \<or> (\<exists>n. snd (CopyDone a b w) = snd (ReportCopyFailure a b n w1))"
    using rd by (cases r) (auto simp: CopyDone_def)
  then consider "snd (CopyDone a b w) = w1"
    | s where "snd (CopyDone a b w) = emit (Error s) w1"
    | n where "snd (CopyDone a b w) = snd (ReportCopyFailure a b n w1)"
    by blast
  then show ?thesis
  proof cases
    case 1
    with t1 show ?thesis by simp
  next
    case 2
    with t1 show ?thesis by simp
  next
    case 3
    obtain evs where "trace (snd (ReportCopyFailure a b n w1)) = trace w1 @ evs"
      using ReportCopyFailure_grows [of undefined w1 a b n] by (auto simp: grows_def)
    with 3 t1 show ?thesis by simp
  qed
qed

lemma then_CopyDone_extends:
  "\<exists>evs. trace (snd (snd (then_CopyDone a b (r, sc1, w1)))) = trace w1 @ evs"
proof (cases "r = Returns True")
  case True
  then have "snd (snd (then_CopyDone a b (r, sc1, w1))) = snd (CopyDone a b w1)"
    by (simp add: then_CopyDone_def split: prod.splits)
  then show ?thesis using CopyDone_extends [of a b w1] by simp
next
  case False
  then have "snd (snd (then_CopyDone a b (r, sc1, w1))) = w1"
    by (auto simp: then_CopyDone_def split: outcome.splits bool.splits)
  then show ?thesis by simp
qed

lemma regular_not_symlink: "S_ISREG m \<Longrightarrow> \<not> S_ISLNK m"
  by (simp add: S_ISREG_def S_ISLNK_def S_IFREG_def S_IFLNK_def)

lemma SendLargeFile_never_divides_by_zero:
  assumes "files w lpath = Some f" and "st_size f \<noteq> 0"
  shows "fst (SendLargeFile sc pm lpath rpath mtime w) \<noteq> DivideByZero"
proof -
  obtain ok w1 where sr: "SendRequest ID_SEND pm w = (ok, w1)"
    by (cases "SendRequest ID_SEND pm w")
  then have f1: "files w1 lpath = Some f"
    using assms(1) by (auto simp: SendRequest_def WriteFdExactly_def Let_def split: if_splits)
  obtain lfd w2 where op: "adb_open lpath w1 = (lfd, w2)"
    by (cases "adb_open lpath w1")
  obtain r3 sc3 w3 where lp: "SendLargeFile_loop sc lpath rpath lfd f 0 (st_size f) 0 w2 = (r3, sc3, w3)"
    by (cases "SendLargeFile_loop sc lpath rpath lfd f 0 (st_size f) 0 w2")
  from SendLargeFile_loop_grows [OF lp] assms(2) have "r3 \<noteq> DivideByZero" by simp
  with sr f1 op lp show ?thesis
    by (cases ok; cases r3)
       (auto simp: SendLargeFile_def split: prod.splits bool.splits outcome.splits)
qed

lemma sync_send_never_divides_by_zero:
  "fst (sync_send sc lpath rpath mtime m w) \<noteq> DivideByZero"
proof (cases "\<not> S_ISLNK m \<and> S_ISREG m \<and> (\<exists>f. files w lpath = Some f \<and> \<not> sint (st_size f) < int SYNC_DATA_MAX)")
  case True
  then obtain f where f: "files w lpath = Some f" "\<not> sint (st_size f) < int SYNC_DATA_MAX"
    by blast
  then have "st_size f \<noteq> 0"
    by (auto simp: SYNC_DATA_MAX_def)
  from SendLargeFile_never_divides_by_zero [OF f(1) this]
  have "fst (SendLargeFile sc (rpath @ '','' @ dec_int (sint m)) lpath rpath mtime w) \<noteq> DivideByZero" .
  with True f show ?thesis
    by (auto simp: sync_send_def Let_def split: prod.splits bool.splits outcome.splits)
next
  case False
  then show ?thesis
    by (auto simp: sync_send_def Let_def split: prod.splits bool.splits outcome.splits option.splits)
qed

text \<open>The chunks, and the stream of a \<open>SendLargeFile\<close> that succeeds.\<close>

lemma chunks_Nil: "n = 0 \<or> bs = [] \<Longrightarrow> chunks n bs = []"
  by (subst chunks.simps) simp

lemma chunks_Cons: "0 < n \<Longrightarrow> bs \<noteq> [] \<Longrightarrow> chunks n bs = take n bs # chunks n (drop n bs)"
  by (subst chunks.simps) simp

lemma concat_chunks: "0 < n \<Longrightarrow> concat (chunks n bs) = bs"
proof (induction n bs rule: chunks.induct)
  case (1 n bs)
  show ?case
  proof (cases "bs = []")
    case True
    then show ?thesis by (simp add: chunks_Nil)
  next
    case False
    with 1 show ?thesis by (simp add: chunks_Cons)
  qed
qed

lemma chunks_bounded: "list_all (\<lambda>c. c \<noteq> [] \<and> length c \<le> n) (chunks n bs)"
proof (induction n bs rule: chunks.induct)
  case (1 n bs)
  show ?case
  proof (cases "n = 0 \<or> bs = []")
    case True
    then show ?thesis by (simp add: chunks_Nil)
  next
    case False
    with 1 show ?thesis by (simp add: chunks_Cons)
  qed
qed

lemma SendLargeFile_loop_streams:
  assumes "read_fail f = None" and "total_size \<noteq> 0"
      and "stream_room (chunks (max_chunk sc) (drop off (contents f))) \<le> sock_room w"
  shows "\<exists>sc' w'. SendLargeFile_loop sc lpath rpath lfd f off total_size bc w = (Returns True, sc', w')
        \<and> trace w' = trace w @
            stream_events rpath total_size bc (chunks (max_chunk sc) (drop off (contents f)))
        \<and> sock_room w' = sock_room w - stream_room (chunks (max_chunk sc) (drop off (contents f)))"
  using assms(3)
proof (induction "length (contents f) - off" arbitrary: off sc bc w rule: less_induct)
  case less
  let ?n = "max_chunk sc"
  let ?rem = "drop off (contents f)"
  let ?chunk = "take ?n ?rem"
  have rd: "adb_read f off ?n = Some ?chunk"
    using assms(1) by (simp add: adb_read_def)
  show ?case
  proof (cases "?n = 0 \<or> ?rem = []")
    case True
    then have "?chunk = []" by auto
    then have "SendLargeFile_loop sc lpath rpath lfd f off total_size bc w = (Returns True, sc, w)"
      by (subst SendLargeFile_loop.simps) (simp add: rd)
    with True show ?thesis
      by (simp add: chunks_Nil stream_room_def)
  next
    case False
    then have ne: "?chunk \<noteq> []" and pos: "0 < ?n" and rem: "?rem \<noteq> []" by auto
    define frame where "frame = le32 ID_DATA @ le32 (of_nat (length ?chunk)) @ ?chunk"
    have fr: "frame = data_frame ?chunk"
      by (simp add: frame_def data_frame_def)
    have ch: "chunks ?n ?rem = ?chunk # chunks ?n (drop ?n ?rem)"
      using pos rem by (rule chunks_Cons)
    have room: "length frame + stream_room (chunks ?n (drop ?n ?rem)) \<le> sock_room w"
      using less.prems unfolding ch by (simp add: stream_room_def fr)
    define w1 where "w1 = emit (SockWrite frame) (w\<lparr>sock_room := sock_room w - length frame\<rparr>)"
    have wr: "WriteFdExactly frame w = (True, w1)"
      using room by (simp add: WriteFdExactly_def w1_def)
    define sc1 where "sc1 = sc\<lparr>total_bytes := total_bytes sc + of_nat (length ?chunk)\<rparr>"
    define w2 where "w2 = emit (Progress rpath (percentage (bc + of_nat (length ?chunk)) total_size)) w1"
    have step: "SendLargeFile_loop sc lpath rpath lfd f off total_size bc w =
        SendLargeFile_loop sc1 lpath rpath lfd f (off + length ?chunk) total_size
          (bc + of_nat (length ?chunk)) w2"
      using ne assms(2) wr [unfolded frame_def]
      by (subst SendLargeFile_loop.simps) (simp add: rd sc1_def w2_def del: length_take)
    have dr: "drop (off + length ?chunk) (contents f) = drop ?n ?rem"
      by (cases "?n \<le> length ?rem") (simp_all add: min_def add.commute)
    have mc: "max_chunk sc1 = ?n" by (simp add: sc1_def)
    have less': "length (contents f) - (off + length ?chunk) < length (contents f) - off"
      using rd ne by (rule adb_read_decreases)
    have room': "stream_room (chunks (max_chunk sc1) (drop (off + length ?chunk) (contents f)))
                  \<le> sock_room w2"
      using room unfolding mc dr by (simp add: w2_def w1_def)
    from less.hyps [OF less' room', of "bc + of_nat (length ?chunk)"]
    obtain sc' w' where rec:
      "SendLargeFile_loop sc1 lpath rpath lfd f (off + length ?chunk) total_size
          (bc + of_nat (length ?chunk)) w2 = (Returns True, sc', w')"
      "trace w' = trace w2 @ stream_events rpath total_size (bc + of_nat (length ?chunk))
                    (chunks ?n (drop ?n ?rem))"
      "sock_room w' = sock_room w2 - stream_room (chunks ?n (drop ?n ?rem))"
      unfolding mc dr by blast
    have t: "trace w' = trace w @ stream_events rpath total_size bc (chunks ?n ?rem)"
      unfolding ch using rec(2) by (simp add: w2_def w1_def fr)
    have r: "sock_room w' = sock_room w - stream_room (chunks ?n ?rem)"
      unfolding ch using rec(3) by (simp add: w2_def w1_def fr stream_room_def)
    from step rec(1) t r show ?thesis by simp
  qed
qed


lemma SendLargeFile_streams:
  assumes f: "files w lpath = Some f" and nz: "st_size f \<noteq> 0"
      and rd: "readable f" "read_fail f = None"
      and len: "length pm \<le> 1024"
      and room: "length (send_request pm) + stream_room (chunks (max_chunk sc) (contents f)) + 8
                   \<le> sock_room w"
  shows "\<exists>sc1 w1. SendLargeFile sc pm lpath rpath mtime w = (Returns True, sc1, w1)
        \<and> new_events w w1 =
            SockWrite (send_request pm) # FileOpen lpath (int (next_fd w)) #
            stream_events rpath (st_size f) 0 (chunks (max_chunk sc) (contents f)) @
            [FileClose (int (next_fd w)), SockWrite (le32 ID_DONE @ le32 mtime)]"
proof -
  define wa where "wa = emit (SockWrite (send_request pm))
                          (w\<lparr>sock_room := sock_room w - length (send_request pm)\<rparr>)"
  define lfd where "lfd = int (next_fd w)"
  define wb where "wb = emit (FileOpen lpath lfd)
                          (wa\<lparr>open_fds := (lfd, lpath) # open_fds wa, next_fd := Suc (next_fd wa)\<rparr>)"
  have sr: "SendRequest ID_SEND pm w = (True, wa)"
    using len room by (simp add: SendRequest_def WriteFdExactly_def send_request_def wa_def Let_def)
  have fa: "files wa lpath = Some f"
    using f by (simp add: wa_def)
  have op: "adb_open lpath wa = (lfd, wb)"
    using fa rd(1) by (simp add: adb_open_def wb_def lfd_def wa_def)
  have nneg: "\<not> lfd < 0" by (simp add: lfd_def)
  have roomb: "stream_room (chunks (max_chunk sc) (drop 0 (contents f))) \<le> sock_room wb"
    using room by (simp add: wb_def wa_def)
  from SendLargeFile_loop_streams [OF rd(2) nz roomb, of lpath rpath lfd 0]
  obtain sc1 wc where lp: "SendLargeFile_loop sc lpath rpath lfd f 0 (st_size f) 0 wb = (Returns True, sc1, wc)"
    and tc: "trace wc = trace wb @ stream_events rpath (st_size f) 0 (chunks (max_chunk sc) (contents f))"
    and rc: "sock_room wc = sock_room wb - stream_room (chunks (max_chunk sc) (contents f))"
    by auto
  define wd where "wd = emit (SockWrite (le32 ID_DONE @ le32 mtime))
                          ((adb_close lfd wc)\<lparr>sock_room := sock_room (adb_close lfd wc) - 8\<rparr>)"
  have "sock_room (adb_close lfd wc) = sock_room wc"
    by (simp add: adb_close_def)
  with rc room have "8 \<le> sock_room (adb_close lfd wc)"
    by (simp add: wb_def wa_def)
  then have wr: "WriteFdExactly (le32 ID_DONE @ le32 mtime) (adb_close lfd wc) = (True, wd)"
    by (simp add: WriteFdExactly_def wd_def)
  have run: "SendLargeFile sc pm lpath rpath mtime w = (Returns True, sc1, wd)"
    using nneg by (simp add: SendLargeFile_def sr fa op lp wr)
  have "trace wd = trace w @ SockWrite (send_request pm) # FileOpen lpath lfd #
            stream_events rpath (st_size f) 0 (chunks (max_chunk sc) (contents f)) @
            [FileClose lfd, SockWrite (le32 ID_DONE @ le32 mtime)]"
    using tc by (simp add: wd_def wb_def wa_def)
  then have "new_events w wd = SockWrite (send_request pm) # FileOpen lpath lfd #
            stream_events rpath (st_size f) 0 (chunks (max_chunk sc) (contents f)) @
            [FileClose lfd, SockWrite (le32 ID_DONE @ le32 mtime)]"
    by (simp add: new_events_def)
  with run show ?thesis
    unfolding lfd_def by blast
qed

text \<open>STAT and LIST move no DATA payload.\<close>

lemma ReadFdExactly_quiet:
  "ReadFdExactly n w = (r, w1) \<Longrightarrow> \<exists>e. trace w1 = trace w @ [e] \<and> data_bytes e = 0"
  by (auto simp: ReadFdExactly_def split: if_splits)

lemma SendRequest_quiet:
  assumes "SendRequest i p w = (ok, w1)" and "i \<noteq> ID_DATA"
  shows "\<exists>e. trace w1 = trace w @ [e] \<and> data_bytes e = 0"
  using assms
  by (auto simp: SendRequest_def WriteFdExactly_def Let_def split: if_splits)

lemma sync_finish_stat_quiet:
  "sync_finish_stat sc w = (r, w1) \<Longrightarrow> \<exists>e. trace w1 = trace w @ [e] \<and> data_bytes e = 0"
  by (auto simp: sync_finish_stat_def ReadFdExactly_def split: if_splits)

lemma moved_append:
  "trace w' = trace w @ evs \<Longrightarrow> moved w w' = sum_list (map data_bytes evs)"
  by (simp add: moved_def new_events_def)

lemma sync_stat_quiet:
  assumes "sync_stat sc p w = (st, w')"
  shows "moved w w' = 0"
proof -
  obtain ok w0 where sr: "SendRequest ID_STAT p w = (ok, w0)"
    by (cases "SendRequest ID_STAT p w")
  have "ID_STAT \<noteq> ID_DATA" by (simp add: ID_STAT_def ID_DATA_def)
  from SendRequest_quiet [OF sr this] obtain e where e: "trace w0 = trace w @ [e]" "data_bytes e = 0"
    by blast
  show ?thesis
  proof (cases ok)
    case False
    with sr assms have "w' = w0" by (simp add: sync_stat_def)
    with e show ?thesis by (simp add: moved_append [where evs = "[e]"])
  next
    case True
    with sr assms have fs: "sync_finish_stat sc w0 = (st, w')" by (simp add: sync_stat_def)
    from sync_finish_stat_quiet [OF fs] obtain e' where "trace w' = trace w0 @ [e']" "data_bytes e' = 0"
      by blast
    with e show ?thesis by (simp add: moved_append [where evs = "[e, e']"])
  qed
qed

lemma sync_ls_loop_quiet:
  "sync_ls_loop func acc w = (ok, acc', w') \<Longrightarrow>
     \<exists>evs. trace w' = trace w @ evs \<and> sum_list (map data_bytes evs) = 0"
proof (induction func acc w arbitrary: ok acc' w' rule: sync_ls_loop.induct)
  case (1 func acc w)
  obtain r w1 where rd: "ReadFdExactly 20 w = (r, w1)"
    by (cases "ReadFdExactly 20 w")
  from ReadFdExactly_quiet [OF rd] obtain e1 where e1: "trace w1 = trace w @ [e1]" "data_bytes e1 = 0"
    by blast
  then have stop: "\<exists>evs. trace w1 = trace w @ evs \<and> sum_list (map data_bytes evs) = 0"
    by (intro exI [of _ "[e1]"]) simp
  show ?case
  proof (cases r)
    case None
    with rd "1.prems" have "w' = w1"
      by (subst (asm) sync_ls_loop.simps) simp
    with stop show ?thesis by simp
  next
    case (Some msg)
    note hdr = rd [unfolded Some]
    show ?thesis
    proof (cases "field 0 msg = ID_DONE \<or> field 0 msg \<noteq> ID_DENT \<or> unat (field 4 msg) > 256")
      case True
      with hdr "1.prems" have "w' = w1"
        by (subst (asm) sync_ls_loop.simps) (auto split: if_splits)
      with stop show ?thesis by simp
    next
      case False
      then have c: "field 0 msg \<noteq> ID_DONE" "\<not> field 0 msg \<noteq> ID_DENT" "\<not> unat (field 4 msg) > 256"
        by auto
      obtain r2 w2 where rd2: "ReadFdExactly (unat (field 4 msg)) w1 = (r2, w2)"
        by (cases "ReadFdExactly (unat (field 4 msg)) w1")
      from ReadFdExactly_quiet [OF rd2] obtain e2 where e2: "trace w2 = trace w1 @ [e2]" "data_bytes e2 = 0"
        by blast
      show ?thesis
      proof (cases r2)
        case None
        with hdr c rd2 "1.prems" have "w' = w2"
          by (subst (asm) sync_ls_loop.simps) simp
        with e1 e2 show ?thesis by (intro exI [of _ "[e1, e2]"]) simp
      next
        case (Some buf)
        note nm = rd2 [unfolded Some]
        from hdr c nm "1.prems"
        have rec: "sync_ls_loop func (func (field 1 msg) (field 2 msg) (field 3 msg) (c_str buf) acc) w2
                     = (ok, acc', w')"
          by (subst (asm) sync_ls_loop.simps) simp
        from "1.IH" [OF hdr [symmetric] refl c nm [symmetric] refl rec]
        obtain evs where "trace w' = trace w2 @ evs" "sum_list (map data_bytes evs) = 0"
          by blast
        with e1 e2 show ?thesis by (intro exI [of _ "e1 # e2 # evs"]) simp
      qed
    qed
  qed
qed

lemma sync_ls_quiet:
  assumes "sync_ls sc p func acc w = (ok, acc', w')"
  shows "moved w w' = 0"
proof -
  obtain ok0 w0 where sr: "SendRequest ID_LIST p w = (ok0, w0)"
    by (cases "SendRequest ID_LIST p w")
  have "ID_LIST \<noteq> ID_DATA" by (simp add: ID_LIST_def ID_DATA_def)
  from SendRequest_quiet [OF sr this] obtain e where e: "trace w0 = trace w @ [e]" "data_bytes e = 0"
    by blast
  show ?thesis
  proof (cases ok0)
    case False
    with sr assms have "w' = w0" by (simp add: sync_ls_def)
    with e show ?thesis by (simp add: moved_append [where evs = "[e]"])
  next
    case True
    with sr assms have "sync_ls_loop func acc w0 = (ok, acc', w')" by (simp add: sync_ls_def)
    from sync_ls_loop_quiet [OF this]
    obtain evs where "trace w' = trace w0 @ evs" "sum_list (map data_bytes evs) = 0"
      by blast
    with e show ?thesis by (simp add: moved_append [where evs = "e # evs"])
  qed
qed

subsection \<open>C1: the skip decision of the timestamp phase\<close>

text \<open>
  C1, as the code has it. When the phase succeeds, an item whose flag was 0 and whose STAT
  reply has the local size is skipped (flag 1) exactly when the bitwise AND of the local
  and the remote mode is a regular file's and the remote timestamp equals the local mtime,
  or that AND is a symlink's and the remote timestamp is at least the local mtime. So for a
  local and a remote regular file: exactly when the timestamps are equal; for a local and a
  remote symlink: exactly when the remote timestamp is greater or equal.
\<close>

theorem C1_skip_decision:
  assumes "check_timestamps_phase sc filelist w = (True, filelist', w')"
      and "n < length filelist"
      and "flag (filelist ! n) = 0"
      and "stat_block n (sock_in w) = stat_reply rmode rsize rtime"
      and "ucast rsize = size' (filelist ! n)"
  shows "((flag (filelist' ! n) = 1) =
           ((S_ISREG (mode (filelist ! n) AND rmode) \<and> rtime = time (filelist ! n)) \<or>
            (S_ISLNK (mode (filelist ! n) AND rmode) \<and> time (filelist ! n) \<le> rtime)))
       \<and> (S_ISREG (mode (filelist ! n)) \<and> S_ISREG rmode \<longrightarrow>
           (flag (filelist' ! n) = 1) = (rtime = time (filelist ! n)))
       \<and> (S_ISLNK (mode (filelist ! n)) \<and> S_ISLNK rmode \<longrightarrow>
           (flag (filelist' ! n) = 1) = (time (filelist ! n) \<le> rtime))"
proof -
  obtain ok1 w1 where s: "send_stat_requests sc filelist w = (ok1, w1)"
    by (cases "send_stat_requests sc filelist w")
  with assms(1) have ok1: "ok1" and f: "finish_stats sc filelist w1 = (True, filelist', w')"
    by (auto simp: check_timestamps_phase_def split: bool.splits)
  from send_stat_requests_any [OF s] have "sock_in w1 = sock_in w" by simp
  with finish_stats_True [OF f] assms(2)
  have "filelist' ! n = apply_stat (filelist ! n) (stat_block n (sock_in w))"
    by simp
  then have eq: "filelist' ! n = check_timestamp (filelist ! n) rtime rmode rsize"
    by (simp add: assms(4) apply_stat_def stat_reply_def)
  have g: "(flag (filelist' ! n) = 1) =
           ((S_ISREG (mode (filelist ! n) AND rmode) \<and> rtime = time (filelist ! n)) \<or>
            (S_ISLNK (mode (filelist ! n) AND rmode) \<and> time (filelist ! n) \<le> rtime))"
    using assms(3,5) by (simp add: eq check_timestamp_def)
  have r: "S_ISREG (mode (filelist ! n)) \<and> S_ISREG rmode \<longrightarrow>
           (flag (filelist' ! n) = 1) = (rtime = time (filelist ! n))"
    using g both_regular [of "mode (filelist ! n)" rmode] by auto
  have l: "S_ISLNK (mode (filelist ! n)) \<and> S_ISLNK rmode \<longrightarrow>
           (flag (filelist' ! n) = 1) = (time (filelist ! n) \<le> rtime)"
    using g both_symlinks [of "mode (filelist ! n)" rmode] by auto
  from g r l show ?thesis by blast
qed

theorem C1_skip_decision_witness:
  "fst (check_timestamps_phase fresh_sc [file_a, file_b] (peer_sends sync_replies)) = True
   \<and> flag ([file_a, file_b] ! 0) = 0
   \<and> stat_block 0 (sock_in (peer_sends sync_replies)) = stat_reply 0x81A4 10 5
   \<and> ucast (10 :: u32) = size' ([file_a, file_b] ! 0)
   \<and> S_ISREG (mode ([file_a, file_b] ! 0)) \<and> S_ISREG 0x81A4
   \<and> flag (fst (snd (check_timestamps_phase fresh_sc [file_a, file_b] (peer_sends sync_replies))) ! 0) = 1"
proof -
  let ?R = "check_timestamps_phase fresh_sc [file_a, file_b] (peer_sends sync_replies)"
  have ok: "fst ?R = True"
    by (simp add: run_defs phase_defs)
  then have eq: "?R = (True, fst (snd ?R), snd (snd ?R))"
    by (metis prod.collapse)
  have n: "0 < length [file_a, file_b]" by simp
  have fl: "flag ([file_a, file_b] ! 0) = 0" by (simp add: file_a_def)
  have blk: "stat_block 0 (sock_in (peer_sends sync_replies)) = stat_reply 0x81A4 10 5"
    by (simp add: peer_sends_def sync_replies_def stat_block_def stat_reply_def)
  have sz: "ucast (10 :: u32) = size' ([file_a, file_b] ! 0)" by (simp add: file_a_def)
  have reg: "S_ISREG (mode ([file_a, file_b] ! 0)) \<and> S_ISREG 0x81A4"
    by (simp add: file_a_def S_ISREG_def S_IFMT_def S_IFREG_def)
  have "(5 :: u32) = time ([file_a, file_b] ! 0)" by (simp add: file_a_def)
  with C1_skip_decision [OF eq n fl blk sz] reg
  have "flag (fst (snd ?R) ! 0) = 1" by blast
  with ok fl blk sz reg show ?thesis by blast
qed

text \<open>
  As the claim states it (the local type alone decides), C1 fails: a local regular file is
  not skipped when the remote object of the same size and timestamp is a directory, and a
  local symlink is not skipped when the remote object of the same size and a newer
  timestamp is a regular file.
\<close>

theorem C1_counterexample:
  "S_ISREG (mode file_a) \<and> size' file_a = ucast (10 :: u32) \<and> time file_a = 5
   \<and> check_timestamp file_a 5 0x41ED 10 = file_a
   \<and> fst (check_timestamps_phase fresh_sc [file_a] (peer_sends (stat_reply 0x41ED 10 5))) = True
   \<and> map flag (fst (snd (check_timestamps_phase fresh_sc [file_a]
                             (peer_sends (stat_reply 0x41ED 10 5))))) = [0]
   \<and> S_ISLNK (mode link_l) \<and> size' link_l = ucast (9 :: u32) \<and> time link_l \<le> 301
   \<and> fst (check_timestamps_phase fresh_sc [link_l] (peer_sends (stat_reply 0x81A4 9 301))) = True
   \<and> map flag (fst (snd (check_timestamps_phase fresh_sc [link_l]
                             (peer_sends (stat_reply 0x81A4 9 301))))) = [0]"
  by (simp add: run_defs phase_defs)

subsection \<open>C2: a failed pull leaves no destination file\<close>

text \<open>
  C2. When \<open>sync_recv\<close> returns false after it created the destination (the events of the
  call hold the \<open>adb_creat\<close> of \<open>lpath\<close>, with descriptor \<open>lfd\<close>), the destination is not on
  disk any more, its descriptor is closed, and the call closed the descriptor and unlinked
  the path, in this order, one right after the other. And each of the five failures does end
  so, at any round of the receive loop (\<open>lfd\<close> the descriptor, \<open>lpath\<close> the destination):
  a header cut short; a frame that is neither DATA nor DONE; a DATA header above the
  connection's \<open>max\<close>; a payload cut short; a chunk that the local disk does not take
  (\<open>lfd\<close> being the descriptor of \<open>lpath\<close>). Each makes the loop return false with the
  connection as it was, with exactly the events listed (the reads, the error print where the
  code has one, then the close and the unlink; for a foreign frame the report of the peer's
  message follows them and creates no file), the destination absent and the descriptor
  closed.
\<close>

theorem C2_failed_pull_leaves_no_file:
  "(sync_recv sc rpath lpath w = (Returns False, sc', w') \<and>
      FileCreat lpath lfd \<in> set (new_events w w') \<longrightarrow>
        files w' lpath = None
      \<and> lfd \<notin> fst ` set (open_fds w')
      \<and> closed_then_unlinked lfd lpath (new_events w w'))
   \<and> (length (sock_in w) < 8 \<longrightarrow>
        (\<exists>v. sync_recv_loop sc rpath lpath lfd rsize bytes_copied w = (Returns False, sc, v)
           \<and> new_events w v = [SockReadShort (sock_in w), FileClose lfd, FileUnlink lpath]
           \<and> files v lpath = None
           \<and> lfd \<notin> fst ` set (open_fds v)))
   \<and> (sock_in w = le32 id' @ le32 len @ rest \<and> id' \<noteq> ID_DONE \<and> id' \<noteq> ID_DATA \<longrightarrow>
        (\<exists>v evs. sync_recv_loop sc rpath lpath lfd rsize bytes_copied w = (Returns False, sc, v)
           \<and> new_events w v =
               SockRead (le32 id' @ le32 len) # FileClose lfd # FileUnlink lpath # evs
           \<and> \<not> list_ex is_creat evs
           \<and> files v lpath = None
           \<and> lfd \<notin> fst ` set (open_fds v)))
   \<and> (sock_in w = le32 ID_DATA @ le32 len @ rest \<and> unat len > max_chunk sc \<longrightarrow>
        (\<exists>v. sync_recv_loop sc rpath lpath lfd rsize bytes_copied w = (Returns False, sc, v)
           \<and> new_events w v =
               [SockRead (le32 ID_DATA @ le32 len),
                Error ''msg.data.size too large: %u (max %zu)'',
                FileClose lfd, FileUnlink lpath]
           \<and> files v lpath = None
           \<and> lfd \<notin> fst ` set (open_fds v)))
   \<and> (sock_in w = le32 ID_DATA @ le32 len @ rest \<and> unat len \<le> max_chunk sc \<and>
       length rest < unat len \<longrightarrow>
        (\<exists>v. sync_recv_loop sc rpath lpath lfd rsize bytes_copied w = (Returns False, sc, v)
           \<and> new_events w v =
               [SockRead (le32 ID_DATA @ le32 len), SockReadShort rest,
                FileClose lfd, FileUnlink lpath]
           \<and> files v lpath = None
           \<and> lfd \<notin> fst ` set (open_fds v)))
   \<and> (sock_in w = le32 ID_DATA @ le32 len @ rest \<and> unat len \<le> max_chunk sc \<and>
       unat len \<le> length rest \<and> map_of (open_fds w) lfd = Some lpath \<and>
       disk_room w < unat len \<longrightarrow>
        (\<exists>v. sync_recv_loop sc rpath lpath lfd rsize bytes_copied w = (Returns False, sc, v)
           \<and> new_events w v =
               [SockRead (le32 ID_DATA @ le32 len), SockRead (take (unat len) rest),
                FileWriteShort lfd (take (disk_room w) (take (unat len) rest)),
                Error ''cannot write '%s': %s'',
                FileClose lfd, FileUnlink lpath]
           \<and> files v lpath = None
           \<and> lfd \<notin> fst ` set (open_fds v)))"
proof -
  have A: "(sync_recv sc rpath lpath w = (Returns False, sc', w') \<and>
      FileCreat lpath lfd \<in> set (new_events w w') \<longrightarrow>
        files w' lpath = None
      \<and> lfd \<notin> fst ` set (open_fds w')
      \<and> closed_then_unlinked lfd lpath (new_events w w'))"
  proof (intro impI, (elim conjE)?)
    assume ret: "sync_recv sc rpath lpath w = (Returns False, sc', w')"
       and created: "FileCreat lpath lfd \<in> set (new_events w w')"
    obtain st w1 where ss: "sync_stat sc rpath (emit (Print rpath) w) = (st, w1)"
      by (cases "sync_stat sc rpath (emit (Print rpath) w)")
    from sync_stat_frame [OF ss] obtain evs1
      where t1: "trace w1 = trace w @ Print rpath # evs1" "\<not> list_ex is_creat evs1"
      by auto
    show "files w' lpath = None \<and> lfd \<notin> fst ` set (open_fds w')
        \<and> closed_then_unlinked lfd lpath (new_events w w')"
    proof (cases st)
      case None
      with ss ret have "w' = w1" by (simp add: sync_recv_def)
      with t1 created show ?thesis
        by (auto simp: new_events_def list_ex_iff)
    next
      case (Some reply)
      obtain timestamp rmode rsize where reply: "reply = (timestamp, rmode, rsize)"
        by (cases reply)
      obtain ok w2 where sr: "SendRequest ID_RECV rpath w1 = (ok, w2)"
        by (cases "SendRequest ID_RECV rpath w1")
      from SendRequest_frame(5) [OF sr] obtain e2
        where t2: "trace w2 = trace w1 @ [e2]" "\<not> is_creat e2"
        by blast
      show ?thesis
      proof (cases ok)
        case False
        with ss Some reply sr ret have "w' = w2" by (simp add: sync_recv_def)
        with t1 t2 created show ?thesis
          by (auto simp: new_events_def list_ex_iff)
      next
        case True
        obtain lfd0 w3 where cr: "adb_creat lpath (mkdirs lpath (adb_unlink lpath w2)) = (lfd0, w3)"
          by (cases "adb_creat lpath (mkdirs lpath (adb_unlink lpath w2))")
        show ?thesis
        proof (cases "lfd0 < 0")
          case neg: True
          then have nocreat: "\<not> creat_ok (mkdirs lpath (adb_unlink lpath w2)) lpath"
            using cr by (auto simp: adb_creat_def split: if_splits)
          then have t3: "trace w3 = trace w2 @ [FileUnlink lpath, Mkdirs lpath, FileCreatFail lpath]"
            using cr by (auto simp: adb_creat_def mkdirs_def)
          from ss Some reply sr True cr neg ret
          have "w' = emit (Error ''cannot create '%s': %s'') w3"
            by (simp add: sync_recv_def)
          with t1 t2 t3 created show ?thesis
            by (auto simp: new_events_def list_ex_iff)
        next
          case False
          then have t3: "trace w3 = trace w2 @ [FileUnlink lpath, Mkdirs lpath, FileCreat lpath lfd0]"
            using cr by (auto simp: adb_creat_def mkdirs_def split: if_splits)
          from ss Some reply sr True cr False ret
          have "sync_recv_loop sc rpath lpath lfd0 rsize 0 w3 = (Returns False, sc', w')"
            by (simp add: sync_recv_def)
          from sync_recv_loop_cleanup [OF this]
          obtain evs where c: "files w' lpath = None" "lfd0 \<notin> fst ` set (open_fds w')"
              "trace w' = trace w3 @ evs" "closed_then_unlinked lfd0 lpath evs"
              "\<not> list_ex is_creat evs"
            by (auto simp: cleaned_up_def)
          have ne: "new_events w w' =
              (Print rpath # evs1 @ [e2, FileUnlink lpath, Mkdirs lpath, FileCreat lpath lfd0]) @ evs"
            using t1 t2 t3 c(3) by (simp add: new_events_def)
          have "lfd = lfd0"
            using created t1(2) t2(2) c(5) unfolding ne
            by (auto simp: list_ex_iff)
          moreover have "closed_then_unlinked lfd0 lpath (new_events w w')"
            unfolding ne using c(4) by (rule closed_then_unlinked_append)
          ultimately show ?thesis
            using c(1,2) by simp
        qed
      qed
    qed
  qed
  have B: "(length (sock_in w) < 8 \<longrightarrow>
        (\<exists>v. sync_recv_loop sc rpath lpath lfd rsize bytes_copied w = (Returns False, sc, v)
           \<and> new_events w v = [SockReadShort (sock_in w), FileClose lfd, FileUnlink lpath]
           \<and> files v lpath = None
           \<and> lfd \<notin> fst ` set (open_fds v)))"
  proof (intro impI, (elim conjE)?)
    assume short: "length (sock_in w) < 8"
    then have rd: "ReadFdExactly 8 w = (None, emit (SockReadShort (sock_in w)) (w\<lparr>sock_in := []\<rparr>))"
      by (simp add: ReadFdExactly_def)
    have "sync_recv_loop sc rpath lpath lfd rsize bytes_copied w =
            (Returns False, sc,
             adb_unlink lpath (adb_close lfd (emit (SockReadShort (sock_in w)) (w\<lparr>sock_in := []\<rparr>))))"
      by (subst sync_recv_loop.simps) (simp add: rd)
    then show "\<exists>v. sync_recv_loop sc rpath lpath lfd rsize bytes_copied w = (Returns False, sc, v)
             \<and> new_events w v = [SockReadShort (sock_in w), FileClose lfd, FileUnlink lpath]
             \<and> files v lpath = None
             \<and> lfd \<notin> fst ` set (open_fds v)"
      by (simp add: new_events_def)
  qed
  have C: "(sock_in w = le32 id' @ le32 len @ rest \<and> id' \<noteq> ID_DONE \<and> id' \<noteq> ID_DATA \<longrightarrow>
        (\<exists>v evs. sync_recv_loop sc rpath lpath lfd rsize bytes_copied w = (Returns False, sc, v)
           \<and> new_events w v =
               SockRead (le32 id' @ le32 len) # FileClose lfd # FileUnlink lpath # evs
           \<and> \<not> list_ex is_creat evs
           \<and> files v lpath = None
           \<and> lfd \<notin> fst ` set (open_fds v)))"
  proof (intro impI, (elim conjE)?)
    assume inp: "sock_in w = le32 id' @ le32 len @ rest"
       and nd: "id' \<noteq> ID_DONE" and na: "id' \<noteq> ID_DATA"
    let ?w1 = "emit (SockRead (le32 id' @ le32 len)) (w\<lparr>sock_in := rest\<rparr>)"
    let ?w2 = "adb_unlink lpath (adb_close lfd ?w1)"
    let ?v = "snd (ReportCopyFailure rpath lpath len ?w2)"
    have rd: "ReadFdExactly 8 w = (Some (le32 id' @ le32 len), ?w1)"
      using inp by (simp add: ReadFdExactly_def)
    have run: "sync_recv_loop sc rpath lpath lfd rsize bytes_copied w = (Returns False, sc, ?v)"
      using nd na by (subst sync_recv_loop.simps) (simp add: rd)
    obtain evs where evs: "trace ?v = trace ?w2 @ evs" "\<not> list_ex is_creat evs"
      using ReportCopyFailure_frame(3) by blast
    have "new_events w ?v = SockRead (le32 id' @ le32 len) # FileClose lfd # FileUnlink lpath # evs"
      using evs(1) by (simp add: new_events_def)
    moreover have "files ?v lpath = None"
      by (simp add: ReportCopyFailure_frame)
    moreover have "lfd \<notin> fst ` set (open_fds ?v)"
      by (simp add: ReportCopyFailure_frame)
    ultimately show "\<exists>v evs. sync_recv_loop sc rpath lpath lfd rsize bytes_copied w = (Returns False, sc, v)
             \<and> new_events w v =
                 SockRead (le32 id' @ le32 len) # FileClose lfd # FileUnlink lpath # evs
             \<and> \<not> list_ex is_creat evs
             \<and> files v lpath = None
             \<and> lfd \<notin> fst ` set (open_fds v)"
      using run evs(2) by blast
  qed
  have D: "(sock_in w = le32 ID_DATA @ le32 len @ rest \<and> unat len > max_chunk sc \<longrightarrow>
        (\<exists>v. sync_recv_loop sc rpath lpath lfd rsize bytes_copied w = (Returns False, sc, v)
           \<and> new_events w v =
               [SockRead (le32 ID_DATA @ le32 len),
                Error ''msg.data.size too large: %u (max %zu)'',
                FileClose lfd, FileUnlink lpath]
           \<and> files v lpath = None
           \<and> lfd \<notin> fst ` set (open_fds v)))"
  proof (intro impI, (elim conjE)?)
    assume inp: "sock_in w = le32 ID_DATA @ le32 len @ rest"
       and big: "unat len > max_chunk sc"
    have rd: "ReadFdExactly 8 w =
        (Some (le32 ID_DATA @ le32 len),
         emit (SockRead (le32 ID_DATA @ le32 len)) (w\<lparr>sock_in := rest\<rparr>))"
      using inp by (simp add: ReadFdExactly_def)
    have "sync_recv_loop sc rpath lpath lfd rsize bytes_copied w =
             (Returns False, sc,
              adb_unlink lpath (adb_close lfd
                (emit (Error ''msg.data.size too large: %u (max %zu)'')
                   (emit (SockRead (le32 ID_DATA @ le32 len)) (w\<lparr>sock_in := rest\<rparr>)))))"
      using big by (subst sync_recv_loop.simps) (simp add: rd)
    then show "\<exists>v. sync_recv_loop sc rpath lpath lfd rsize bytes_copied w = (Returns False, sc, v)
             \<and> new_events w v =
                 [SockRead (le32 ID_DATA @ le32 len),
                  Error ''msg.data.size too large: %u (max %zu)'',
                  FileClose lfd, FileUnlink lpath]
             \<and> files v lpath = None
             \<and> lfd \<notin> fst ` set (open_fds v)"
      by (simp add: new_events_def)
  qed
  have E: "(sock_in w = le32 ID_DATA @ le32 len @ rest \<and> unat len \<le> max_chunk sc \<and>
       length rest < unat len \<longrightarrow>
        (\<exists>v. sync_recv_loop sc rpath lpath lfd rsize bytes_copied w = (Returns False, sc, v)
           \<and> new_events w v =
               [SockRead (le32 ID_DATA @ le32 len), SockReadShort rest,
                FileClose lfd, FileUnlink lpath]
           \<and> files v lpath = None
           \<and> lfd \<notin> fst ` set (open_fds v)))"
  proof (intro impI, (elim conjE)?)
    assume inp: "sock_in w = le32 ID_DATA @ le32 len @ rest"
       and ok: "unat len \<le> max_chunk sc"
       and short: "length rest < unat len"
    let ?w1 = "emit (SockRead (le32 ID_DATA @ le32 len)) (w\<lparr>sock_in := rest\<rparr>)"
    let ?w2 = "emit (SockReadShort rest) (?w1\<lparr>sock_in := []\<rparr>)"
    have rd: "ReadFdExactly 8 w = (Some (le32 ID_DATA @ le32 len), ?w1)"
      using inp by (simp add: ReadFdExactly_def)
    have rd2: "ReadFdExactly (unat len) ?w1 = (None, ?w2)"
      using short by (simp add: ReadFdExactly_def)
    have "sync_recv_loop sc rpath lpath lfd rsize bytes_copied w =
             (Returns False, sc, adb_unlink lpath (adb_close lfd ?w2))"
      using ok by (subst sync_recv_loop.simps) (simp add: rd rd2 del: emit_fields)
    then show "\<exists>v. sync_recv_loop sc rpath lpath lfd rsize bytes_copied w = (Returns False, sc, v)
             \<and> new_events w v =
                 [SockRead (le32 ID_DATA @ le32 len), SockReadShort rest,
                  FileClose lfd, FileUnlink lpath]
             \<and> files v lpath = None
             \<and> lfd \<notin> fst ` set (open_fds v)"
      by (simp add: new_events_def)
  qed
  have F: "(sock_in w = le32 ID_DATA @ le32 len @ rest \<and> unat len \<le> max_chunk sc \<and>
       unat len \<le> length rest \<and> map_of (open_fds w) lfd = Some lpath \<and>
       disk_room w < unat len \<longrightarrow>
        (\<exists>v. sync_recv_loop sc rpath lpath lfd rsize bytes_copied w = (Returns False, sc, v)
           \<and> new_events w v =
               [SockRead (le32 ID_DATA @ le32 len), SockRead (take (unat len) rest),
                FileWriteShort lfd (take (disk_room w) (take (unat len) rest)),
                Error ''cannot write '%s': %s'',
                FileClose lfd, FileUnlink lpath]
           \<and> files v lpath = None
           \<and> lfd \<notin> fst ` set (open_fds v)))"
  proof (intro impI, (elim conjE)?)
    assume inp: "sock_in w = le32 ID_DATA @ le32 len @ rest"
       and ok: "unat len \<le> max_chunk sc"
       and enough: "unat len \<le> length rest"
       and dest: "map_of (open_fds w) lfd = Some lpath"
       and full: "disk_room w < unat len"
    define buf where "buf = take (unat len) rest"
    define w1 where "w1 = emit (SockRead (le32 ID_DATA @ le32 len)) (w\<lparr>sock_in := rest\<rparr>)"
    define w2 where "w2 = emit (SockRead buf) (w1\<lparr>sock_in := drop (unat len) rest\<rparr>)"
    define w3 where "w3 = emit (FileWriteShort lfd (take (disk_room w) buf))
                 (w2\<lparr>files := (files w)(lpath :=
                           map_option (append_file (take (disk_room w) buf)) (files w lpath)),
                       disk_room := 0\<rparr>)"
    have rd: "ReadFdExactly 8 w = (Some (le32 ID_DATA @ le32 len), w1)"
      using inp by (simp add: ReadFdExactly_def w1_def)
    have rd2: "ReadFdExactly (unat len) w1 = (Some buf, w2)"
      using enough by (simp add: ReadFdExactly_def w1_def w2_def buf_def)
    have "length buf = unat len"
      using enough by (simp add: buf_def)
    then have wr: "WriteFdExactly_lfd lfd buf w2 = (False, w3)"
      using dest full by (simp add: WriteFdExactly_lfd_def w1_def w2_def w3_def)
    have run: "sync_recv_loop sc rpath lpath lfd rsize bytes_copied w =
             (Returns False, sc,
              adb_unlink lpath (adb_close lfd (emit (Error ''cannot write '%s': %s'') w3)))"
      using ok by (subst sync_recv_loop.simps) (simp add: rd rd2 wr)
    have tr: "trace w3 = trace w @ [SockRead (le32 ID_DATA @ le32 len), SockRead buf,
                FileWriteShort lfd (take (disk_room w) buf)]"
      by (simp add: w1_def w2_def w3_def)
    show "\<exists>v. sync_recv_loop sc rpath lpath lfd rsize bytes_copied w = (Returns False, sc, v)
             \<and> new_events w v =
                 [SockRead (le32 ID_DATA @ le32 len), SockRead (take (unat len) rest),
                  FileWriteShort lfd (take (disk_room w) (take (unat len) rest)),
                  Error ''cannot write '%s': %s'',
                  FileClose lfd, FileUnlink lpath]
             \<and> files v lpath = None
             \<and> lfd \<notin> fst ` set (open_fds v)"
      unfolding run using tr by (simp add: new_events_def buf_def del: take_take)
  qed
  from A B C D E F show ?thesis by (intro conjI)
qed

theorem C2_failed_pull_leaves_no_file_witness:
  "fst (sync_recv fresh_sc ''/r/f'' ''/l/f'' (peer_sends pull_fail_input)) = Returns False
   \<and> FileCreat ''/l/f'' 4
       \<in> set (new_events (peer_sends pull_fail_input)
                (snd (snd (sync_recv fresh_sc ''/r/f'' ''/l/f'' (peer_sends pull_fail_input)))))
   \<and> files (snd (snd (sync_recv fresh_sc ''/r/f'' ''/l/f'' (peer_sends pull_fail_input)))) ''/l/f''
       = None
   \<and> 4 \<notin> fst ` set (open_fds
                (snd (snd (sync_recv fresh_sc ''/r/f'' ''/l/f'' (peer_sends pull_fail_input)))))
   \<and> closed_then_unlinked 4 ''/l/f''
       (new_events (peer_sends pull_fail_input)
          (snd (snd (sync_recv fresh_sc ''/r/f'' ''/l/f'' (peer_sends pull_fail_input)))))
   \<and> length (sock_in (before_frames ''/r/f'' ''/l/f'' (peer_sends short_header_input))) < 8
   \<and> (\<exists>v. sync_recv fresh_sc ''/r/f'' ''/l/f'' (peer_sends short_header_input) = (Returns False, fresh_sc, v)
          \<and> files v ''/l/f'' = None
          \<and> 4 \<notin> fst ` set (open_fds v))
   \<and> sock_in (before_frames ''/r/f'' ''/l/f'' (peer_sends fail_first_input)) = le32 ID_FAIL @ le32 4 @ map of_char ''gone''
   \<and> ID_FAIL \<noteq> ID_DONE
   \<and> ID_FAIL \<noteq> ID_DATA
   \<and> (\<exists>v. sync_recv fresh_sc ''/r/f'' ''/l/f'' (peer_sends fail_first_input) = (Returns False, fresh_sc, v)
          \<and> files v ''/l/f'' = None
          \<and> 4 \<notin> fst ` set (open_fds v))
   \<and> sock_in (before_frames ''/r/f'' ''/l/f'' (peer_sends oversized_input)) = le32 ID_DATA @ le32 65537 @ [1, 2, 3]
   \<and> unat (65537 :: u32) > max_chunk fresh_sc
   \<and> (\<exists>v. sync_recv fresh_sc ''/r/f'' ''/l/f'' (peer_sends oversized_input) = (Returns False, fresh_sc, v)
          \<and> files v ''/l/f'' = None
          \<and> 4 \<notin> fst ` set (open_fds v))
   \<and> sock_in (before_frames ''/r/f'' ''/l/f'' (peer_sends short_payload_input)) = le32 ID_DATA @ le32 3 @ [1, 2]
   \<and> unat (3 :: u32) \<le> max_chunk fresh_sc
   \<and> length [1, 2 :: byte] < unat (3 :: u32)
   \<and> (\<exists>v. sync_recv fresh_sc ''/r/f'' ''/l/f'' (peer_sends short_payload_input) = (Returns False, fresh_sc, v)
          \<and> files v ''/l/f'' = None
          \<and> 4 \<notin> fst ` set (open_fds v))
   \<and> sock_in (before_frames ''/r/f'' ''/l/f'' (full_disk pull_ok_input)) = le32 ID_DATA @ le32 3 @ [1, 2, 3] @ le32 ID_DONE @ le32 0
   \<and> unat (3 :: u32) \<le> max_chunk fresh_sc
   \<and> unat (3 :: u32) \<le> length ([1, 2, 3] @ le32 ID_DONE @ le32 0)
   \<and> map_of (open_fds (before_frames ''/r/f'' ''/l/f'' (full_disk pull_ok_input))) 4 = Some ''/l/f''
   \<and> disk_room (before_frames ''/r/f'' ''/l/f'' (full_disk pull_ok_input)) < unat (3 :: u32)
   \<and> (\<exists>v. sync_recv fresh_sc ''/r/f'' ''/l/f'' (full_disk pull_ok_input) = (Returns False, fresh_sc, v)
          \<and> files v ''/l/f'' = None
          \<and> 4 \<notin> fst ` set (open_fds v))"
proof -
  let ?r = "sync_recv fresh_sc ''/r/f'' ''/l/f'' (peer_sends pull_fail_input)"
  have r: "fst ?r = Returns False"
    by (simp add: run_defs pull_fail_input_def sync_recv_loop.simps)
  then have eq: "?r = (Returns False, fst (snd ?r), snd (snd ?r))"
    by (simp add: prod_eq_iff)
  have cr: "FileCreat ''/l/f'' 4 \<in> set (new_events (peer_sends pull_fail_input) (snd (snd ?r)))"
    by (simp add: run_defs pull_fail_input_def sync_recv_loop.simps)
  from C2_failed_pull_leaves_no_file [where sc = fresh_sc and rpath = "''/r/f''"
      and lpath = "''/l/f''" and w = "peer_sends pull_fail_input" and sc' = "fst (snd ?r)"
      and w' = "snd (snd ?r)" and lfd = 4, THEN conjunct1, THEN mp, OF conjI, OF eq cr]
  have a: "files (snd (snd ?r)) ''/l/f'' = None
       \<and> 4 \<notin> fst ` set (open_fds (snd (snd ?r)))
       \<and> closed_then_unlinked 4 ''/l/f'' (new_events (peer_sends pull_fail_input) (snd (snd ?r)))" .
  have b0: "length (sock_in (before_frames ''/r/f'' ''/l/f'' (peer_sends short_header_input))) < 8"
    by (simp add: before_frames_def short_header_input_def run_defs ID_FAIL_def)
  have bc: "sync_recv fresh_sc ''/r/f'' ''/l/f'' (peer_sends short_header_input) =
      sync_recv_loop fresh_sc ''/r/f'' ''/l/f'' 4 3 0 (before_frames ''/r/f'' ''/l/f'' (peer_sends short_header_input))"
    by (simp add: before_frames_def short_header_input_def run_defs)
  from C2_failed_pull_leaves_no_file [where sc = fresh_sc and rpath = "''/r/f''"
      and lpath = "''/l/f''" and w = "before_frames ''/r/f'' ''/l/f'' (peer_sends short_header_input)" and lfd = 4 and rsize = 3
      and bytes_copied = 0, THEN conjunct2, THEN conjunct1] b0
  have bz: "(\<exists>v. sync_recv fresh_sc ''/r/f'' ''/l/f'' (peer_sends short_header_input) = (Returns False, fresh_sc, v)
          \<and> files v ''/l/f'' = None
          \<and> 4 \<notin> fst ` set (open_fds v))"
    unfolding bc by blast
  have c0: "sock_in (before_frames ''/r/f'' ''/l/f'' (peer_sends fail_first_input)) = le32 ID_FAIL @ le32 4 @ map of_char ''gone''"
    by (simp add: before_frames_def fail_first_input_def run_defs ID_FAIL_def)
  have c1: "ID_FAIL \<noteq> ID_DONE"
    by (simp add: before_frames_def fail_first_input_def run_defs ID_FAIL_def)
  have c2: "ID_FAIL \<noteq> ID_DATA"
    by (simp add: before_frames_def fail_first_input_def run_defs ID_FAIL_def)
  have cc: "sync_recv fresh_sc ''/r/f'' ''/l/f'' (peer_sends fail_first_input) =
      sync_recv_loop fresh_sc ''/r/f'' ''/l/f'' 4 3 0 (before_frames ''/r/f'' ''/l/f'' (peer_sends fail_first_input))"
    by (simp add: before_frames_def fail_first_input_def run_defs)
  from C2_failed_pull_leaves_no_file [where sc = fresh_sc and rpath = "''/r/f''"
      and lpath = "''/l/f''" and w = "before_frames ''/r/f'' ''/l/f'' (peer_sends fail_first_input)" and lfd = 4 and rsize = 3
      and bytes_copied = 0 and id' = ID_FAIL and len = 4 and rest = "map of_char ''gone''", THEN conjunct2, THEN conjunct2, THEN conjunct1] c0 c1 c2
  have cz: "(\<exists>v. sync_recv fresh_sc ''/r/f'' ''/l/f'' (peer_sends fail_first_input) = (Returns False, fresh_sc, v)
          \<and> files v ''/l/f'' = None
          \<and> 4 \<notin> fst ` set (open_fds v))"
    unfolding cc by blast
  have d0: "sock_in (before_frames ''/r/f'' ''/l/f'' (peer_sends oversized_input)) = le32 ID_DATA @ le32 65537 @ [1, 2, 3]"
    by (simp add: before_frames_def oversized_input_def run_defs ID_FAIL_def)
  have d1: "unat (65537 :: u32) > max_chunk fresh_sc"
    by (simp add: before_frames_def oversized_input_def run_defs ID_FAIL_def)
  have dc: "sync_recv fresh_sc ''/r/f'' ''/l/f'' (peer_sends oversized_input) =
      sync_recv_loop fresh_sc ''/r/f'' ''/l/f'' 4 70000 0 (before_frames ''/r/f'' ''/l/f'' (peer_sends oversized_input))"
    by (simp add: before_frames_def oversized_input_def run_defs)
  from C2_failed_pull_leaves_no_file [where sc = fresh_sc and rpath = "''/r/f''"
      and lpath = "''/l/f''" and w = "before_frames ''/r/f'' ''/l/f'' (peer_sends oversized_input)" and lfd = 4 and rsize = 70000
      and bytes_copied = 0 and len = 65537 and rest = "[1, 2, 3]", THEN conjunct2, THEN conjunct2, THEN conjunct2, THEN conjunct1] d0 d1
  have dz: "(\<exists>v. sync_recv fresh_sc ''/r/f'' ''/l/f'' (peer_sends oversized_input) = (Returns False, fresh_sc, v)
          \<and> files v ''/l/f'' = None
          \<and> 4 \<notin> fst ` set (open_fds v))"
    unfolding dc by blast
  have e0: "sock_in (before_frames ''/r/f'' ''/l/f'' (peer_sends short_payload_input)) = le32 ID_DATA @ le32 3 @ [1, 2]"
    by (simp add: before_frames_def short_payload_input_def run_defs ID_FAIL_def)
  have e1: "unat (3 :: u32) \<le> max_chunk fresh_sc"
    by (simp add: before_frames_def short_payload_input_def run_defs ID_FAIL_def)
  have e2: "length [1, 2 :: byte] < unat (3 :: u32)"
    by (simp add: before_frames_def short_payload_input_def run_defs ID_FAIL_def)
  have ec: "sync_recv fresh_sc ''/r/f'' ''/l/f'' (peer_sends short_payload_input) =
      sync_recv_loop fresh_sc ''/r/f'' ''/l/f'' 4 3 0 (before_frames ''/r/f'' ''/l/f'' (peer_sends short_payload_input))"
    by (simp add: before_frames_def short_payload_input_def run_defs)
  from C2_failed_pull_leaves_no_file [where sc = fresh_sc and rpath = "''/r/f''"
      and lpath = "''/l/f''" and w = "before_frames ''/r/f'' ''/l/f'' (peer_sends short_payload_input)" and lfd = 4 and rsize = 3
      and bytes_copied = 0 and len = 3 and rest = "[1, 2]", THEN conjunct2, THEN conjunct2, THEN conjunct2, THEN conjunct2, THEN conjunct1] e0 e1 e2
  have ez: "(\<exists>v. sync_recv fresh_sc ''/r/f'' ''/l/f'' (peer_sends short_payload_input) = (Returns False, fresh_sc, v)
          \<and> files v ''/l/f'' = None
          \<and> 4 \<notin> fst ` set (open_fds v))"
    unfolding ec by blast
  have f0: "sock_in (before_frames ''/r/f'' ''/l/f'' (full_disk pull_ok_input)) = le32 ID_DATA @ le32 3 @ [1, 2, 3] @ le32 ID_DONE @ le32 0"
    by (simp add: before_frames_def pull_ok_input_def full_disk_def run_defs ID_FAIL_def)
  have f1: "unat (3 :: u32) \<le> max_chunk fresh_sc"
    by (simp add: before_frames_def pull_ok_input_def full_disk_def run_defs ID_FAIL_def)
  have f2: "unat (3 :: u32) \<le> length ([1, 2, 3] @ le32 ID_DONE @ le32 0)"
    by (simp add: before_frames_def pull_ok_input_def full_disk_def run_defs ID_FAIL_def)
  have f3: "map_of (open_fds (before_frames ''/r/f'' ''/l/f'' (full_disk pull_ok_input))) 4 = Some ''/l/f''"
    by (simp add: before_frames_def pull_ok_input_def full_disk_def run_defs ID_FAIL_def)
  have f4: "disk_room (before_frames ''/r/f'' ''/l/f'' (full_disk pull_ok_input)) < unat (3 :: u32)"
    by (simp add: before_frames_def pull_ok_input_def full_disk_def run_defs ID_FAIL_def)
  have fc: "sync_recv fresh_sc ''/r/f'' ''/l/f'' (full_disk pull_ok_input) =
      sync_recv_loop fresh_sc ''/r/f'' ''/l/f'' 4 3 0 (before_frames ''/r/f'' ''/l/f'' (full_disk pull_ok_input))"
    by (simp add: before_frames_def pull_ok_input_def full_disk_def run_defs)
  from C2_failed_pull_leaves_no_file [where sc = fresh_sc and rpath = "''/r/f''"
      and lpath = "''/l/f''" and w = "before_frames ''/r/f'' ''/l/f'' (full_disk pull_ok_input)" and lfd = 4 and rsize = 3
      and bytes_copied = 0 and len = 3 and rest = "[1, 2, 3] @ le32 ID_DONE @ le32 0", THEN conjunct2, THEN conjunct2, THEN conjunct2, THEN conjunct2, THEN conjunct2] f0 f1 f2 f3 f4
  have fz: "(\<exists>v. sync_recv fresh_sc ''/r/f'' ''/l/f'' (full_disk pull_ok_input) = (Returns False, fresh_sc, v)
          \<and> files v ''/l/f'' = None
          \<and> 4 \<notin> fst ` set (open_fds v))"
    unfolding fc by blast
  note a1 = a [THEN conjunct1] and a2 = a [THEN conjunct2, THEN conjunct1]
    and a3 = a [THEN conjunct2, THEN conjunct2]
  from r cr a1 a2 a3 b0 bz c0 c1 c2 cz d0 d1 dz e0 e1 e2 ez f0 f1 f2 f3 f4 fz show ?thesis by (intro conjI)
qed

subsection \<open>C3: an oversized DATA frame is fatal\<close>

text \<open>
  C3. When the receive loop of \<open>sync_recv\<close> reads a DATA header whose length field exceeds
  the connection's \<open>max\<close>, it reports the error, closes the destination descriptor, unlinks
  the destination and returns false; nothing after the 8-byte header is read from the
  stream (the payload \<open>rest\<close> is still there), and the byte counter is unchanged.
\<close>

theorem C3_oversized_data_is_fatal:
  assumes "sock_in w = le32 ID_DATA @ le32 len @ rest"
      and "unat len > max_chunk sc"
  shows "\<exists>w'. sync_recv_loop sc rpath lpath lfd rsize bytes_copied w = (Returns False, sc, w')
        \<and> new_events w w' =
            [SockRead (le32 ID_DATA @ le32 len),
             Error ''msg.data.size too large: %u (max %zu)'',
             FileClose lfd, FileUnlink lpath]
        \<and> sock_in w' = rest
        \<and> files w' lpath = None
        \<and> lfd \<notin> fst ` set (open_fds w')"
proof -
  have rd: "ReadFdExactly 8 w =
      (Some (le32 ID_DATA @ le32 len),
       emit (SockRead (le32 ID_DATA @ le32 len)) (w\<lparr>sock_in := rest\<rparr>))"
    using assms(1) by (simp add: ReadFdExactly_def)
  have ne: "ID_DATA \<noteq> ID_DONE"
    by (simp add: ID_DATA_def ID_DONE_def)
  have "sync_recv_loop sc rpath lpath lfd rsize bytes_copied w =
           (Returns False, sc,
            adb_unlink lpath (adb_close lfd
              (emit (Error ''msg.data.size too large: %u (max %zu)'')
                 (emit (SockRead (le32 ID_DATA @ le32 len)) (w\<lparr>sock_in := rest\<rparr>)))))"
    using assms(2) ne
    by (subst sync_recv_loop.simps) (simp add: rd)
  then show ?thesis
    by (simp add: new_events_def)
qed

theorem C3_oversized_data_is_fatal_witness:
  "sock_in (before_frames ''/r/f'' ''/l/f'' (peer_sends oversized_input))
     = le32 ID_DATA @ le32 65537 @ [1, 2, 3]
   \<and> unat (65537 :: u32) > max_chunk fresh_sc
   \<and> sync_recv fresh_sc ''/r/f'' ''/l/f'' (peer_sends oversized_input) =
       sync_recv_loop fresh_sc ''/r/f'' ''/l/f'' 4 70000 0
         (before_frames ''/r/f'' ''/l/f'' (peer_sends oversized_input))
   \<and> (\<exists>w'. sync_recv fresh_sc ''/r/f'' ''/l/f'' (peer_sends oversized_input)
              = (Returns False, fresh_sc, w')
          \<and> sock_in w' = [1, 2, 3]
          \<and> files w' ''/l/f'' = None
          \<and> 4 \<notin> fst ` set (open_fds w'))"
proof -
  let ?W = "before_frames ''/r/f'' ''/l/f'' (peer_sends oversized_input)"
  have a: "sock_in ?W = le32 ID_DATA @ le32 65537 @ [1, 2, 3]"
    by (simp add: before_frames_def oversized_input_def run_defs)
  have b: "unat (65537 :: u32) > max_chunk fresh_sc"
    by (simp add: fresh_sc_def SYNC_DATA_MAX_def)
  have c: "sync_recv fresh_sc ''/r/f'' ''/l/f'' (peer_sends oversized_input) =
      sync_recv_loop fresh_sc ''/r/f'' ''/l/f'' 4 70000 0 ?W"
    by (simp add: before_frames_def oversized_input_def run_defs)
  from C3_oversized_data_is_fatal [OF a b, of "''/r/f''" "''/l/f''" 4 70000 0]
  have d: "\<exists>w'. sync_recv fresh_sc ''/r/f'' ''/l/f'' (peer_sends oversized_input)
              = (Returns False, fresh_sc, w')
          \<and> sock_in w' = [1, 2, 3]
          \<and> files w' ''/l/f'' = None
          \<and> 4 \<notin> fst ` set (open_fds w')"
    unfolding c by blast
  from a b c d show ?thesis by (intro conjI)
qed

subsection \<open>C4: over-long paths are rejected before anything is written\<close>

text \<open>
  C4. A request whose path, and a small-file send whose \<open>path,mode\<close> string, is longer than
  1024 bytes returns false, and nothing is written to the stream: no write event is added to
  the trace and the stream's state (what it still accepts, what the peer still delivers) is
  as before.
\<close>

theorem C4_path_too_long:
  assumes "length path_and_mode > 1024"
  shows "fst (SendRequest id' path_and_mode w) = False
       \<and> new_events w (snd (SendRequest id' path_and_mode w))
           = [Error ''SendRequest failed: path too long: %zu'']
       \<and> sock_room (snd (SendRequest id' path_and_mode w)) = sock_room w
       \<and> sock_in (snd (SendRequest id' path_and_mode w)) = sock_in w
       \<and> fst (SendSmallFile sc path_and_mode rpath data mtime w) = False
       \<and> new_events w (snd (snd (SendSmallFile sc path_and_mode rpath data mtime w)))
           = [Print rpath, Error ''SendSmallFile failed: path too long: %zu'']
       \<and> sock_room (snd (snd (SendSmallFile sc path_and_mode rpath data mtime w))) = sock_room w
       \<and> sock_in (snd (snd (SendSmallFile sc path_and_mode rpath data mtime w))) = sock_in w"
  using assms by (simp add: SendRequest_def SendSmallFile_def new_events_def)

theorem C4_path_too_long_witness:
  "length (replicate 1025 (CHR ''a'')) > 1024
   \<and> fst (SendRequest ID_STAT (replicate 1025 (CHR ''a'')) (peer_sends [])) = False
   \<and> new_events (peer_sends []) (snd (SendRequest ID_STAT (replicate 1025 (CHR ''a'')) (peer_sends [])))
       = [Error ''SendRequest failed: path too long: %zu'']
   \<and> sock_room (snd (SendRequest ID_STAT (replicate 1025 (CHR ''a'')) (peer_sends [])))
       = sock_room (peer_sends [])
   \<and> fst (SendSmallFile fresh_sc (replicate 1025 (CHR ''a'')) ''/r/x'' [1, 2, 3] 42 (peer_sends []))
       = False
   \<and> sock_room (snd (snd (SendSmallFile fresh_sc (replicate 1025 (CHR ''a'')) ''/r/x'' [1, 2, 3] 42
                             (peer_sends []))))
       = sock_room (peer_sends [])"
  using C4_path_too_long [of "replicate 1025 (CHR ''a'')" ID_STAT "peer_sends []" fresh_sc
                             "''/r/x''" "[1, 2, 3]" 42]
  by simp

subsection \<open>C5: files below \<open>SYNC_DATA_MAX\<close> go in one burst, the others in chunks\<close>

text \<open>
  C5. For a regular local file that \<open>stat\<close> finds: when its \<open>st_size\<close> is below
  \<open>SYNC_DATA_MAX\<close> (and the file can be read), \<open>sync_send\<close> is \<open>SendSmallFile\<close> followed by
  \<open>CopyDone\<close>, and (the \<open>path,mode\<close> string being at most 1024 bytes and the stream
  accepting the burst) its first events are the print of the path and one single write of
  SEND, path, DATA, the whole file and DONE; when its \<open>st_size\<close> is \<open>SYNC_DATA_MAX\<close> or more,
  \<open>sync_send\<close> is \<open>SendLargeFile\<close> followed by \<open>CopyDone\<close>, and its first event is the
  write of the SEND request alone. A size of \<open>SYNC_DATA_MAX - 1\<close> is on the first side, a
  size of \<open>SYNC_DATA_MAX\<close> on the second.
  The chunked form, for a file of \<open>SYNC_DATA_MAX\<close> bytes or more that can be opened and
  read, and a stream that accepts the bytes: \<open>SendLargeFile\<close> returns true, and its events
  are exactly the write of the SEND request, the opening of the file, then for every chunk of
  the file one DATA frame and the progress print, then the closing of the file and the write
  of DONE with the mtime; \<open>sync_send\<close> is \<open>CopyDone\<close> on what \<open>SendLargeFile\<close> left. The
  chunks are not empty, hold at most \<open>max\<close> bytes each and, put end to end, are the
  contents of the file.
\<close>

theorem C5_small_large_boundary:
  assumes "S_ISREG m" and "files w lpath = Some f"
  shows "(sint (st_size f) < int SYNC_DATA_MAX \<and> ReadFileToString f = Some data \<longrightarrow>
            sync_send sc lpath rpath mtime m w =
              then_CopyDone lpath rpath
                (case SendSmallFile sc (rpath @ '','' @ dec_int (sint m)) rpath data mtime w of
                   (ok, sc1, w1) \<Rightarrow> (Returns ok, sc1, w1)))
       \<and> (sint (st_size f) < int SYNC_DATA_MAX \<and> ReadFileToString f = Some data
            \<and> length (rpath @ '','' @ dec_int (sint m)) \<le> 1024
            \<and> length (small_file_burst (rpath @ '','' @ dec_int (sint m)) data mtime) \<le> sock_room w \<longrightarrow>
            (\<exists>evs. new_events w (snd (snd (sync_send sc lpath rpath mtime m w))) =
                     Print rpath #
                     SockWrite (small_file_burst (rpath @ '','' @ dec_int (sint m)) data mtime) # evs))
       \<and> (int SYNC_DATA_MAX \<le> sint (st_size f) \<longrightarrow>
            sync_send sc lpath rpath mtime m w =
              then_CopyDone lpath rpath
                (SendLargeFile sc (rpath @ '','' @ dec_int (sint m)) lpath rpath mtime w))
       \<and> (int SYNC_DATA_MAX \<le> sint (st_size f)
            \<and> length (rpath @ '','' @ dec_int (sint m)) \<le> 1024
            \<and> length (send_request (rpath @ '','' @ dec_int (sint m))) \<le> sock_room w \<longrightarrow>
            (\<exists>evs. new_events w (snd (snd (sync_send sc lpath rpath mtime m w))) =
                     SockWrite (send_request (rpath @ '','' @ dec_int (sint m))) # evs))
       \<and> (st_size f = of_nat (SYNC_DATA_MAX - 1) \<longrightarrow> sint (st_size f) < int SYNC_DATA_MAX)
       \<and> (st_size f = of_nat SYNC_DATA_MAX \<longrightarrow> int SYNC_DATA_MAX \<le> sint (st_size f))
       \<and> (int SYNC_DATA_MAX \<le> sint (st_size f) \<and> readable f \<and> read_fail f = None
            \<and> length (rpath @ '','' @ dec_int (sint m)) \<le> 1024
            \<and> length (send_request (rpath @ '','' @ dec_int (sint m))) +
                stream_room (chunks (max_chunk sc) (contents f)) + 8 \<le> sock_room w \<longrightarrow>
            (\<exists>sc1 w1.
                SendLargeFile sc (rpath @ '','' @ dec_int (sint m)) lpath rpath mtime w =
                  (Returns True, sc1, w1)
              \<and> new_events w w1 =
                  SockWrite (send_request (rpath @ '','' @ dec_int (sint m))) #
                  FileOpen lpath (int (next_fd w)) #
                  stream_events rpath (st_size f) 0 (chunks (max_chunk sc) (contents f)) @
                  [FileClose (int (next_fd w)), SockWrite (le32 ID_DONE @ le32 mtime)]
              \<and> sync_send sc lpath rpath mtime m w =
                  (case CopyDone lpath rpath w1 of (ok, w2) \<Rightarrow> (Returns ok, sc1, w2))))
       \<and> (0 < max_chunk sc \<longrightarrow> concat (chunks (max_chunk sc) (contents f)) = contents f)
       \<and> list_all (\<lambda>c. c \<noteq> [] \<and> length c \<le> max_chunk sc) (chunks (max_chunk sc) (contents f))"
proof -
  let ?pm = "rpath @ '','' @ dec_int (sint m)"
  note nl = regular_not_symlink [OF assms(1)]
  have small: "sync_send sc lpath rpath mtime m w =
              then_CopyDone lpath rpath
                (case SendSmallFile sc ?pm rpath data mtime w of
                   (ok, sc1, w1) \<Rightarrow> (Returns ok, sc1, w1))"
    if "sint (st_size f) < int SYNC_DATA_MAX" "ReadFileToString f = Some data"
    using that assms nl
    by (auto simp: sync_send_def then_CopyDone_def Let_def split: prod.splits bool.splits)
  have large: "sync_send sc lpath rpath mtime m w =
              then_CopyDone lpath rpath (SendLargeFile sc ?pm lpath rpath mtime w)"
    if "int SYNC_DATA_MAX \<le> sint (st_size f)"
    using that assms nl
    by (auto simp: sync_send_def then_CopyDone_def Let_def split: prod.splits bool.splits outcome.splits)
  have small_obs: "\<exists>evs. new_events w (snd (snd (sync_send sc lpath rpath mtime m w))) =
                     Print rpath # SockWrite (small_file_burst ?pm data mtime) # evs"
    if c: "sint (st_size f) < int SYNC_DATA_MAX" "ReadFileToString f = Some data"
      and l: "length ?pm \<le> 1024" "length (small_file_burst ?pm data mtime) \<le> sock_room w"
  proof -
    let ?w1 = "emit (SockWrite (small_file_burst ?pm data mtime))
                 ((emit (Print rpath) w)\<lparr>sock_room := sock_room w - length (small_file_burst ?pm data mtime)\<rparr>)"
    have "SendSmallFile sc ?pm rpath data mtime w =
            (True, sc\<lparr>total_bytes := total_bytes sc + of_nat (length data)\<rparr>, ?w1)"
      using l by (simp add: SendSmallFile_def WriteFdExactly_def small_file_burst_def Let_def)
    with small [OF c] have "sync_send sc lpath rpath mtime m w =
        then_CopyDone lpath rpath (Returns True, sc\<lparr>total_bytes := total_bytes sc + of_nat (length data)\<rparr>, ?w1)"
      by simp
    moreover obtain evs where "trace (snd (snd (then_CopyDone lpath rpath
        (Returns True, sc\<lparr>total_bytes := total_bytes sc + of_nat (length data)\<rparr>, ?w1)))) = trace ?w1 @ evs"
      using then_CopyDone_extends by blast
    ultimately have "new_events w (snd (snd (sync_send sc lpath rpath mtime m w))) =
        Print rpath # SockWrite (small_file_burst ?pm data mtime) # evs"
      by (simp add: new_events_def)
    then show ?thesis ..
  qed
  have large_obs: "\<exists>evs. new_events w (snd (snd (sync_send sc lpath rpath mtime m w))) =
                     SockWrite (send_request ?pm) # evs"
    if c: "int SYNC_DATA_MAX \<le> sint (st_size f)"
      and l: "length ?pm \<le> 1024" "length (send_request ?pm) \<le> sock_room w"
  proof -
    let ?w1 = "emit (SockWrite (send_request ?pm)) (w\<lparr>sock_room := sock_room w - length (send_request ?pm)\<rparr>)"
    have sr: "SendRequest ID_SEND ?pm w = (True, ?w1)"
      using l by (simp add: SendRequest_def WriteFdExactly_def send_request_def Let_def)
    obtain r sc1 w2 where L: "SendLargeFile sc ?pm lpath rpath mtime w = (r, sc1, w2)"
      by (cases "SendLargeFile sc ?pm lpath rpath mtime w")
    from SendLargeFile_after_request [OF sr L] obtain evs1 where t2: "trace w2 = trace ?w1 @ evs1" ..
    obtain evs2 where "trace (snd (snd (then_CopyDone lpath rpath (r, sc1, w2)))) = trace w2 @ evs2"
      using then_CopyDone_extends by blast
    with t2 large [OF c] L have "new_events w (snd (snd (sync_send sc lpath rpath mtime m w))) =
        SockWrite (send_request ?pm) # (evs1 @ evs2)"
      by (simp add: new_events_def)
    then show ?thesis ..
  qed
  have b1: "st_size f = of_nat (SYNC_DATA_MAX - 1) \<longrightarrow> sint (st_size f) < int SYNC_DATA_MAX"
    by (simp add: SYNC_DATA_MAX_def)
  have b2: "st_size f = of_nat SYNC_DATA_MAX \<longrightarrow> int SYNC_DATA_MAX \<le> sint (st_size f)"
    by (simp add: SYNC_DATA_MAX_def)
  have stream: "\<exists>sc1 w1.
                SendLargeFile sc ?pm lpath rpath mtime w = (Returns True, sc1, w1)
              \<and> new_events w w1 =
                  SockWrite (send_request ?pm) # FileOpen lpath (int (next_fd w)) #
                  stream_events rpath (st_size f) 0 (chunks (max_chunk sc) (contents f)) @
                  [FileClose (int (next_fd w)), SockWrite (le32 ID_DONE @ le32 mtime)]
              \<and> sync_send sc lpath rpath mtime m w =
                  (case CopyDone lpath rpath w1 of (ok, w2) \<Rightarrow> (Returns ok, sc1, w2))"
    if c: "int SYNC_DATA_MAX \<le> sint (st_size f)" and r: "readable f" "read_fail f = None"
      and l: "length ?pm \<le> 1024"
        "length (send_request ?pm) + stream_room (chunks (max_chunk sc) (contents f)) + 8 \<le> sock_room w"
  proof -
    have nz: "st_size f \<noteq> 0"
      using c by (auto simp: SYNC_DATA_MAX_def)
    from SendLargeFile_streams [OF assms(2) nz r l, of rpath mtime]
    obtain sc1 w1 where L: "SendLargeFile sc ?pm lpath rpath mtime w = (Returns True, sc1, w1)"
      and E: "new_events w w1 =
                  SockWrite (send_request ?pm) # FileOpen lpath (int (next_fd w)) #
                  stream_events rpath (st_size f) 0 (chunks (max_chunk sc) (contents f)) @
                  [FileClose (int (next_fd w)), SockWrite (le32 ID_DONE @ le32 mtime)]"
      by blast
    have "sync_send sc lpath rpath mtime m w =
            (case CopyDone lpath rpath w1 of (ok, w2) \<Rightarrow> (Returns ok, sc1, w2))"
      unfolding large [OF c] L by (simp add: then_CopyDone_def)
    with L E show ?thesis by blast
  qed
  have cc: "0 < max_chunk sc \<longrightarrow> concat (chunks (max_chunk sc) (contents f)) = contents f"
    by (simp add: concat_chunks)
  note cb = chunks_bounded [of "max_chunk sc" "contents f"]
  have c1: "sint (st_size f) < int SYNC_DATA_MAX \<and> ReadFileToString f = Some data \<longrightarrow>
            sync_send sc lpath rpath mtime m w =
              then_CopyDone lpath rpath
                (case SendSmallFile sc ?pm rpath data mtime w of
                   (ok, sc1, w1) \<Rightarrow> (Returns ok, sc1, w1))"
    using small by blast
  have c2: "sint (st_size f) < int SYNC_DATA_MAX \<and> ReadFileToString f = Some data
            \<and> length ?pm \<le> 1024
            \<and> length (small_file_burst ?pm data mtime) \<le> sock_room w \<longrightarrow>
            (\<exists>evs. new_events w (snd (snd (sync_send sc lpath rpath mtime m w))) =
                     Print rpath # SockWrite (small_file_burst ?pm data mtime) # evs)"
    using small_obs by blast
  have c3: "int SYNC_DATA_MAX \<le> sint (st_size f) \<longrightarrow>
            sync_send sc lpath rpath mtime m w =
              then_CopyDone lpath rpath (SendLargeFile sc ?pm lpath rpath mtime w)"
    using large by blast
  have c4: "int SYNC_DATA_MAX \<le> sint (st_size f)
            \<and> length ?pm \<le> 1024
            \<and> length (send_request ?pm) \<le> sock_room w \<longrightarrow>
            (\<exists>evs. new_events w (snd (snd (sync_send sc lpath rpath mtime m w))) =
                     SockWrite (send_request ?pm) # evs)"
    using large_obs by blast
  have c7: "int SYNC_DATA_MAX \<le> sint (st_size f) \<and> readable f \<and> read_fail f = None
            \<and> length ?pm \<le> 1024
            \<and> length (send_request ?pm) +
                stream_room (chunks (max_chunk sc) (contents f)) + 8 \<le> sock_room w \<longrightarrow>
            (\<exists>sc1 w1.
                SendLargeFile sc ?pm lpath rpath mtime w = (Returns True, sc1, w1)
              \<and> new_events w w1 =
                  SockWrite (send_request ?pm) # FileOpen lpath (int (next_fd w)) #
                  stream_events rpath (st_size f) 0 (chunks (max_chunk sc) (contents f)) @
                  [FileClose (int (next_fd w)), SockWrite (le32 ID_DONE @ le32 mtime)]
              \<and> sync_send sc lpath rpath mtime m w =
                  (case CopyDone lpath rpath w1 of (ok, w2) \<Rightarrow> (Returns ok, sc1, w2)))"
    using stream by blast
  from c1 c2 c3 c4 b1 b2 c7 cc cb show ?thesis by (intro conjI)
qed



theorem C5_small_large_boundary_witness:
  "S_ISREG 0x81A4
   \<and> (\<exists>evs. new_events (boundary_world (SYNC_DATA_MAX - 1))
               (snd (snd (sync_send fresh_sc ''/l/big'' ''/r/big'' 42 0x81A4
                            (boundary_world (SYNC_DATA_MAX - 1))))) =
             Print ''/r/big'' #
             SockWrite (small_file_burst ''/r/big,33188'' (replicate (SYNC_DATA_MAX - 1) 7) 42) # evs)
   \<and> (\<exists>evs. new_events (boundary_world SYNC_DATA_MAX)
               (snd (snd (sync_send fresh_sc ''/l/big'' ''/r/big'' 42 0x81A4
                            (boundary_world SYNC_DATA_MAX)))) =
             SockWrite (send_request ''/r/big,33188'') # evs)
   \<and> (\<exists>sc1 w1.
         SendLargeFile fresh_sc ''/r/big,33188'' ''/l/big'' ''/r/big'' 42 (boundary_world SYNC_DATA_MAX)
           = (Returns True, sc1, w1)
       \<and> new_events (boundary_world SYNC_DATA_MAX) w1 =
           [SockWrite (send_request ''/r/big,33188''), FileOpen ''/l/big'' 4,
            SockWrite (data_frame (replicate SYNC_DATA_MAX 7)), Progress ''/r/big'' 100,
            FileClose 4, SockWrite (le32 ID_DONE @ le32 42)]
       \<and> sync_send fresh_sc ''/l/big'' ''/r/big'' 42 0x81A4 (boundary_world SYNC_DATA_MAX) =
           (case CopyDone ''/l/big'' ''/r/big'' w1 of (ok, w2) \<Rightarrow> (Returns ok, sc1, w2)))
   \<and> (\<exists>sc1 w1.
         SendLargeFile fresh_sc ''/r/big,33188'' ''/l/big'' ''/r/big'' 42
           (boundary_world (SYNC_DATA_MAX + 1)) = (Returns True, sc1, w1)
       \<and> new_events (boundary_world (SYNC_DATA_MAX + 1)) w1 =
           [SockWrite (send_request ''/r/big,33188''), FileOpen ''/l/big'' 4,
            SockWrite (data_frame (replicate SYNC_DATA_MAX 7)), Progress ''/r/big'' 99,
            SockWrite (data_frame [7]), Progress ''/r/big'' 100,
            FileClose 4, SockWrite (le32 ID_DONE @ le32 42)])
   \<and> 0 < max_chunk fresh_sc
   \<and> concat (chunks (max_chunk fresh_sc) (replicate (SYNC_DATA_MAX + 1) 7))
       = replicate (SYNC_DATA_MAX + 1) 7"
proof -
  let ?f = "\<lambda>n. \<lparr>st_size = of_nat n, contents = replicate n (7 :: byte), readable = True,
                  read_fail = None\<rparr>"
  have reg: "S_ISREG 0x81A4"
    by (simp add: S_ISREG_def S_IFMT_def S_IFREG_def)
  have pm: "''/r/big'' @ '','' @ dec_int (sint (0x81A4 :: u32)) = ''/r/big,33188''"
    by (simp add: dec_int_def char_of_def bit_0)
  have f1: "files (boundary_world (SYNC_DATA_MAX - 1)) ''/l/big'' = Some (?f (SYNC_DATA_MAX - 1))"
    by (simp add: boundary_world_def peer_sends_def)
  have f2: "files (boundary_world SYNC_DATA_MAX) ''/l/big'' = Some (?f SYNC_DATA_MAX)"
    by (simp add: boundary_world_def peer_sends_def)
  have f3: "files (boundary_world (SYNC_DATA_MAX + 1)) ''/l/big'' = Some (?f (SYNC_DATA_MAX + 1))"
    by (simp add: boundary_world_def peer_sends_def)
  have s1: "sint (st_size (?f (SYNC_DATA_MAX - 1))) < int SYNC_DATA_MAX"
    by (simp add: SYNC_DATA_MAX_def)
  have s2: "int SYNC_DATA_MAX \<le> sint (st_size (?f SYNC_DATA_MAX))"
    by (simp add: SYNC_DATA_MAX_def)
  have s3: "int SYNC_DATA_MAX \<le> sint (st_size (?f (SYNC_DATA_MAX + 1)))"
    by (simp add: SYNC_DATA_MAX_def)
  have rf: "ReadFileToString (?f (SYNC_DATA_MAX - 1)) = Some (replicate (SYNC_DATA_MAX - 1) 7)"
    by (simp add: ReadFileToString_def)
  have l1: "length ''/r/big,33188'' \<le> 1024" by simp
  have l2: "length (small_file_burst ''/r/big,33188'' (replicate (SYNC_DATA_MAX - 1) 7) 42)
              \<le> sock_room (boundary_world (SYNC_DATA_MAX - 1))"
    by (simp add: small_file_burst_def boundary_world_def peer_sends_def SYNC_DATA_MAX_def)
  have l3: "length (send_request ''/r/big,33188'') \<le> sock_room (boundary_world SYNC_DATA_MAX)"
    by (simp add: send_request_def boundary_world_def peer_sends_def)
  have ch2: "chunks (max_chunk fresh_sc) (contents (?f SYNC_DATA_MAX)) = [replicate SYNC_DATA_MAX 7]"
    by (simp add: chunks.simps fresh_sc_def SYNC_DATA_MAX_def)
  have ch3: "chunks (max_chunk fresh_sc) (contents (?f (SYNC_DATA_MAX + 1)))
               = [replicate SYNC_DATA_MAX 7, [7]]"
    by (simp add: chunks.simps fresh_sc_def SYNC_DATA_MAX_def)
  have l4: "length (send_request ''/r/big,33188'') +
              stream_room (chunks (max_chunk fresh_sc) (contents (?f SYNC_DATA_MAX))) + 8
              \<le> sock_room (boundary_world SYNC_DATA_MAX)"
    unfolding ch2
    by (simp add: stream_room_def data_frame_def send_request_def boundary_world_def peer_sends_def
          SYNC_DATA_MAX_def)
  have l5: "length (send_request ''/r/big,33188'') +
              stream_room (chunks (max_chunk fresh_sc) (contents (?f (SYNC_DATA_MAX + 1)))) + 8
              \<le> sock_room (boundary_world (SYNC_DATA_MAX + 1))"
    unfolding ch3
    by (simp add: stream_room_def data_frame_def send_request_def boundary_world_def peer_sends_def
          SYNC_DATA_MAX_def)
  have rd2: "readable (?f SYNC_DATA_MAX)" "read_fail (?f SYNC_DATA_MAX) = None" by simp_all
  have rd3: "readable (?f (SYNC_DATA_MAX + 1))" "read_fail (?f (SYNC_DATA_MAX + 1)) = None"
    by simp_all
  have ev2: "stream_events ''/r/big'' (st_size (?f SYNC_DATA_MAX)) 0
               (chunks (max_chunk fresh_sc) (contents (?f SYNC_DATA_MAX)))
             = [SockWrite (data_frame (replicate SYNC_DATA_MAX 7)), Progress ''/r/big'' 100]"
    unfolding ch2 by (simp add: percentage_def SYNC_DATA_MAX_def)
  have ev3: "stream_events ''/r/big'' (st_size (?f (SYNC_DATA_MAX + 1))) 0
               (chunks (max_chunk fresh_sc) (contents (?f (SYNC_DATA_MAX + 1))))
             = [SockWrite (data_frame (replicate SYNC_DATA_MAX 7)), Progress ''/r/big'' 99,
                SockWrite (data_frame [7]), Progress ''/r/big'' 100]"
    unfolding ch3 by (simp add: percentage_def SYNC_DATA_MAX_def)
  have nf2: "int (next_fd (boundary_world SYNC_DATA_MAX)) = 4"
    by (simp add: boundary_world_def peer_sends_def)
  have nf3: "int (next_fd (boundary_world (SYNC_DATA_MAX + 1))) = 4"
    by (simp add: boundary_world_def peer_sends_def)
  have mc: "0 < max_chunk fresh_sc"
    by (simp add: fresh_sc_def SYNC_DATA_MAX_def)
  note inst1 = C5_small_large_boundary [OF reg f1, where data = "replicate (SYNC_DATA_MAX - 1) 7"
      and rpath = "''/r/big''" and mtime = 42 and sc = fresh_sc, unfolded pm]
  note inst2 = C5_small_large_boundary [OF reg f2, where data = "[]"
      and rpath = "''/r/big''" and mtime = 42 and sc = fresh_sc, unfolded pm]
  note inst3 = C5_small_large_boundary [OF reg f3, where data = "[]"
      and rpath = "''/r/big''" and mtime = 42 and sc = fresh_sc, unfolded pm]
  from inst1 [THEN conjunct2, THEN conjunct1, THEN mp, OF conjI [OF s1 conjI [OF rf conjI [OF l1 l2]]]]
  have a: "\<exists>evs. new_events (boundary_world (SYNC_DATA_MAX - 1))
               (snd (snd (sync_send fresh_sc ''/l/big'' ''/r/big'' 42 0x81A4
                            (boundary_world (SYNC_DATA_MAX - 1))))) =
             Print ''/r/big'' #
             SockWrite (small_file_burst ''/r/big,33188'' (replicate (SYNC_DATA_MAX - 1) 7) 42) # evs" .
  from inst2 [THEN conjunct2, THEN conjunct2, THEN conjunct2, THEN conjunct1, THEN mp,
      OF conjI [OF s2 conjI [OF l1 l3]]]
  have b: "\<exists>evs. new_events (boundary_world SYNC_DATA_MAX)
               (snd (snd (sync_send fresh_sc ''/l/big'' ''/r/big'' 42 0x81A4
                            (boundary_world SYNC_DATA_MAX)))) =
             SockWrite (send_request ''/r/big,33188'') # evs" .
  from inst2 [THEN conjunct2, THEN conjunct2, THEN conjunct2, THEN conjunct2, THEN conjunct2,
      THEN conjunct2, THEN conjunct1, THEN mp,
      OF conjI [OF s2 conjI [OF rd2(1) conjI [OF rd2(2) conjI [OF l1 l4]]]]]
  have c: "\<exists>sc1 w1.
         SendLargeFile fresh_sc ''/r/big,33188'' ''/l/big'' ''/r/big'' 42 (boundary_world SYNC_DATA_MAX)
           = (Returns True, sc1, w1)
       \<and> new_events (boundary_world SYNC_DATA_MAX) w1 =
           [SockWrite (send_request ''/r/big,33188''), FileOpen ''/l/big'' 4,
            SockWrite (data_frame (replicate SYNC_DATA_MAX 7)), Progress ''/r/big'' 100,
            FileClose 4, SockWrite (le32 ID_DONE @ le32 42)]
       \<and> sync_send fresh_sc ''/l/big'' ''/r/big'' 42 0x81A4 (boundary_world SYNC_DATA_MAX) =
           (case CopyDone ''/l/big'' ''/r/big'' w1 of (ok, w2) \<Rightarrow> (Returns ok, sc1, w2))"
    unfolding ev2 nf2 append_Cons append_Nil .
  from inst3 [THEN conjunct2, THEN conjunct2, THEN conjunct2, THEN conjunct2, THEN conjunct2,
      THEN conjunct2, THEN conjunct1, THEN mp,
      OF conjI [OF s3 conjI [OF rd3(1) conjI [OF rd3(2) conjI [OF l1 l5]]]]]
  have d: "\<exists>sc1 w1.
         SendLargeFile fresh_sc ''/r/big,33188'' ''/l/big'' ''/r/big'' 42
           (boundary_world (SYNC_DATA_MAX + 1)) = (Returns True, sc1, w1)
       \<and> new_events (boundary_world (SYNC_DATA_MAX + 1)) w1 =
           [SockWrite (send_request ''/r/big,33188''), FileOpen ''/l/big'' 4,
            SockWrite (data_frame (replicate SYNC_DATA_MAX 7)), Progress ''/r/big'' 99,
            SockWrite (data_frame [7]), Progress ''/r/big'' 100,
            FileClose 4, SockWrite (le32 ID_DONE @ le32 42)]"
    unfolding ev3 nf3 append_Cons append_Nil by blast
  from inst3 [THEN conjunct2, THEN conjunct2, THEN conjunct2, THEN conjunct2, THEN conjunct2,
      THEN conjunct2, THEN conjunct2, THEN conjunct1, THEN mp, OF mc]
  have e: "concat (chunks (max_chunk fresh_sc) (replicate (SYNC_DATA_MAX + 1) 7))
       = replicate (SYNC_DATA_MAX + 1) 7"
    by simp
  from reg a b c d mc e show ?thesis by (intro conjI)
qed

subsection \<open>C6: the destructor sends QUIT whether or not an operation failed\<close>

text \<open>
  C6, as the code has it. The destructor looks at nothing but \<open>fd\<close>: a connection that was
  established always gets a QUIT request written, whatever happened on it before; the stream
  is drained exactly when that write succeeded, and the descriptor is closed. Only a
  connection that was never established sends nothing.
\<close>

theorem C6_destructor_always_quits:
  "(fd sc < 0 \<longrightarrow> SyncConnection_delete sc w = w)
   \<and> (fd sc \<ge> 0 \<and> 8 \<le> sock_room w \<longrightarrow>
        new_events w (SyncConnection_delete sc w) =
          [SockWrite (le32 ID_QUIT @ le32 0), OrderlyShutdown (sock_in w), SockClose (fd sc)]
        \<and> sock_in (SyncConnection_delete sc w) = [])
   \<and> (fd sc \<ge> 0 \<and> sock_room w < 8 \<longrightarrow>
        new_events w (SyncConnection_delete sc w) =
          [SockWriteShort (take (sock_room w) (le32 ID_QUIT @ le32 0)), SockClose (fd sc)]
        \<and> sock_in (SyncConnection_delete sc w) = sock_in w)"
  by (simp add: SyncConnection_delete_def IsValid_def SendQuit_def SendRequest_def
        WriteFdExactly_def ReadOrderlyShutdown_def new_events_def)

theorem C6_destructor_always_quits_witness:
  "fd fresh_sc \<ge> 0 \<and> 8 \<le> sock_room (peer_sends [7, 7])
   \<and> new_events (peer_sends [7, 7]) (SyncConnection_delete fresh_sc (peer_sends [7, 7])) =
        [SockWrite (le32 ID_QUIT @ le32 0), OrderlyShutdown [7, 7], SockClose 3]
   \<and> SyncConnection_delete (fresh_sc\<lparr>fd := - 1\<rparr>) (peer_sends [7, 7]) = peer_sends [7, 7]
   \<and> new_events ((peer_sends [7, 7])\<lparr>sock_room := 0\<rparr>)
        (SyncConnection_delete fresh_sc ((peer_sends [7, 7])\<lparr>sock_room := 0\<rparr>)) =
        [SockWriteShort [], SockClose 3]"
  using C6_destructor_always_quits [of fresh_sc "peer_sends [7, 7]"]
    C6_destructor_always_quits [of "fresh_sc\<lparr>fd := - 1\<rparr>" "peer_sends [7, 7]"]
    C6_destructor_always_quits [of fresh_sc "(peer_sends [7, 7])\<lparr>sock_room := 0\<rparr>"]
  by (simp add: fresh_sc_def peer_sends_def)


text \<open>
  As the claim states it, C6 fails: a LIST that ends in error (the peer answers with a frame
  that is neither DENT nor DONE) and a push that ends in error (the peer answers FAIL) are
  both followed by QUIT and the drain.
\<close>

theorem C6_counterexample:
  "fst (do_sync_ls ''/d'' (peer_sends list_fail_input)) = False
   \<and> trace (snd (snd (do_sync_ls ''/d'' (peer_sends list_fail_input)))) =
       [SockWrite (le32 ID_LIST @ le32 2 @ map of_char ''/d''),
        SockRead list_fail_input,
        SockWrite (le32 ID_QUIT @ le32 0),
        OrderlyShutdown [],
        SockClose 3]
   \<and> fst (sync_send fresh_sc ''/l/a'' ''/r/a'' 42 0x81A4 (push_world (fail_frame ''no space'')))
       = Returns False
   \<and> new_events
        (snd (snd (sync_send fresh_sc ''/l/a'' ''/r/a'' 42 0x81A4 (push_world (fail_frame ''no space'')))))
        (SyncConnection_delete
          (fst (snd (sync_send fresh_sc ''/l/a'' ''/r/a'' 42 0x81A4 (push_world (fail_frame ''no space'')))))
          (snd (snd (sync_send fresh_sc ''/l/a'' ''/r/a'' 42 0x81A4 (push_world (fail_frame ''no space''))))))
       = [SockWrite (le32 ID_QUIT @ le32 0), OrderlyShutdown [], SockClose 3]"
  by (simp add: run_defs run_defs2 list_fail_input_def push_world_def sync_ls_loop.simps)

subsection \<open>C7: the STAT requests are pipelined and answered in order\<close>

text \<open>
  C7. Whatever the outcome of the timestamp phase, its events are a run of events that
  read nothing from the stream (the requests written, or the error print of an over-long
  path), followed by a run of reads only: no reply is read before the last request is
  written. When the phase succeeds, the events are exactly one STAT request per item, in
  list order, then one 16-byte read per item; the \<open>n\<close>-th item of the resulting list is
  the \<open>n\<close>-th item of the file list, updated with the \<open>n\<close>-th 16-byte block of the
  peer's bytes.
\<close>

theorem C7_stat_pipelining:
  assumes "check_timestamps_phase sc filelist w = (ok, filelist', w')"
  shows "(\<exists>ws rs. new_events w w' = ws @ rs \<and> \<not> list_ex is_sock_read ws \<and> list_all is_sock_read rs)
       \<and> (ok \<longrightarrow>
            new_events w w' =
              map (\<lambda>ci. SockWrite (stat_request (dst ci))) filelist @
              map (\<lambda>n. SockRead (stat_block n (sock_in w))) [0..<length filelist]
          \<and> length filelist' = length filelist
          \<and> (\<forall>n < length filelist.
                filelist' ! n = apply_stat (filelist ! n) (stat_block n (sock_in w))))"
proof -
  obtain ok1 w1 where s: "send_stat_requests sc filelist w = (ok1, w1)"
    by (cases "send_stat_requests sc filelist w")
  from send_stat_requests_any [OF s] obtain ws where
    ws: "sock_in w1 = sock_in w" "trace w1 = trace w @ ws" "\<not> list_ex is_sock_read ws"
    by blast
  show ?thesis
  proof (cases ok1)
    case False
    with s assms have "ok = False" "w' = w1"
      by (simp_all add: check_timestamps_phase_def)
    with ws have "new_events w w' = ws @ [] \<and> \<not> list_ex is_sock_read ws \<and> list_all is_sock_read []"
      by (simp add: new_events_def)
    then have "\<exists>ws rs. new_events w w' = ws @ rs \<and> \<not> list_ex is_sock_read ws \<and> list_all is_sock_read rs"
      by blast
    with \<open>ok = False\<close> show ?thesis by simp
  next
    case True
    with s assms have f: "finish_stats sc filelist w1 = (ok, filelist', w')"
      by (simp add: check_timestamps_phase_def)
    from finish_stats_reads [OF f] obtain rs where
      rs: "trace w' = trace w1 @ rs" "list_all is_sock_read rs"
      by blast
    from ws rs have "new_events w w' = ws @ rs \<and> \<not> list_ex is_sock_read ws \<and> list_all is_sock_read rs"
      by (simp add: new_events_def)
    then have first: "\<exists>ws rs. new_events w w' = ws @ rs \<and> \<not> list_ex is_sock_read ws \<and> list_all is_sock_read rs"
      by blast
    show ?thesis
    proof (cases ok)
      case False
      with first show ?thesis by simp
    next
      case ok: True
      from s True have "send_stat_requests sc filelist w = (True, w1)" by simp
      from send_stat_requests_True [OF this]
      have w1: "trace w1 = trace w @ map (\<lambda>ci. SockWrite (stat_request (dst ci))) filelist"
        by simp
      from f ok have "finish_stats sc filelist w1 = (True, filelist', w')" by simp
      from finish_stats_True [OF this] ws(1) w1
      have "new_events w w' =
              map (\<lambda>ci. SockWrite (stat_request (dst ci))) filelist @
              map (\<lambda>n. SockRead (stat_block n (sock_in w))) [0..<length filelist]"
        and "length filelist' = length filelist"
        and "\<forall>n < length filelist.
                filelist' ! n = apply_stat (filelist ! n) (stat_block n (sock_in w))"
        by (simp_all add: new_events_def)
      with first ok show ?thesis by simp
    qed
  qed
qed

theorem C7_stat_pipelining_witness:
  "fst (check_timestamps_phase fresh_sc [file_a, file_b] (peer_sends sync_replies)) = True
   \<and> new_events (peer_sends sync_replies)
        (snd (snd (check_timestamps_phase fresh_sc [file_a, file_b] (peer_sends sync_replies)))) =
       [SockWrite (stat_request ''/r/a''), SockWrite (stat_request ''/r/b''),
        SockRead (stat_reply 0x81A4 10 5), SockRead (stat_reply 0x81A4 11 5)]
   \<and> fst (snd (check_timestamps_phase fresh_sc [file_a, file_b] (peer_sends sync_replies))) =
       [apply_stat file_a (stat_reply 0x81A4 10 5), apply_stat file_b (stat_reply 0x81A4 11 5)]
   \<and> map flag (fst (snd (check_timestamps_phase fresh_sc [file_a, file_b] (peer_sends sync_replies))))
       = [1, 0]"
proof -
  let ?W = "peer_sends sync_replies"
  let ?R = "check_timestamps_phase fresh_sc [file_a, file_b] ?W"
  have ok: "fst ?R = True"
    by (simp add: run_defs phase_defs)
  then have eq: "?R = (True, fst (snd ?R), snd (snd ?R))"
    by (metis prod.collapse)
  have b0: "stat_block 0 (sock_in ?W) = stat_reply 0x81A4 10 5"
    by (simp add: peer_sends_def sync_replies_def stat_block_def stat_reply_def)
  have b1: "stat_block (Suc 0) (sock_in ?W) = stat_reply 0x81A4 11 5"
    by (simp add: peer_sends_def sync_replies_def stat_block_def stat_reply_def)
  from C7_stat_pipelining [OF eq]
  have ev: "new_events ?W (snd (snd ?R)) =
              map (\<lambda>ci. SockWrite (stat_request (dst ci))) [file_a, file_b] @
              map (\<lambda>n. SockRead (stat_block n (sock_in ?W))) [0..<length [file_a, file_b]]"
    and len: "length (fst (snd ?R)) = length [file_a, file_b]"
    and nth: "\<forall>n < length [file_a, file_b].
                fst (snd ?R) ! n = apply_stat ([file_a, file_b] ! n) (stat_block n (sock_in ?W))"
    by simp_all
  have ev': "new_events ?W (snd (snd ?R)) =
       [SockWrite (stat_request ''/r/a''), SockWrite (stat_request ''/r/b''),
        SockRead (stat_reply 0x81A4 10 5), SockRead (stat_reply 0x81A4 11 5)]"
    unfolding ev using b0 b1 by (simp add: file_a_def file_b_def upt_rec)
  from nth have "fst (snd ?R) ! 0 = apply_stat file_a (stat_reply 0x81A4 10 5)"
    and "fst (snd ?R) ! 1 = apply_stat file_b (stat_reply 0x81A4 11 5)"
    using b0 b1 by simp_all
  with len have fl: "fst (snd ?R) =
       [apply_stat file_a (stat_reply 0x81A4 10 5), apply_stat file_b (stat_reply 0x81A4 11 5)]"
    by (cases "fst (snd ?R)"; cases "tl (fst (snd ?R))") auto
  have "map flag [apply_stat file_a (stat_reply 0x81A4 10 5),
                  apply_stat file_b (stat_reply 0x81A4 11 5)] = [1, 0]"
    by (simp add: apply_stat_def stat_reply_def check_timestamp_def file_a_def file_b_def
          S_ISREG_def S_ISLNK_def S_IFMT_def S_IFREG_def S_IFLNK_def)
  with ok ev' fl show ?thesis by simp
qed

subsection \<open>C8: LIST delivers the entries in order and stops at the first bad frame\<close>

text \<open>
  C8. Let the LIST request go out, and let the peer's bytes start with the DENT frames of
  the entries \<open>es\<close> (names of at most 256 bytes), followed by \<open>tail\<close>. Then the callback is
  applied once per entry, in arrival order (\<open>fold\<close>), and
  \<^item> if \<open>tail\<close> starts with a DONE frame, \<open>sync_ls\<close> returns true;
  \<^item> if \<open>tail\<close> starts with a frame whose id is neither DENT nor DONE, \<open>sync_ls\<close> returns
    false;
  \<^item> if \<open>tail\<close> starts with a DENT header whose \<open>namelen\<close> exceeds 256, \<open>sync_ls\<close> returns
    false, without reading the name;
  in the last two cases nothing after the bad frame is delivered: the callback state is
  that of the entries before it. And \<open>sync_ls\<close> returns true only when a DONE frame was
  received: the last event of the call is then the read of a 20-byte frame with id DONE.
\<close>

theorem C8_sync_ls:
  assumes "SendRequest ID_LIST path w = (True, w1)"
      and "sock_in w = concat (map dent_frame es) @ tail"
      and "\<forall>e \<in> set es. length (name_of e) \<le> 256"
  shows "(\<forall>pad rest. tail = le32 ID_DONE @ pad @ rest \<and> length pad = 16 \<longrightarrow>
            (\<exists>w'. sync_ls sc path func acc w = (True, fold (deliver func) es acc, w')
                 \<and> sock_in w' = rest))
       \<and> (\<forall>i pad rest. tail = le32 i @ pad @ rest \<and> length pad = 16 \<and> i \<noteq> ID_DONE \<and> i \<noteq> ID_DENT \<longrightarrow>
            (\<exists>w'. sync_ls sc path func acc w = (False, fold (deliver func) es acc, w')
                 \<and> sock_in w' = rest))
       \<and> (\<forall>dmode dsize dtime namelen rest.
            tail = le32 ID_DENT @ le32 dmode @ le32 dsize @ le32 dtime @ le32 namelen @ rest
            \<and> unat namelen > 256 \<longrightarrow>
            (\<exists>w'. sync_ls sc path func acc w = (False, fold (deliver func) es acc, w')
                 \<and> sock_in w' = rest))
       \<and> (\<forall>acc' w'. sync_ls sc path func acc w = (True, acc', w') \<longrightarrow>
            (\<exists>pre blk. new_events w w' = pre @ [SockRead blk] \<and> length blk = 20
                      \<and> field 0 blk = ID_DONE))"
proof -
  from assms(1) have w1: "sock_in w1 = sock_in w" and
    t1: "\<exists>e. trace w1 = trace w @ [e]"
    by (auto simp: SendRequest_def WriteFdExactly_def Let_def split: if_splits)
  have ls: "sync_ls sc path func acc w = sync_ls_loop func acc w1"
    using assms(1) by (simp add: sync_ls_def)
  from sync_ls_loop_dents [of w1 es tail func acc] assms(2,3) w1
  obtain w2 where w2: "sync_ls_loop func acc w1 = sync_ls_loop func (fold (deliver func) es acc) w2"
      "sock_in w2 = tail"
    by auto
  have a: "\<forall>pad rest. tail = le32 ID_DONE @ pad @ rest \<and> length pad = 16 \<longrightarrow>
            (\<exists>w'. sync_ls sc path func acc w = (True, fold (deliver func) es acc, w')
                 \<and> sock_in w' = rest)"
  proof (intro allI impI, elim conjE)
    fix pad rest
    assume "tail = le32 ID_DONE @ pad @ rest" and p: "length pad = 16"
    with w2 have "sock_in w2 = le32 ID_DONE @ pad @ rest" by simp
    from sync_ls_loop_done [OF this p, of func "fold (deliver func) es acc"]
    show "\<exists>w'. sync_ls sc path func acc w = (True, fold (deliver func) es acc, w')
                 \<and> sock_in w' = rest"
      using ls w2(1) by simp
  qed
  have b: "\<forall>i pad rest. tail = le32 i @ pad @ rest \<and> length pad = 16 \<and> i \<noteq> ID_DONE \<and> i \<noteq> ID_DENT \<longrightarrow>
            (\<exists>w'. sync_ls sc path func acc w = (False, fold (deliver func) es acc, w')
                 \<and> sock_in w' = rest)"
  proof (intro allI impI, elim conjE)
    fix i pad rest
    assume "tail = le32 i @ pad @ rest" and p: "length pad = 16"
      and i: "i \<noteq> ID_DONE" "i \<noteq> ID_DENT"
    with w2 have "sock_in w2 = le32 i @ pad @ rest" by simp
    from sync_ls_loop_bad_id [OF this p i, of func "fold (deliver func) es acc"]
    show "\<exists>w'. sync_ls sc path func acc w = (False, fold (deliver func) es acc, w')
                 \<and> sock_in w' = rest"
      using ls w2(1) by simp
  qed
  have c: "\<forall>dmode dsize dtime namelen rest.
            tail = le32 ID_DENT @ le32 dmode @ le32 dsize @ le32 dtime @ le32 namelen @ rest
            \<and> unat namelen > 256 \<longrightarrow>
            (\<exists>w'. sync_ls sc path func acc w = (False, fold (deliver func) es acc, w')
                 \<and> sock_in w' = rest)"
  proof (intro allI impI, elim conjE)
    fix dmode dsize dtime namelen rest
    assume "tail = le32 ID_DENT @ le32 dmode @ le32 dsize @ le32 dtime @ le32 namelen @ rest"
      and n: "unat namelen > 256"
    with w2 have "sock_in w2 = le32 ID_DENT @ le32 dmode @ le32 dsize @ le32 dtime @ le32 namelen @ rest"
      by simp
    from sync_ls_loop_long_name [OF this n, of func "fold (deliver func) es acc"]
    show "\<exists>w'. sync_ls sc path func acc w = (False, fold (deliver func) es acc, w')
                 \<and> sock_in w' = rest"
      using ls w2(1) by simp
  qed
  have d: "\<forall>acc' w'. sync_ls sc path func acc w = (True, acc', w') \<longrightarrow>
            (\<exists>pre blk. new_events w w' = pre @ [SockRead blk] \<and> length blk = 20
                      \<and> field 0 blk = ID_DONE)"
  proof (intro allI impI)
    fix acc' w'
    assume "sync_ls sc path func acc w = (True, acc', w')"
    with ls have "sync_ls_loop func acc w1 = (True, acc', w')" by simp
    from sync_ls_loop_True [OF this] obtain pre blk where
      p: "trace w' = trace w1 @ pre @ [SockRead blk]" "length blk = 20" "field 0 blk = ID_DONE"
      by blast
    from t1 obtain e where "trace w1 = trace w @ [e]" ..
    with p have "new_events w w' = (e # pre) @ [SockRead blk] \<and> length blk = 20 \<and> field 0 blk = ID_DONE"
      by (simp add: new_events_def)
    then show "\<exists>pre blk. new_events w w' = pre @ [SockRead blk] \<and> length blk = 20 \<and> field 0 blk = ID_DONE"
      by blast
  qed
  from a b c d show ?thesis by blast
qed

theorem C8_sync_ls_witness:
  "fst (SendRequest ID_LIST ''/d'' (peer_sends (concat (map dent_frame ls_entries) @ done20))) = True
   \<and> list_all (\<lambda>e. length (name_of e) \<le> 256) ls_entries
   \<and> (\<exists>w'. sync_ls fresh_sc ''/d'' collect []
              (peer_sends (concat (map dent_frame ls_entries) @ done20)) = (True, ls_entries, w')
          \<and> sock_in w' = [])
   \<and> fst (SendRequest ID_LIST ''/d''
             (peer_sends (concat (map dent_frame (take (Suc 0) ls_entries)) @
                          le32 ID_FAIL @ le32 0 @ le32 0 @ le32 0 @ le32 0 @
                          concat (map dent_frame (drop (Suc 0) ls_entries)) @ done20))) = True
   \<and> (\<exists>w'. sync_ls fresh_sc ''/d'' collect []
              (peer_sends (concat (map dent_frame (take (Suc 0) ls_entries)) @
                           le32 ID_FAIL @ le32 0 @ le32 0 @ le32 0 @ le32 0 @
                           concat (map dent_frame (drop (Suc 0) ls_entries)) @ done20))
            = (False, take (Suc 0) ls_entries, w')
          \<and> sock_in w' = concat (map dent_frame (drop (Suc 0) ls_entries)) @ done20)"
proof -
  let ?W = "peer_sends (concat (map dent_frame ls_entries) @ done20)"
  let ?V = "peer_sends (concat (map dent_frame (take (Suc 0) ls_entries)) @
                          le32 ID_FAIL @ le32 0 @ le32 0 @ le32 0 @ le32 0 @
                          concat (map dent_frame (drop (Suc 0) ls_entries)) @ done20)"
  have sr: "fst (SendRequest ID_LIST ''/d'' ?W) = True"
    by (simp add: SendRequest_def WriteFdExactly_def peer_sends_def)
  then have sr': "SendRequest ID_LIST ''/d'' ?W = (True, snd (SendRequest ID_LIST ''/d'' ?W))"
    by (simp add: prod_eq_iff)
  have inp: "sock_in ?W = concat (map dent_frame ls_entries) @ done20"
    by (simp add: peer_sends_def)
  have names: "\<forall>e \<in> set ls_entries. length (name_of e) \<le> 256"
    by (simp add: ls_entries_def name_of_def)
  have srv: "fst (SendRequest ID_LIST ''/d'' ?V) = True"
    by (simp add: SendRequest_def WriteFdExactly_def peer_sends_def)
  then have srv': "SendRequest ID_LIST ''/d'' ?V = (True, snd (SendRequest ID_LIST ''/d'' ?V))"
    by (simp add: prod_eq_iff)
  have inpv: "sock_in ?V = concat (map dent_frame (take (Suc 0) ls_entries)) @
                (le32 ID_FAIL @ le32 0 @ le32 0 @ le32 0 @ le32 0 @
                 concat (map dent_frame (drop (Suc 0) ls_entries)) @ done20)"
    by (simp add: peer_sends_def)
  have namesv: "\<forall>e \<in> set (take (Suc 0) ls_entries). length (name_of e) \<le> 256"
    by (simp add: ls_entries_def name_of_def)
  have f1: "fold (deliver collect) ls_entries [] = ls_entries"
    by (simp add: ls_entries_def deliver_def collect_def c_str_def)
  have f2: "fold (deliver collect) (take (Suc 0) ls_entries) [] = take (Suc 0) ls_entries"
    by (simp add: ls_entries_def deliver_def collect_def c_str_def)
  have bad: "ID_FAIL \<noteq> ID_DONE" "ID_FAIL \<noteq> ID_DENT"
    by (simp_all add: ID_FAIL_def ID_DONE_def ID_DENT_def)
  from C8_sync_ls [OF sr' inp names, of fresh_sc collect "[]"]
  have "\<forall>pad rest. done20 = le32 ID_DONE @ pad @ rest \<and> length pad = 16 \<longrightarrow>
            (\<exists>w'. sync_ls fresh_sc ''/d'' collect [] ?W = (True, fold (deliver collect) ls_entries [], w')
                 \<and> sock_in w' = rest)"
    by blast
  from this [rule_format, of "le32 0 @ le32 0 @ le32 0 @ le32 0" "[]"]
  have a: "\<exists>w'. sync_ls fresh_sc ''/d'' collect [] ?W = (True, ls_entries, w') \<and> sock_in w' = []"
    by (simp add: done20_def f1)
  from C8_sync_ls [OF srv' inpv namesv, of fresh_sc collect "[]"]
  have "\<forall>i pad rest. le32 ID_FAIL @ le32 0 @ le32 0 @ le32 0 @ le32 0 @
                 concat (map dent_frame (drop (Suc 0) ls_entries)) @ done20 = le32 i @ pad @ rest
            \<and> length pad = 16 \<and> i \<noteq> ID_DONE \<and> i \<noteq> ID_DENT \<longrightarrow>
            (\<exists>w'. sync_ls fresh_sc ''/d'' collect [] ?V
                     = (False, fold (deliver collect) (take (Suc 0) ls_entries) [], w')
                 \<and> sock_in w' = rest)"
    by blast
  from this [rule_format, of ID_FAIL "le32 0 @ le32 0 @ le32 0 @ le32 0"
               "concat (map dent_frame (drop (Suc 0) ls_entries)) @ done20"] bad
  have b: "\<exists>w'. sync_ls fresh_sc ''/d'' collect [] ?V = (False, take (Suc 0) ls_entries, w')
             \<and> sock_in w' = concat (map dent_frame (drop (Suc 0) ls_entries)) @ done20"
    by (simp add: f2)
  have l: "list_all (\<lambda>e. length (name_of e) \<le> 256) ls_entries"
    by (simp add: ls_entries_def name_of_def)
  from sr l a srv b show ?thesis by (intro conjI)
qed

subsection \<open>C9: the byte counter grows by the payload moved and never decreases\<close>

text \<open>
  C9. \<open>total_bytes\<close> is a \<open>uint64_t\<close> that the constructor sets to 0. A small send adds the
  length of the data when its write succeeds and nothing otherwise; a large send adds the
  payload of the DATA frames it wrote whole; a receive adds the bytes of the chunks it wrote
  whole to the destination (\<open>moved\<close> counts both on the events of the call). Adding \<open>n\<close>
  bytes does not decrease the counter as long as counter plus \<open>n\<close> stays below \<open>2 ^ 64\<close>,
  which holds in every session that moves fewer than \<open>2 ^ 64\<close> bytes, the counter being
  the bytes moved since the constructor. STAT and LIST (\<open>sync_stat\<close>, \<open>sync_ls\<close>) have no
  assignment to the counter (the connection after the call is the one that was passed), and
  their events move no DATA payload.
\<close>

theorem C9_total_bytes_growth:
  "(SendSmallFile sc path_and_mode rpath data mtime w = (ok, sc', w') \<longrightarrow>
      total_bytes sc' = (if ok then total_bytes sc + of_nat (length data) else total_bytes sc))
   \<and> (SendLargeFile sc path_and_mode lpath rpath mtime w = (r, sc', w') \<longrightarrow>
        total_bytes sc' = total_bytes sc + of_nat (moved w w'))
   \<and> (sync_recv sc rpath lpath w = (r, sc', w') \<longrightarrow>
        total_bytes sc' = total_bytes sc + of_nat (moved w w'))
   \<and> (unat (total_bytes sc) + n < 2 ^ 64 \<longrightarrow> total_bytes sc \<le> total_bytes sc + of_nat n)
   \<and> (sync_stat sc rpath w = (st, w') \<longrightarrow> moved w w' = 0)
   \<and> (sync_ls sc rpath func acc w = (listed, acc', w') \<longrightarrow> moved w w' = 0)
   \<and> total_bytes (fst (SyncConnection_new w)) = 0
   \<and> (SendSmallFile sc path_and_mode rpath data mtime w = (ok, sc', w') \<and>
       unat (total_bytes sc) + length data < 2 ^ 64 \<longrightarrow> total_bytes sc \<le> total_bytes sc')
   \<and> (SendLargeFile sc path_and_mode lpath rpath mtime w = (r, sc', w') \<and>
       unat (total_bytes sc) + moved w w' < 2 ^ 64 \<longrightarrow> total_bytes sc \<le> total_bytes sc')
   \<and> (sync_recv sc rpath lpath w = (r, sc', w') \<and>
       unat (total_bytes sc) + moved w w' < 2 ^ 64 \<longrightarrow> total_bytes sc \<le> total_bytes sc')"
proof (intro conjI impI; (elim conjE)?)
  assume "SendSmallFile sc path_and_mode rpath data mtime w = (ok, sc', w')"
  then show "total_bytes sc' = (if ok then total_bytes sc + of_nat (length data) else total_bytes sc)"
    by (auto simp: SendSmallFile_def Let_def split: if_splits prod.splits bool.splits)
next
  assume "SendLargeFile sc path_and_mode lpath rpath mtime w = (r, sc', w')"
  then show "total_bytes sc' = total_bytes sc + of_nat (moved w w')"
    by (intro grows_moved SendLargeFile_grows)
next
  assume "sync_recv sc rpath lpath w = (r, sc', w')"
  then show "total_bytes sc' = total_bytes sc + of_nat (moved w w')"
    by (intro grows_moved sync_recv_grows)
next
  assume "unat (total_bytes sc) + n < 2 ^ 64"
  then show "total_bytes sc \<le> total_bytes sc + of_nat n"
    by (rule no_overflow_le)
next
  assume "sync_stat sc rpath w = (st, w')"
  then show "moved w w' = 0" by (rule sync_stat_quiet)
next
  assume "sync_ls sc rpath func acc w = (listed, acc', w')"
  then show "moved w w' = 0" by (rule sync_ls_quiet)
next
  show "total_bytes (fst (SyncConnection_new w)) = 0"
    by (simp add: SyncConnection_new_def)
next
  assume "SendSmallFile sc path_and_mode rpath data mtime w = (ok, sc', w')"
     and "unat (total_bytes sc) + length data < 2 ^ 64"
  then show "total_bytes sc \<le> total_bytes sc'"
    by (auto simp: SendSmallFile_def Let_def no_overflow_le split: if_splits prod.splits bool.splits)
next
  assume "SendLargeFile sc path_and_mode lpath rpath mtime w = (r, sc', w')"
     and b: "unat (total_bytes sc) + moved w w' < 2 ^ 64"
  then have "total_bytes sc' = total_bytes sc + of_nat (moved w w')"
    by (intro grows_moved SendLargeFile_grows)
  with no_overflow_le [OF b] show "total_bytes sc \<le> total_bytes sc'" by simp
next
  assume "sync_recv sc rpath lpath w = (r, sc', w')"
     and b: "unat (total_bytes sc) + moved w w' < 2 ^ 64"
  then have "total_bytes sc' = total_bytes sc + of_nat (moved w w')"
    by (intro grows_moved sync_recv_grows)
  with no_overflow_le [OF b] show "total_bytes sc \<le> total_bytes sc'" by simp
qed

theorem C9_total_bytes_growth_witness:
  "total_bytes (fst (snd (SendSmallFile fresh_sc ''/r/x,33188'' ''/r/x'' [1, 2, 3] 42 (peer_sends []))))
     = 3
   \<and> moved (push_world [])
        (snd (snd (SendLargeFile fresh_sc ''/r/a,33188'' ''/l/a'' ''/r/a'' 42 (push_world [])))) = 3
   \<and> total_bytes (fst (snd (SendLargeFile fresh_sc ''/r/a,33188'' ''/l/a'' ''/r/a'' 42 (push_world []))))
       = 3
   \<and> moved (peer_sends pull_ok_input)
        (snd (snd (sync_recv fresh_sc ''/r/f'' ''/l/f'' (peer_sends pull_ok_input)))) = 3
   \<and> total_bytes (fst (snd (sync_recv fresh_sc ''/r/f'' ''/l/f'' (peer_sends pull_ok_input)))) = 3
   \<and> unat (total_bytes fresh_sc) + 3 < 2 ^ 64
   \<and> total_bytes fresh_sc \<le> total_bytes fresh_sc + of_nat 3
   \<and> total_bytes fresh_sc
       \<le> total_bytes (fst (snd (SendSmallFile fresh_sc ''/r/x,33188'' ''/r/x'' [1, 2, 3] 42 (peer_sends []))))
   \<and> total_bytes fresh_sc
       \<le> total_bytes (fst (snd (SendLargeFile fresh_sc ''/r/a,33188'' ''/l/a'' ''/r/a'' 42 (push_world []))))
   \<and> total_bytes fresh_sc
       \<le> total_bytes (fst (snd (sync_recv fresh_sc ''/r/f'' ''/l/f'' (peer_sends pull_ok_input))))
   \<and> fst (sync_stat fresh_sc ''/r/f'' (peer_sends (stat_reply 0x81A4 3 5))) = Some (5, 0x81A4, 3)
   \<and> moved (peer_sends (stat_reply 0x81A4 3 5))
        (snd (sync_stat fresh_sc ''/r/f'' (peer_sends (stat_reply 0x81A4 3 5)))) = 0
   \<and> fst (sync_ls fresh_sc ''/d'' collect []
             (peer_sends (concat (map dent_frame ls_entries) @ done20))) = True
   \<and> moved (peer_sends (concat (map dent_frame ls_entries) @ done20))
        (snd (snd (sync_ls fresh_sc ''/d'' collect []
                     (peer_sends (concat (map dent_frame ls_entries) @ done20))))) = 0"
proof -
  let ?S = "SendSmallFile fresh_sc ''/r/x,33188'' ''/r/x'' [1, 2, 3] 42 (peer_sends [])"
  let ?L = "SendLargeFile fresh_sc ''/r/a,33188'' ''/l/a'' ''/r/a'' 42 (push_world [])"
  let ?R = "sync_recv fresh_sc ''/r/f'' ''/l/f'' (peer_sends pull_ok_input)"
  let ?T = "sync_stat fresh_sc ''/r/f'' (peer_sends (stat_reply 0x81A4 3 5))"
  let ?D = "sync_ls fresh_sc ''/d'' collect [] (peer_sends (concat (map dent_frame ls_entries) @ done20))"
  have s: "fst ?S = True"
    by (simp add: run_defs run_defs3)
  have eqS: "?S = (fst ?S, fst (snd ?S), snd (snd ?S))" by simp
  from C9_total_bytes_growth [where sc = fresh_sc and path_and_mode = "''/r/x,33188''"
      and rpath = "''/r/x''" and data = "[1, 2, 3]" and mtime = 42 and w = "peer_sends []"
      and ok = "fst ?S" and sc' = "fst (snd ?S)" and w' = "snd (snd ?S)", THEN conjunct1, THEN mp, OF eqS]
  have "total_bytes (fst (snd ?S)) =
          (if fst ?S then total_bytes fresh_sc + of_nat (length [1, 2, 3 :: byte]) else total_bytes fresh_sc)" .
  with s have a: "total_bytes (fst (snd ?S)) = 3"
    by (simp add: fresh_sc_def)
  have ml: "moved (push_world []) (snd (snd ?L)) = 3"
    by (simp add: run_defs run_defs3 SendLargeFile_loop.simps ID_SEND_def)
  have eqL: "?L = (fst ?L, fst (snd ?L), snd (snd ?L))" by simp
  from C9_total_bytes_growth [where sc = fresh_sc and path_and_mode = "''/r/a,33188''"
      and lpath = "''/l/a''" and rpath = "''/r/a''" and mtime = 42 and w = "push_world []"
      and r = "fst ?L" and sc' = "fst (snd ?L)" and w' = "snd (snd ?L)",
      THEN conjunct2, THEN conjunct1, THEN mp, OF eqL]
  have "total_bytes (fst (snd ?L)) = total_bytes fresh_sc + of_nat (moved (push_world []) (snd (snd ?L)))" .
  with ml have b: "total_bytes (fst (snd ?L)) = 3"
    by (simp add: fresh_sc_def)
  have mr: "moved (peer_sends pull_ok_input) (snd (snd ?R)) = 3"
    by (simp add: run_defs run_defs3 sync_recv_loop.simps)
  have eqR: "?R = (fst ?R, fst (snd ?R), snd (snd ?R))" by simp
  from C9_total_bytes_growth [where sc = fresh_sc and lpath = "''/l/f''" and rpath = "''/r/f''"
      and w = "peer_sends pull_ok_input"
      and r = "fst ?R" and sc' = "fst (snd ?R)" and w' = "snd (snd ?R)",
      THEN conjunct2, THEN conjunct2, THEN conjunct1, THEN mp, OF eqR]
  have "total_bytes (fst (snd ?R)) =
          total_bytes fresh_sc + of_nat (moved (peer_sends pull_ok_input) (snd (snd ?R)))" .
  with mr have c: "total_bytes (fst (snd ?R)) = 3"
    by (simp add: fresh_sc_def)
  have d: "unat (total_bytes fresh_sc) + 3 < 2 ^ 64"
    by (simp add: fresh_sc_def)
  from C9_total_bytes_growth [where sc = fresh_sc and n = 3,
      THEN conjunct2, THEN conjunct2, THEN conjunct2, THEN conjunct1, THEN mp, OF d]
  have e: "total_bytes fresh_sc \<le> total_bytes fresh_sc + of_nat 3" .
  have t: "fst ?T = Some (5, 0x81A4, 3)"
    by (simp add: run_defs)
  have eqT: "?T = (fst ?T, snd ?T)" by simp
  from C9_total_bytes_growth [where sc = fresh_sc and rpath = "''/r/f''"
      and w = "peer_sends (stat_reply 0x81A4 3 5)" and st = "fst ?T" and w' = "snd ?T",
      THEN conjunct2, THEN conjunct2, THEN conjunct2, THEN conjunct2, THEN conjunct1, THEN mp, OF eqT]
  have tm: "moved (peer_sends (stat_reply 0x81A4 3 5)) (snd ?T) = 0" .
  have l: "fst ?D = True"
    by (simp add: run_defs run_defs2 sync_ls_loop.simps ls_entries_def dent_frame_def done20_def)
  have eqD: "?D = (fst ?D, fst (snd ?D), snd (snd ?D))" by simp
  from C9_total_bytes_growth [where sc = fresh_sc and rpath = "''/d''" and func = collect
      and acc = "[]" and w = "peer_sends (concat (map dent_frame ls_entries) @ done20)"
      and listed = "fst ?D" and acc' = "fst (snd ?D)" and w' = "snd (snd ?D)",
      THEN conjunct2, THEN conjunct2, THEN conjunct2, THEN conjunct2, THEN conjunct2,
      THEN conjunct1, THEN mp, OF eqD]
  have lm: "moved (peer_sends (concat (map dent_frame ls_entries) @ done20)) (snd (snd ?D)) = 0" .
  have dS: "unat (total_bytes fresh_sc) + length [1, 2, 3 :: byte] < 2 ^ 64"
    by (simp add: fresh_sc_def)
  from C9_total_bytes_growth [where sc = fresh_sc and path_and_mode = "''/r/x,33188''"
      and rpath = "''/r/x''" and data = "[1, 2, 3]" and mtime = 42 and w = "peer_sends []"
      and ok = "fst ?S" and sc' = "fst (snd ?S)" and w' = "snd (snd ?S)",
      THEN conjunct2, THEN conjunct2, THEN conjunct2, THEN conjunct2, THEN conjunct2, THEN conjunct2, THEN conjunct2, THEN conjunct1, THEN mp, OF conjI, OF eqS dS]
  have gS: "total_bytes fresh_sc \<le> total_bytes (fst (snd ?S))" .
  have dL: "unat (total_bytes fresh_sc) + moved (push_world []) (snd (snd ?L)) < 2 ^ 64"
    unfolding ml by (simp add: fresh_sc_def)
  from C9_total_bytes_growth [where sc = fresh_sc and path_and_mode = "''/r/a,33188''"
      and lpath = "''/l/a''" and rpath = "''/r/a''" and mtime = 42 and w = "push_world []"
      and r = "fst ?L" and sc' = "fst (snd ?L)" and w' = "snd (snd ?L)",
      THEN conjunct2, THEN conjunct2, THEN conjunct2, THEN conjunct2, THEN conjunct2, THEN conjunct2, THEN conjunct2, THEN conjunct2, THEN conjunct1, THEN mp, OF conjI, OF eqL dL]
  have gL: "total_bytes fresh_sc \<le> total_bytes (fst (snd ?L))" .
  have dR: "unat (total_bytes fresh_sc) + moved (peer_sends pull_ok_input) (snd (snd ?R)) < 2 ^ 64"
    unfolding mr by (simp add: fresh_sc_def)
  from C9_total_bytes_growth [where sc = fresh_sc and lpath = "''/l/f''" and rpath = "''/r/f''"
      and w = "peer_sends pull_ok_input"
      and r = "fst ?R" and sc' = "fst (snd ?R)" and w' = "snd (snd ?R)",
      THEN conjunct2, THEN conjunct2, THEN conjunct2, THEN conjunct2, THEN conjunct2, THEN conjunct2, THEN conjunct2, THEN conjunct2, THEN conjunct2, THEN mp, OF conjI, OF eqR dR]
  have gR: "total_bytes fresh_sc \<le> total_bytes (fst (snd ?R))" .
  from a ml b mr c d e gS gL gR t tm l lm show ?thesis by (intro conjI)
qed

subsection \<open>C10: the progress computation can divide by zero\<close>

text \<open>
  C10. The sender is safe (\<open>sync_send_never_divides_by_zero\<close>): \<open>sync_send\<close> takes the
  chunked form only for a file whose \<open>st_size\<close> is at least \<open>SYNC_DATA_MAX\<close>, and
  \<open>SendLargeFile\<close> divides by that same size.
  The receiver is not: nothing relates the size of the STAT reply to the DATA frames that
  follow. At a STAT reply of size 0 followed by one DATA frame, \<open>sync_recv\<close> writes the
  chunk, then divides by zero; the call does not return and the partial destination file
  stays on disk.
\<close>

theorem C10_recv_divides_by_zero:
  "fst (sync_recv fresh_sc ''/proc/version'' ''/tmp/version'' (peer_sends zero_size_input))
     = DivideByZero
   \<and> map_option contents
        (files (snd (snd (sync_recv fresh_sc ''/proc/version'' ''/tmp/version''
                            (peer_sends zero_size_input)))) ''/tmp/version'')
     = Some [76]"
  by (simp add: run_defs zero_size_input_def sync_recv_loop.simps)

end
